(* ===== verification/Achilles_Prelude.thy ===== *)
theory Achilles_Prelude
  imports Main "HOL-Library.Word" "HOL-Library.Signed_Division"
begin

text \<open>
  Shared vocabulary of the development: names for the C integer types, the result type of
  code that can abort or run into undefined behaviour, little-endian byte views of machine
  words, writes into byte arrays (\<open>blit\<close>), C strings, the first matching position of a
  list, and the model of the operating system's \<^verbatim>\<open>pread\<close>/\<^verbatim>\<open>pwrite\<close>.
\<close>

unbundle bit_operations_syntax

section \<open>Machine types and results\<close>

type_synonym u8 = "8 word"
type_synonym u16 = "16 word"
type_synonym u32 = "32 word"
type_synonym u64 = "64 word"

type_synonym bytes = "u8 list"

text \<open>
  The ways in which the C code leaves its defined behaviour: an access outside an array, a
  read through a pointer that was never set, a read of an uninitialised variable, a division
  by zero, a call of \<^verbatim>\<open>abort\<close> and a call of \<^verbatim>\<open>exit\<close>.
\<close>

datatype c_error = Out_Of_Bounds | Wild_Pointer | Uninitialised | Div_By_Zero | Abort | Exit int

type_synonym 'a res = "c_error + 'a"

named_theorems res_simps \<open>unfolding rules of the result monad\<close>
named_theorems dev_defs \<open>definitions of the component operations\<close>

definition rbind :: "'a res \<Rightarrow> ('a \<Rightarrow> 'b res) \<Rightarrow> 'b res" where
  "rbind r f = (case r of Inl e \<Rightarrow> Inl e | Inr x \<Rightarrow> f x)"

lemma rbind_simps [simp, res_simps]:
  "rbind (Inl e) f = Inl e"
  "rbind (Inr x) f = f x"
  by (simp_all add: rbind_def)

lemma rbind_Inr_iff [res_simps]: "rbind r f = Inr y \<longleftrightarrow> (\<exists>x. r = Inr x \<and> f x = Inr y)"
  by (cases r) auto

lemma rbind_Inl_iff: "rbind r f = Inl e \<longleftrightarrow> r = Inl e \<or> (\<exists>x. r = Inr x \<and> f x = Inl e)"
  by (cases r) auto

section \<open>C division of non-negative numbers\<close>

lemma sdiv_nat_numeral: "int n sdiv numeral k = int (n div numeral k)"
  by (cases "n = 0") (simp_all add: signed_divide_int_def zdiv_int)

lemma smod_nat_numeral: "int n smod numeral k = int (n mod numeral k)"
  by (cases "n = 0") (simp_all add: signed_modulo_int_def signed_divide_int_def zmod_int minus_div_mult_eq_mod)

lemma unat_of_nat_small: "n < 2 ^ LENGTH('a) \<Longrightarrow> unat (word_of_nat n :: 'a::len word) = n"
  by (simp only: unsigned_of_nat take_bit_nat_eq_self of_nat_id)

lemma word_of_nat_eq_small:
  "n < 2 ^ LENGTH('a) \<Longrightarrow> m < 2 ^ LENGTH('a) \<Longrightarrow> word_of_nat n = (word_of_nat m :: 'a::len word) \<Longrightarrow> n = m"
  by (metis unat_of_nat_small)

lemma unat_less: "unat (x :: 'a::len word) < 2 ^ LENGTH('a)"
  by (rule unsigned_less)

lemma word_of_unat: "word_of_nat (unat w) = (w :: 'a::len word)"
  by simp

lemma unat_add_of_nat:
  fixes x :: "'a::len word"
  assumes "unat x + n < 2 ^ LENGTH('a)"
  shows "unat (x + word_of_nat n) = unat x + n"
proof -
  have "x + word_of_nat n = (word_of_nat (unat x + n) :: 'a word)" by simp
  then show ?thesis using assms by (simp only: unat_of_nat_small)
qed

lemma unat_mult_small:
  fixes x y :: "'a::len word"
  assumes "unat x * unat y < 2 ^ LENGTH('a)"
  shows "unat (x * y) = unat x * unat y"
proof -
  have "x * y = (word_of_nat (unat x * unat y) :: 'a word)" by simp
  then show ?thesis using assms by (simp only: unat_of_nat_small)
qed

lemma unat_sub_of_nat:
  fixes x :: "'a::len word"
  assumes "n \<le> unat x"
  shows "unat (x - word_of_nat n) = unat x - n"
proof -
  have "n < 2 ^ LENGTH('a)" using assms unat_less [of x] by (rule order_le_less_trans)
  then have "unat (word_of_nat n :: 'a word) = n" by (rule unat_of_nat_small)
  with assms show ?thesis by (simp add: unat_sub word_le_nat_alt)
qed

section \<open>First matching position of a list\<close>

fun find_pos :: "('a \<Rightarrow> bool) \<Rightarrow> 'a list \<Rightarrow> nat option" where
  "find_pos P [] = None"
| "find_pos P (x # xs) = (if P x then Some 0 else map_option Suc (find_pos P xs))"

lemma find_pos_None_iff: "find_pos P xs = None \<longleftrightarrow> (\<forall>x \<in> set xs. \<not> P x)"
  by (induction xs) auto

lemma find_pos_SomeD:
  "find_pos P xs = Some i \<Longrightarrow> i < length xs \<and> P (xs ! i) \<and> (\<forall>j < i. \<not> P (xs ! j))"
proof (induction xs arbitrary: i)
  case Nil
  then show ?case by simp
next
  case (Cons x xs)
  then show ?case
    by (cases i) (auto simp: less_Suc_eq_0_disj split: if_splits)
qed

lemma find_pos_SomeI:
  "i < length xs \<Longrightarrow> P (xs ! i) \<Longrightarrow> (\<And>j. j < i \<Longrightarrow> \<not> P (xs ! j)) \<Longrightarrow> find_pos P xs = Some i"
proof (induction xs arbitrary: i)
  case Nil
  then show ?case by simp
next
  case (Cons x xs)
  show ?case
  proof (cases i)
    case 0
    with Cons.prems show ?thesis by simp
  next
    case (Suc k)
    have "\<not> P x" using Cons.prems(3) [of 0] Suc by simp
    moreover have "find_pos P xs = Some k"
    proof (rule Cons.IH)
      show "k < length xs" and "P (xs ! k)" using Cons.prems Suc by simp_all
      show "\<not> P (xs ! j)" if "j < k" for j
        using Cons.prems(3) [of "Suc j"] Suc that by simp
    qed
    ultimately show ?thesis using Suc by simp
  qed
qed

lemma find_pos_cong: "(\<And>x. x \<in> set xs \<Longrightarrow> P x = Q x) \<Longrightarrow> find_pos P xs = find_pos Q xs"
  by (induction xs) auto

lemma map_of_find_pos:
  "map_of (map (\<lambda>x. (key x, val x)) xs) k =
     map_option (\<lambda>i. val (xs ! i)) (find_pos (\<lambda>x. key x = k) xs)"
  by (induction xs) (auto simp: option.map_comp o_def)

lemma map_of_update_at_apply:
  assumes "distinct (map key xs)" and "i < length xs" and "key x = key (xs ! i)"
  shows "map_of (map (\<lambda>x. (key x, val x)) (xs[i := x])) k =
    (if k = key x then Some (val x) else map_of (map (\<lambda>x. (key x, val x)) xs) k)"
  using assms
proof (induction xs arbitrary: i)
  case Nil
  then show ?case by simp
next
  case (Cons y ys)
  show ?case
  proof (cases i)
    case 0
    with Cons.prems show ?thesis by simp
  next
    case (Suc n)
    with Cons.prems have n: "n < length ys" "key x = key (ys ! n)" by simp_all
    moreover from n Cons.prems have "key (ys ! n) \<noteq> key y"
      by (metis distinct.simps(2) in_set_conv_nth length_map list.simps(9) nth_map)
    ultimately have n: "n < length ys" "key x = key (ys ! n)" "key (ys ! n) \<noteq> key y" by simp_all
    with Suc Cons.prems Cons.IH [of n] show ?thesis by auto
  qed
qed

lemma map_of_update_at:
  assumes "distinct (map key xs)" and "i < length xs" and "key x = key (xs ! i)"
  shows "map_of (map (\<lambda>x. (key x, val x)) (xs[i := x])) =
    (map_of (map (\<lambda>x. (key x, val x)) xs))(key x \<mapsto> val x)"
  by (rule ext) (simp only: map_of_update_at_apply [OF assms] fun_upd_apply)

lemma map_of_remove_at_apply:
  assumes "distinct (map key xs)" and "i < length xs"
  shows "map_of (map (\<lambda>x. (key x, val x)) (take i xs @ drop (Suc i) xs)) k =
    (if k = key (xs ! i) then None else map_of (map (\<lambda>x. (key x, val x)) xs) k)"
  using assms
proof (induction xs arbitrary: i)
  case Nil
  then show ?case by simp
next
  case (Cons y ys)
  show ?case
  proof (cases i)
    case 0
    with Cons.prems have "map_of (map (\<lambda>x. (key x, val x)) ys) (key y) = None"
      by (auto simp: map_of_eq_None_iff)
    with 0 show ?thesis by simp
  next
    case (Suc n)
    with Cons.prems have n: "n < length ys" by simp
    moreover from n Cons.prems have "key (ys ! n) \<noteq> key y"
      by (metis distinct.simps(2) in_set_conv_nth length_map list.simps(9) nth_map)
    ultimately have n: "n < length ys" "key (ys ! n) \<noteq> key y" by simp_all
    with Suc Cons.prems Cons.IH [of n] show ?thesis
      by (auto simp del: map_append map_of_append)
  qed
qed

lemma map_of_remove_at:
  assumes "distinct (map key xs)" and "i < length xs"
  shows "map_of (map (\<lambda>x. (key x, val x)) (take i xs @ drop (Suc i) xs)) =
    (map_of (map (\<lambda>x. (key x, val x)) xs))(key (xs ! i) := None)"
  by (rule ext) (simp only: map_of_remove_at_apply [OF assms] fun_upd_apply)

section \<open>Writes into arrays\<close>

definition blit :: "nat \<Rightarrow> 'a list \<Rightarrow> 'a list \<Rightarrow> 'a list" where
  \<comment> \<open>\<^verbatim>\<open>memcpy(ys + i, xs, length xs)\<close>\<close>
  "blit i xs ys = take i ys @ xs @ drop (i + length xs) ys"

definition slice :: "nat \<Rightarrow> nat \<Rightarrow> 'a list \<Rightarrow> 'a list" where
  "slice i n xs = take n (drop i xs)"

lemma length_blit [simp]: "i + length xs \<le> length ys \<Longrightarrow> length (blit i xs ys) = length ys"
  by (simp add: blit_def)

lemma length_slice [simp]: "length (slice i n xs) = min n (length xs - i)"
  by (simp add: slice_def)

lemma slice_blit_same: "i + length xs \<le> length ys \<Longrightarrow> slice i (length xs) (blit i xs ys) = xs"
  by (simp add: blit_def slice_def)

lemma slice_blit_other:
  "i + length xs \<le> length ys \<Longrightarrow> j + n \<le> i \<or> i + length xs \<le> j \<Longrightarrow> slice j n (blit i xs ys) = slice j n ys"
  by (auto simp: slice_def blit_def drop_append take_append drop_take min_def)

lemma slice_Cons: "i < length xs \<Longrightarrow> 0 < n \<Longrightarrow> slice i n xs = xs ! i # slice (Suc i) (n - 1) xs"
  by (cases n) (simp_all add: slice_def flip: Cons_nth_drop_Suc)

lemma nth_blit:
  assumes "i + length xs \<le> length ys" and "k < length ys"
  shows "blit i xs ys ! k = (if i \<le> k \<and> k < i + length xs then xs ! (k - i) else ys ! k)"
  using assms by (auto simp: blit_def nth_append min_def)

lemma blit_Nil [simp]: "blit i [] ys = ys"
  by (simp add: blit_def)

lemma blit_append:
  "i + length xs + length zs \<le> length ys \<Longrightarrow>
   blit (i + length xs) zs (blit i xs ys) = blit i (xs @ zs) ys"
  by (simp add: blit_def ac_simps)

lemma slice_split:
  "slice i (m + n) xs = slice i m xs @ slice (i + m) n xs"
  by (simp add: slice_def take_add add.commute)

section \<open>Little-endian views of words\<close>

fun to_le :: "nat \<Rightarrow> u64 \<Rightarrow> bytes" where
  "to_le 0 w = []"
| "to_le (Suc n) w = ucast w # to_le n (drop_bit 8 w)"

fun of_le :: "bytes \<Rightarrow> u64" where
  "of_le [] = 0"
| "of_le (b # bs) = ucast b OR push_bit 8 (of_le bs)"

lemma length_to_le [simp]: "length (to_le n w) = n"
  by (induction n arbitrary: w) auto

lemma of_le_to_le: "of_le (to_le n w) = take_bit (8 * n) w"
proof (induction n arbitrary: w)
  case 0
  show ?case by simp
next
  case (Suc n)
  show ?case
    by (rule bit_word_eqI)
      (auto simp: Suc bit_simps not_less dest: bit_imp_le_length)
qed

lemma of_le_to_le_8 [simp]: "of_le (to_le 8 w) = w"
  by (simp add: of_le_to_le take_bit_word_eq_self)

lemma to_le_of_le: "length bs \<le> 8 \<Longrightarrow> to_le (length bs) (of_le bs) = bs"
proof (induction bs)
  case Nil
  show ?case by simp
next
  case (Cons b bs)
  have hd: "(ucast (ucast b OR push_bit 8 (of_le bs)) :: u8) = b"
    by (rule bit_word_eqI) (auto simp: bit_simps)
  have high: "bit (of_le bs) n \<Longrightarrow> n < 8 * length bs" for n
  proof -
    have "to_le (length bs) (of_le bs) = bs" using Cons by simp
    then have "of_le bs = take_bit (8 * length bs) (of_le bs)"
      by (metis of_le_to_le)
    then show "bit (of_le bs) n \<Longrightarrow> n < 8 * length bs"
      by (metis bit_take_bit_iff)
  qed
  have tl: "drop_bit 8 (ucast b OR push_bit 8 (of_le bs)) = of_le bs"
  proof (rule bit_word_eqI)
    fix n assume "n < LENGTH(64)"
    show "bit (drop_bit 8 (ucast b OR push_bit 8 (of_le bs))) n = bit (of_le bs) n"
      using high [of n] Cons.prems
      by (auto simp: bit_simps dest: bit_imp_le_length)
  qed
  show ?case using Cons by (simp add: hd tl del: drop_bit_or)
qed

section \<open>C strings\<close>

definition c_string :: "bytes \<Rightarrow> bytes" where
  \<comment> \<open>the bytes before the first NUL: what \<^verbatim>\<open>strcmp\<close> and \<^verbatim>\<open>strlen\<close> see\<close>
  "c_string bs = takeWhile (\<lambda>b. b \<noteq> 0) bs"

definition strcmp_eq :: "bytes \<Rightarrow> bytes \<Rightarrow> bool" where
  "strcmp_eq a b \<longleftrightarrow> c_string a = c_string b"

section \<open>The operating system: pread and pwrite on the underlying device\<close>

text \<open>
  The underlying block device is a byte array. The operating system decides the outcome of
  every call: it may fail with an \<^verbatim>\<open>errno\<close> (\<^verbatim>\<open>EINTR\<close> among them) or transfer fewer bytes
  than asked for. The decisions for the next calls are listed in \<open>script\<close>; once the list is
  exhausted every call transfers all it can. A run therefore sees an arbitrary finite number
  of interruptions and short transfers. In the same way \<open>naps\<close> lists after how many nanoseconds
  a signal interrupts the next calls of \<^verbatim>\<open>nanosleep\<close>, and \<open>slept\<close> counts the nanoseconds slept.
\<close>

datatype outcome = Fail int | Upto nat

record world =
  disk :: bytes
  script :: "outcome list"
  naps :: "nat list"
  slept :: nat

definition transferable :: "outcome list \<Rightarrow> nat \<Rightarrow> nat" where
  "transferable s n = (case s of Upto k # _ \<Rightarrow> min k n | _ \<Rightarrow> n)"

definition sys_pread :: "world \<Rightarrow> nat \<Rightarrow> nat \<Rightarrow> (int + bytes) \<times> world" where
  "sys_pread w count off =
     (case script w of
        Fail e # s \<Rightarrow> (Inl e, w\<lparr>script := s\<rparr>)
      | s \<Rightarrow> (Inr (slice off (transferable s count) (disk w)), w\<lparr>script := tl s\<rparr>))"

definition sys_pwrite :: "world \<Rightarrow> bytes \<Rightarrow> nat \<Rightarrow> (int + nat) \<times> world" where
  "sys_pwrite w bs off =
     (case script w of
        Fail e # s \<Rightarrow> (Inl e, w\<lparr>script := s\<rparr>)
      | s \<Rightarrow>
          (let n = min (transferable s (length bs)) (length (disk w) - off)
           in (Inr n, w\<lparr>disk := blit off (take n bs) (disk w), script := tl s\<rparr>)))"

definition calm :: "world \<Rightarrow> bool" where
  \<comment> \<open>no call fails for another reason than \<^verbatim>\<open>EINTR\<close> (4), and no call transfers nothing\<close>
  "calm w \<longleftrightarrow> (\<forall>x \<in> set (script w). case x of Fail e \<Rightarrow> e = 4 | Upto k \<Rightarrow> 0 < k)"

lemma sys_pwrite_length:
  "sys_pwrite w bs off = (r, w') \<Longrightarrow> length (disk w') = length (disk w)"
  by (auto simp: sys_pwrite_def Let_def transferable_def blit_def
      split: list.splits outcome.splits)

lemma sys_pread_world [simp]:
  "disk (snd (sys_pread w n off)) = disk w" "slept (snd (sys_pread w n off)) = slept w"
  "naps (snd (sys_pread w n off)) = naps w"
  by (simp_all add: sys_pread_def split: list.splits outcome.splits)

lemma calm_pread:
  assumes "calm w" and "0 < n" and "off + n \<le> length (disk w)"
  obtains (interrupted) w' where "sys_pread w n off = (Inl 4, w')" "calm w'" "disk w' = disk w"
      "slept w' = slept w"
  | (some) m w' where "sys_pread w n off = (Inr (slice off m (disk w)), w')" "0 < m" "m \<le> n" "calm w'"
      "disk w' = disk w" "slept w' = slept w"
proof (cases "script w")
  case Nil
  with assms show ?thesis
    by (intro some [of n w]) (auto simp: sys_pread_def transferable_def calm_def)
next
  case (Cons x s)
  show ?thesis
  proof (cases x)
    case (Fail e)
    with Cons assms(1) show ?thesis
      by (intro interrupted [of "w\<lparr>script := s\<rparr>"]) (auto simp: sys_pread_def calm_def)
  next
    case (Upto k)
    with Cons assms show ?thesis
      by (intro some [of "min k n" "w\<lparr>script := s\<rparr>"]) (auto simp: sys_pread_def transferable_def calm_def)
  qed
qed

lemma calm_pwrite:
  assumes "calm w" and "bs \<noteq> []" and "off + length bs \<le> length (disk w)"
  obtains (interrupted) w' where "sys_pwrite w bs off = (Inl 4, w')" "calm w'" "disk w' = disk w"
      "slept w' = slept w"
  | (some) m w' where "sys_pwrite w bs off = (Inr m, w')" "0 < m" "m \<le> length bs" "calm w'"
      "disk w' = blit off (take m bs) (disk w)" "slept w' = slept w"
proof (cases "script w")
  case Nil
  with assms show ?thesis
    by (intro some [of "length bs" "w\<lparr>disk := blit off bs (disk w)\<rparr>"])
      (auto simp: sys_pwrite_def transferable_def calm_def)
next
  case (Cons x s)
  show ?thesis
  proof (cases x)
    case (Fail e)
    with Cons assms(1) show ?thesis
      by (intro interrupted [of "w\<lparr>script := s\<rparr>"]) (auto simp: sys_pwrite_def calm_def)
  next
    case (Upto k)
    with Cons assms show ?thesis
      by (intro some [of "min k (length bs)" "w\<lparr>disk := blit off (take (min k (length bs)) bs) (disk w), script := s\<rparr>"])
        (auto simp: sys_pwrite_def transferable_def calm_def Let_def)
  qed
qed

end
