(* ===== verification/Dedis_Conf.thy ===== *)
theory Dedis_Conf
  imports Achilles_Prelude
begin

text \<open>
  \<^verbatim>\<open>dedisbench/structs/defines.h\<close> and \<^verbatim>\<open>dedisbench/utils\<close>: the configuration and the
  statistics the parts of the benchmark share, the random numbers and the small numeric
  helpers. Paths are strings. The database handles are not fields of the model (the
  databases are maps in the states of their users), the rates are the numbers that were entered,
  and of the statistics the sums of latencies are kept in microseconds; the floating-point
  quotients that are printed from them are not modelled.
\<close>

abbreviation IO_READ :: int where "IO_READ \<equiv> 0"
abbreviation IO_WRITE :: int where "IO_WRITE \<equiv> 1"
abbreviation NOMINAL :: int where "NOMINAL \<equiv> 2"
abbreviation PEAK :: int where "PEAK \<equiv> 3"
abbreviation TIME :: int where "TIME \<equiv> 4"
abbreviation SIZE :: int where "SIZE \<equiv> 5"
abbreviation SEQUENTIAL :: int where "SEQUENTIAL \<equiv> 6"
abbreviation UNIFORM :: int where "UNIFORM \<equiv> 7"
abbreviation TPCC :: int where "TPCC \<equiv> 8"
abbreviation NOPOP :: int where "NOPOP \<equiv> 0"
abbreviation REPOP :: int where "REPOP \<equiv> 1"
abbreviation DDPOP :: int where "DDPOP \<equiv> 2"

record fault_conf =
  fc_mode :: int
  fc_measure :: int
  fc_when :: u64
  fc_dist :: int
  fc_type :: int
  fc_persistent :: bool
  fc_proc_id :: int
  fc_operation :: int
  fc_extra_type :: int
  fc_extra :: "u32 option"  \<comment> \<open>None is a null pointer\<close>

record user_confs =
  block_size :: u64
  totblocks :: u64
  start_at :: int
  finish_at :: int
  tempfilespath :: string
  printfile :: string
  destroypfile :: int
  printtofile :: int
  logfeature :: int
  accesslog :: int
  accesstype :: int
  accessfilelog :: string
  distout :: int
  iotype :: int
  mixedIO :: int
  rawdevice :: int
  rawpath :: string
  testtype :: int
  ratio :: int  \<comment> \<open>rates in operations per second, as they are entered\<close>
  ratiow :: int
  ratior :: int
  time_to_run :: int
  number_ops :: u64
  nprocs :: int
  filesize :: u64
  seed :: u64
  populate_kind :: int
  distfile :: string
  distf :: int
  outputfile :: string
  fsyncf :: int
  odirectf :: int
  integrity :: int
  integrityfile :: string
  nr_proc_w :: u64
  usingfaults :: int
  faultsconfigfile :: string
  outputfaults :: int
  faultsoutputfile :: string
  outputoffsets :: int
  offsetsoutputfile :: string
  outputdedup :: int
  dedupoutputfile :: string
  fconf :: "fault_conf list"
  nr_faults :: int
  fault_measure :: int

record stats =
  snap_totops :: u64
  iter_snap :: int
  last_snap_time :: u64
  t1snap :: u64
  snap_lat :: u64
  latency :: u64
  tot_ops :: u64
  beginio :: u64
  endio :: u64
  misses_read :: u64
  uni :: u64
  dupl :: u64
  zerod :: u64

definition initial_conf :: "u64 \<Rightarrow> user_confs" where
  \<comment> \<open>the configuration \<^verbatim>\<open>main\<close> starts from; the fields without initialiser are zero\<close>
  "initial_conf now =
     \<lparr>block_size = 4096, totblocks = 0, start_at = 0, finish_at = 0, tempfilespath = [], printfile = [],
      destroypfile = 1, printtofile = 0, logfeature = 0, accesslog = 0, accesstype = TPCC, accessfilelog = [],
      distout = 0, iotype = -1, mixedIO = 0, rawdevice = 0, rawpath = [], testtype = -1, ratio = -1, ratiow = -1,
      ratior = -1, time_to_run = 0, number_ops = 0, nprocs = 4, filesize = 2048, seed = now, populate_kind = -1,
      distfile = [], distf = 0, outputfile = [], fsyncf = 0, odirectf = 0, integrity = 0, integrityfile = [],
      nr_proc_w = 0, usingfaults = 0, faultsconfigfile = [], outputfaults = 0, faultsoutputfile = [],
      outputoffsets = 0, offsetsoutputfile = [], outputdedup = 0, dedupoutputfile = [], fconf = [],
      nr_faults = 0, fault_measure = 0\<rparr>"

definition initial_stats :: stats where
  \<comment> \<open>the statistics \<^verbatim>\<open>process_run\<close> starts from\<close>
  "initial_stats = \<lparr>snap_totops = 0, iter_snap = 0, last_snap_time = 0, t1snap = 0, snap_lat = 0, latency = 0,
     tot_ops = 0, beginio = -1, endio = 0, misses_read = 0, uni = 0, dupl = 0, zerod = 0\<rparr>"

section \<open>Calls that may not return\<close>

text \<open>
  A call that may loop for ever has a value of type \<open>'a res option\<close>; None means that it does
  not return.
\<close>

definition obind :: "'a res option \<Rightarrow> ('a \<Rightarrow> 'b res option) \<Rightarrow> 'b res option" where
  "obind m f = (case m of None \<Rightarrow> None | Some (Inl e) \<Rightarrow> Some (Inl e) | Some (Inr x) \<Rightarrow> f x)"

lemma obind_simps [simp]:
  "obind None f = None" "obind (Some (Inl e)) f = Some (Inl e)" "obind (Some (Inr x)) f = f x"
  by (simp_all add: obind_def)

section \<open>Random numbers\<close>

text \<open>
  A generator is a source of 32-bit and 64-bit numbers over a state of its own; a 64-bit number may be
  refused. The generator of the benchmark is the one of theory \<open>Sfmt\<close>.
\<close>

record 's rng =
  gen_rand32 :: "'s \<Rightarrow> u32 \<times> 's"
  gen_rand64 :: "'s \<Rightarrow> (u64 \<times> 's) res"

partial_function (option) genrand_loop :: "'s rng \<Rightarrow> 's \<Rightarrow> u64 \<Rightarrow> u64 \<Rightarrow> (u64 \<times> 's) res option" where
  "genrand_loop g s t mx =
     (if t \<ge> (2 ^ 63 - 1) div mx * mx
      then (case gen_rand64 g s of Inl e \<Rightarrow> Some (Inl e) | Inr (t', s') \<Rightarrow> genrand_loop g s' t' mx)
      else Some (Inr (t mod mx, s)))"

definition genrand :: "'s rng \<Rightarrow> 's \<Rightarrow> u64 \<Rightarrow> (u64 \<times> 's) res option" where
  "genrand g s mx =
     (case gen_rand32 g s of (t, s') \<Rightarrow>
        if mx = 0 then Some (Inl Div_By_Zero) else genrand_loop g s' (ucast t) mx)"

lemma genrand_bound:
  fixes mx :: u64
  assumes "0 < mx" and "mx < 2 ^ 63"
  shows "(ucast (t :: u32) :: u64) < (2 ^ 63 - 1) div mx * mx"
proof -
  let ?M = "2 ^ 63 - 1 :: nat"
  have m: "0 < unat mx" "unat mx < 2 ^ 63"
    using assms by (simp_all add: word_less_nat_alt)
  have M: "unat (2 ^ 63 - 1 :: u64) = ?M" by simp
  have le: "?M div unat mx * unat mx \<le> ?M" by (rule div_times_less_eq_dividend)
  have prod: "unat ((2 ^ 63 - 1 :: u64) div mx * mx) = ?M div unat mx * unat mx"
  proof (subst unat_mult_small)
    show "unat ((2 ^ 63 - 1 :: u64) div mx) * unat mx < 2 ^ LENGTH(64)"
      using order_le_less_trans [OF le, of "2 ^ LENGTH(64)"] by (simp add: unat_div_distrib)
    show "unat ((2 ^ 63 - 1 :: u64) div mx) * unat mx = ?M div unat mx * unat mx"
      by (simp add: unat_div_distrib)
  qed
  have "2 ^ 32 \<le> ?M div unat mx * unat mx"
  proof (cases "unat mx \<le> 2 ^ 32")
    case True
    have "?M < ?M div unat mx * unat mx + unat mx"
      using m(1) by (metis add.commute dividend_less_div_times)
    with True show ?thesis by simp
  next
    case False
    have "1 \<le> ?M div unat mx" using m by (simp add: div_greater_zero_iff Suc_le_eq)
    then have "unat mx \<le> ?M div unat mx * unat mx" by simp
    with False show ?thesis by linarith
  qed
  moreover have "unat (ucast t :: u64) < 2 ^ 32"
    using unat_less [of t] by (simp add: unsigned_ucast_eq take_bit_nat_eq_self)
  ultimately show ?thesis unfolding word_less_nat_alt prod by linarith
qed

lemma genrand_loop_big:
  assumes "2 ^ 63 \<le> mx"
  shows "genrand_loop g s t mx \<noteq> Some (Inr y)"
proof
  assume y: "genrand_loop g s t mx = Some (Inr y)"
  have "(2 ^ 63 - 1) div mx = 0" using assms by (simp add: div_word_less word_less_nat_alt word_le_nat_alt)
  moreover have "\<forall>y'. Inr y = (Inr y' :: (u64 \<times> _) res) \<longrightarrow> (2 ^ 63 - 1) div mx \<noteq> 0"
    by (rule genrand_loop.raw_induct [where P = "\<lambda>g s t mx y. \<forall>y'. y = Inr y' \<longrightarrow> (2 ^ 63 - 1) div mx \<noteq> 0", OF _ y])
      (auto split: prod.splits sum.splits if_splits)
  ultimately show False by simp
qed

lemma genrand_draw:
  "genrand g s mx =
     (if mx = 0 then Some (Inl Div_By_Zero)
      else if mx < 2 ^ 63
      then Some (Inr (ucast (fst (gen_rand32 g s)) mod mx, snd (gen_rand32 g s)))
      else genrand_loop g (snd (gen_rand32 g s)) (ucast (fst (gen_rand32 g s))) mx)"
proof (cases "mx = 0 \<or> \<not> mx < 2 ^ 63")
  case True
  then show ?thesis by (auto simp: genrand_def split: prod.split)
next
  case False
  then have "0 < mx" "mx < 2 ^ 63" by (auto simp: word_gt_0)
  note genrand_bound [OF this, of "fst (gen_rand32 g s)"]
  then have "genrand_loop g (snd (gen_rand32 g s)) (ucast (fst (gen_rand32 g s))) mx =
      Some (Inr (ucast (fst (gen_rand32 g s)) mod mx, snd (gen_rand32 g s)))"
    by (subst genrand_loop.simps) (simp add: not_le [symmetric])
  with False show ?thesis by (auto simp: genrand_def split: prod.split)
qed


section \<open>Numeric helpers\<close>

function powr_loop :: "int \<Rightarrow> int \<Rightarrow> int \<Rightarrow> int" where
  "powr_loop result base exp =
     (if exp \<noteq> 0
      then powr_loop (if exp AND 1 \<noteq> 0 then result * base else result) (base * base) (exp sdiv 2)
      else result)"
  by pat_completeness auto

lemma sdiv_2_smaller: "(n :: int) \<noteq> 0 \<Longrightarrow> \<bar>n sdiv 2\<bar> < \<bar>n\<bar>"
  by (cases "0 \<le> n") (auto simp: signed_divide_int_def sgn_if)

termination powr_loop
  by (relation "measure (\<lambda>(result, base, exp). nat \<bar>exp\<bar>)")
    (auto simp: nat_less_eq_zless sdiv_2_smaller simp del: abs_of_nonneg)

declare powr_loop.simps [simp del]

definition powr :: "int \<Rightarrow> int \<Rightarrow> int" where
  \<comment> \<open>\<^verbatim>\<open>int\<close> arithmetic without overflow\<close>
  "powr base exp = powr_loop 1 base exp"

lemma powr_loop_power: "powr_loop result base (int n) = result * base ^ n"
proof (induction n arbitrary: result base rule: less_induct)
  case (less n)
  show ?case
  proof (cases "n = 0")
    case True
    then show ?thesis by (simp add: powr_loop.simps)
  next
    case False
    have half: "int n sdiv 2 = int (n div 2)" by (rule sdiv_nat_numeral)
    have bit: "int n AND 1 \<noteq> 0 \<longleftrightarrow> odd n" by (simp add: and_one_eq) presburger
    have pw: "base ^ n = (if odd n then base else 1) * (base * base) ^ (n div 2)"
      by (cases "odd n") (auto elim!: oddE evenE simp: power_mult power2_eq_square)
    show ?thesis
      using False less(1) [of "n div 2" _ "base * base"]
      by (simp add: powr_loop.simps [of result] half bit pw mult.assoc)
  qed
qed

lemma powr_power: "0 \<le> exp \<Longrightarrow> powr base exp = base ^ nat exp"
  using powr_loop_power [of 1 base "nat exp"] by (simp add: powr_def)

function order_of_magnitude :: "u64 \<Rightarrow> nat" where
  "order_of_magnitude key = (if key \<noteq> 0 then Suc (order_of_magnitude (key div 10)) else 0)"
  by pat_completeness auto
termination
  by (relation "measure unat") (auto simp: unat_div_distrib word_gt_0 unat_gt_0 intro!: div_less_dividend)

declare order_of_magnitude.simps [simp del]

lemma order_of_magnitude_digits:
  "unat key < 10 ^ order_of_magnitude key \<and> (key \<noteq> 0 \<longrightarrow> 10 ^ (order_of_magnitude key - 1) \<le> unat key)"
proof (induction key rule: order_of_magnitude.induct)
  case (1 key)
  show ?case
  proof (cases "key = 0")
    case True
    then show ?thesis by (simp add: order_of_magnitude.simps)
  next
    case False
    let ?n = "order_of_magnitude (key div 10)"
    have IH: "unat key div 10 < 10 ^ ?n" "key div 10 \<noteq> 0 \<longrightarrow> 10 ^ (?n - 1) \<le> unat key div 10"
      using 1 [OF False] by (simp_all add: unat_div_distrib)
    have "unat key < 10 ^ Suc ?n" using IH(1) by (simp add: div_less_iff_less_mult mult.commute)
    moreover have "10 ^ ?n \<le> unat key"
    proof (cases "key div 10 = 0")
      case True
      then show ?thesis using False by (simp add: order_of_magnitude.simps unat_gt_0 Suc_le_eq)
    next
      case nz: False
      then have "0 < ?n" by (simp add: order_of_magnitude.simps)
      then have "(10 :: nat) ^ ?n = 10 * 10 ^ (?n - 1)" by (simp add: power_eq_if)
      also have "\<dots> \<le> unat key" using IH(2) nz div_times_less_eq_dividend [of "unat key" 10] by linarith
      finally show ?thesis .
    qed
    ultimately show ?thesis using False by (simp add: order_of_magnitude.simps [of key])
  qed
qed

end
