(* ===== verification/C_Text.thy ===== *)
theory C_Text
  imports Achilles_Prelude
begin

text \<open>
  The text functions of the C library that the benchmark uses: decimal output of \<^verbatim>\<open>printf\<close>,
  \<^verbatim>\<open>atoll\<close> and \<^verbatim>\<open>atoi\<close>, \<^verbatim>\<open>fgets\<close> on a buffer of 50 bytes, and \<^verbatim>\<open>strtok\<close> with one delimiter.
\<close>

abbreviation NUL :: char where "NUL \<equiv> CHR 0x00"
abbreviation NEWLINE :: char where "NEWLINE \<equiv> CHR 0x0A"
abbreviation BLANK :: char where "BLANK \<equiv> CHR '' ''"

section \<open>Decimal numbers\<close>

definition digit :: "nat \<Rightarrow> char" where
  "digit d = char_of (48 + d)"

definition digit_val :: "char \<Rightarrow> nat" where
  "digit_val c = of_char c - 48"

definition is_digit :: "char \<Rightarrow> bool" where
  "is_digit c \<longleftrightarrow> 48 \<le> (of_char c :: nat) \<and> (of_char c :: nat) \<le> 57"

fun show_nat :: "nat \<Rightarrow> string" where
  "show_nat n = (if n < 10 then [digit n] else show_nat (n div 10) @ [digit (n mod 10)])"

declare show_nat.simps [simp del]

definition show_int :: "int \<Rightarrow> string" where
  "show_int i = (if i < 0 then CHR ''-'' # show_nat (nat (- i)) else show_nat (nat i))"

definition read_digits :: "string \<Rightarrow> nat" where
  "read_digits s = foldl (\<lambda>n c. 10 * n + digit_val c) 0 (takeWhile is_digit s)"

definition is_space :: "char \<Rightarrow> bool" where
  "is_space c \<longleftrightarrow> c = BLANK \<or> 9 \<le> (of_char c :: nat) \<and> (of_char c :: nat) \<le> 13"

definition strtol :: "nat \<Rightarrow> string \<Rightarrow> int" where
  \<comment> \<open>decimal, saturating at the limits of a signed integer of \<open>n\<close> bits\<close>
  "strtol n s =
     (let t = dropWhile is_space s;
          v = (case t of
                 [] \<Rightarrow> 0
               | c # cs \<Rightarrow> if c = CHR ''-'' then - int (read_digits cs)
                           else if c = CHR ''+'' then int (read_digits cs)
                           else int (read_digits t))
      in max (- (2 ^ (n - 1))) (min (2 ^ (n - 1) - 1) v))"

definition atoll :: "string \<Rightarrow> int" where
  "atoll s = strtol 64 s"

definition atoi :: "string \<Rightarrow> int" where
  \<comment> \<open>the \<^verbatim>\<open>long\<close> of \<^verbatim>\<open>strtol\<close>, converted to an \<^verbatim>\<open>int\<close>\<close>
  "atoi s = sint (word_of_int (strtol 64 s) :: 32 word)"

lemma digit_char:
  assumes "d < 10"
  shows "of_char (digit d) = 48 + d" and "is_digit (digit d)" and "digit_val (digit d) = d"
proof -
  show "of_char (digit d) = 48 + d" using assms by (simp add: digit_def)
  then show "is_digit (digit d)" "digit_val (digit d) = d" using assms by (simp_all add: is_digit_def digit_val_def)
qed

lemma show_nat_digits: "\<forall>c \<in> set (show_nat n). is_digit c"
proof (induction n rule: show_nat.induct)
  case (1 n)
  then show ?case by (subst show_nat.simps) (auto simp: digit_char)
qed

lemma show_nat_ne [simp]: "show_nat n \<noteq> []"
  by (subst show_nat.simps) simp

lemma read_show_nat: "foldl (\<lambda>n c. 10 * n + digit_val c) 0 (show_nat n) = n"
proof (induction n rule: show_nat.induct)
  case (1 n)
  then show ?case by (subst show_nat.simps) (auto simp: digit_char)
qed

lemma read_digits_show: "read_digits (show_nat n) = n"
  using show_nat_digits [of n] by (simp add: read_digits_def takeWhile_eq_all_conv [THEN iffD2] read_show_nat)

lemma digit_not_special:
  "is_digit c \<Longrightarrow> \<not> is_space c \<and> c \<noteq> CHR ''-'' \<and> c \<noteq> CHR ''+'' \<and> c \<noteq> BLANK \<and> c \<noteq> NUL"
  by (auto simp: is_digit_def is_space_def)

lemma strtol_show_nat:
  assumes "n < 2 ^ (k - 1)"
  shows "strtol k (show_nat n) = int n"
proof -
  obtain c cs where s: "show_nat n = c # cs" by (cases "show_nat n") simp_all
  have "is_digit c" using show_nat_digits [of n] s by simp
  then have "dropWhile is_space (show_nat n) = c # cs" "c \<noteq> CHR ''-''" "c \<noteq> CHR ''+''"
    using digit_not_special s by auto
  then have "strtol k (show_nat n) = max (- (2 ^ (k - 1))) (min (2 ^ (k - 1) - 1) (int n))"
    using read_digits_show [of n] by (simp add: strtol_def s Let_def)
  moreover have "int n < int (2 ^ (k - 1))" using assms by (simp only: of_nat_less_iff)
  then have "int n \<le> 2 ^ (k - 1) - 1" by simp
  moreover have "- (2 ^ (k - 1)) \<le> int n" by (rule order_trans [of _ 0]) simp_all
  ultimately show ?thesis by linarith
qed

lemma length_show_nat: "n < 10 ^ k \<Longrightarrow> 0 < k \<Longrightarrow> length (show_nat n) \<le> k"
proof (induction n arbitrary: k rule: show_nat.induct)
  case (1 n)
  show ?case
  proof (cases "n < 10")
    case True
    then show ?thesis using 1(3) by (subst show_nat.simps) simp
  next
    case False
    then obtain j where j: "k = Suc j" "0 < j" using 1(2,3) by (cases k; cases "k - 1") auto
    have "n div 10 < 10 ^ j" using 1(2) j by (simp add: div_less_iff_less_mult mult.commute)
    with 1(1) [OF False, of j] j False show ?thesis by (subst show_nat.simps) simp
  qed
qed

section \<open>Lines and tokens\<close>

definition fgets :: "nat \<Rightarrow> string \<Rightarrow> string \<times> string" where
  \<comment> \<open>at most \<open>n - 1\<close> characters, up to and including the newline; what is left\<close>
  "fgets n s = (let l = min (n - 1) (Suc (length (takeWhile (\<lambda>c. c \<noteq> NEWLINE) s))) in (take l s, drop l s))"

lemma fgets_shorter: "s \<noteq> [] \<Longrightarrow> 1 < n \<Longrightarrow> length (snd (fgets n s)) < length s"
  by (auto simp: fgets_def Let_def)

fun strtok_on :: "char \<Rightarrow> string \<Rightarrow> string list" where
  \<comment> \<open>the tokens of a string that repeated calls of \<^verbatim>\<open>strtok\<close> with one delimiter return\<close>
  "strtok_on d [] = []"
| "strtok_on d (c # cs) =
     (if c = d then strtok_on d cs
      else case cs of
        [] \<Rightarrow> [[c]]
      | e # es \<Rightarrow> if e = d then [c] # strtok_on d es
                  else (case strtok_on d cs of t # ts \<Rightarrow> (c # t) # ts | [] \<Rightarrow> [[c]]))"

abbreviation strtok_all :: "string \<Rightarrow> string list" where
  "strtok_all \<equiv> strtok_on BLANK"

lemma strtok_all_token:
  assumes "w \<noteq> []" and "d \<notin> set w"
  shows "strtok_on d (w @ d # s) = w # strtok_on d s"
  using assms
proof (induction w)
  case Nil
  then show ?case by simp
next
  case (Cons c w)
  then show ?case by (cases w) auto
qed

end
