(* ===== verification/Dedis_Duplicates.thy ===== *)
theory Dedis_Duplicates
  imports Dedis_Conf C_Text
begin

text \<open>
  \<^verbatim>\<open>dedisbench/benchcore/duplicates/duplicatedist.c\<close>: the duplicate distribution. A file lists
  how many blocks have how many duplicates; the benchmark loads it into \<^verbatim>\<open>stats\<close>, accumulates it
  into \<^verbatim>\<open>sum\<close>, draws contents by binary search and generates and checks the bytes of blocks.
\<close>

section \<open>Data\<close>

record block_info =
  cont_id :: u64
  procid :: int
  ts :: u64

record duplicates_info =
  duplicated_blocks :: u64
  total_blocks :: u64
  di_stats :: "u64 list"
  di_sum :: "u64 list"
  di_statistics :: "u64 list"
  zerodups :: u64
  zero_copy_blocks :: u64
  u_count :: u64
  content_tracker :: "block_info list list"
  topblock :: u64
  botblock :: u64
  topblock_dups :: u64
  botblock_dups :: u64
  last_unique_block :: block_info
  last_block_written :: block_info

section \<open>Loading the distribution\<close>

fun scan_to :: "char \<Rightarrow> nat \<Rightarrow> string \<Rightarrow> (string \<times> string) res" where
  \<comment> \<open>copy characters up to a separator into an array with \<open>n\<close> free places, the terminating NUL
     included; reading past the line buffer or writing past the array is out of bounds\<close>
  "scan_to c n [] = Inl Out_Of_Bounds"
| "scan_to c n (x # xs) =
     (if n = 0 then Inl Out_Of_Bounds
      else if x = c then Inr ([], xs)
      else rbind (scan_to c (n - 1) xs) (\<lambda>(a, b). Inr (x # a, b)))"

definition parse_line :: "string \<Rightarrow> (u64 \<times> u64) res" where
  \<comment> \<open>number of occurrences and number of blocks; the buffer \<open>line\<close> has 50 bytes\<close>
  "parse_line line =
     rbind (scan_to BLANK 20 line) (\<lambda>(dup, rest).
     rbind (scan_to NEWLINE 20 rest) (\<lambda>(nblocks, _).
       Inr (word_of_int (atoll dup) + 1, word_of_int (atoll nblocks))))"

function read_lines :: "(u64 \<Rightarrow> u64 \<Rightarrow> 'a \<Rightarrow> 'a res) \<Rightarrow> string \<Rightarrow> string \<Rightarrow> 'a \<Rightarrow> 'a res" where
  \<comment> \<open>the loop \<^verbatim>\<open>while(fgets(line, sizeof(line), fp))\<close> over the rest of the file\<close>
  "read_lines step line file st =
     (if file = [] then Inr st
      else let got = fst (fgets 50 file); line' = blit 0 (got @ [NUL]) line in
        rbind (parse_line line') (\<lambda>(dn, nb).
        rbind (step dn nb st) (\<lambda>st'. read_lines step line' (snd (fgets 50 file)) st')))"
  by pat_completeness auto
termination
  by (relation "measure (\<lambda>(step, line, file, st). length file)") (auto intro: fgets_shorter)

declare read_lines.simps [simp del]

definition stats_step :: "u64 \<Rightarrow> u64 \<Rightarrow> duplicates_info \<Rightarrow> duplicates_info res" where
  "stats_step dn nb info =
     (let info1 = (if dn = 1 then info\<lparr>zero_copy_blocks := nb\<rparr>
                   else info\<lparr>duplicated_blocks := duplicated_blocks info + nb\<rparr>)
      in Inr (info1\<lparr>total_blocks := total_blocks info + nb * dn\<rparr>))"

definition get_distribution_stats :: "duplicates_info \<Rightarrow> string option \<Rightarrow> duplicates_info res" where
  \<comment> \<open>the contents of the file, if it can be opened\<close>
  "get_distribution_stats info fname =
     (case fname of
        None \<Rightarrow> Inl (Exit 0)
      | Some file \<Rightarrow>
          rbind (read_lines stats_step (replicate 50 NUL) file info) (\<lambda>info'.
            Inr (info'\<lparr>u_count := duplicated_blocks info' + 1\<rparr>)))"

fun store_run :: "nat \<Rightarrow> u64 \<Rightarrow> nat \<times> u64 list \<Rightarrow> (nat \<times> u64 list) res" where
  \<comment> \<open>the loop \<^verbatim>\<open>while(nb>0)\<close>\<close>
  "store_run 0 dn (statscont, st) = Inr (statscont, st)"
| "store_run (Suc nb) dn (statscont, st) =
     (if statscont < length st then store_run nb dn (Suc statscont, st[statscont := dn])
      else Inl Out_Of_Bounds)"

definition load_step :: "u64 \<Rightarrow> u64 \<Rightarrow> nat \<times> u64 list \<Rightarrow> (nat \<times> u64 list) res" where
  "load_step dn nb st = (if dn > 1 then store_run (unat nb) dn st else Inr st)"

definition load_duplicates :: "duplicates_info \<Rightarrow> string option \<Rightarrow> duplicates_info res" where
  "load_duplicates info fname =
     (case fname of
        None \<Rightarrow> Inl (Exit 0)
      | Some file \<Rightarrow>
          rbind (read_lines load_step (replicate 50 NUL) file (0, di_stats info)) (\<lambda>(_, st).
            Inr (info\<lparr>di_stats := st\<rparr>)))"

fun cumulate :: "nat \<Rightarrow> nat \<Rightarrow> int \<Rightarrow> duplicates_info \<Rightarrow> duplicates_info res" where
  \<comment> \<open>the loop for \<open>n\<close> more entries from index \<open>i\<close> on\<close>
  "cumulate 0 i dist_out info = Inr info"
| "cumulate (Suc n) i dist_out info =
     (if i < length (di_sum info) \<and> i < length (di_stats info) \<and>
         (dist_out = 1 \<longrightarrow> i < length (di_statistics info))
      then let info1 = info\<lparr>di_sum := (di_sum info)[i := di_sum info ! (i - 1) + di_stats info ! i]\<rparr>;
               info2 = (if dist_out = 1 then info1\<lparr>di_statistics := (di_statistics info1)[i := 0]\<rparr> else info1)
           in cumulate n (Suc i) dist_out info2
      else Inl Out_Of_Bounds)"

definition load_cumulativedist :: "duplicates_info \<Rightarrow> int \<Rightarrow> duplicates_info res" where
  "load_cumulativedist info dist_out =
     (if di_sum info = [] \<or> di_stats info = [] then Inl Out_Of_Bounds
      else cumulate (unat (duplicated_blocks info) - 1) 1 dist_out
             (info\<lparr>di_sum := (di_sum info)[0 := di_stats info ! 0]\<rparr>))"

section \<open>Drawing contents\<close>

function search :: "u64 list \<Rightarrow> u64 \<Rightarrow> int \<Rightarrow> int \<Rightarrow> u64 \<Rightarrow> u64 res" where
  \<comment> \<open>\<open>res\<close> is the variable the last argument of the C function points to\<close>
  "search acc v low high res =
     (if high < low then Inr res
      else let mid = low + (high - low) div 2 in
        if mid < 0 \<or> length acc \<le> nat mid then Inl Out_Of_Bounds
        else if acc ! nat mid > v then search acc v low (mid - 1) (word_of_int mid)
        else if acc ! nat mid < v then search acc v (mid + 1) high res
        else Inr (word_of_int (mid + 1)))"
  by pat_completeness auto
termination
  by (relation "measure (\<lambda>(acc, v, low, high, res). nat (high - low + 1))") auto

declare search.simps [simp del]

definition content_for :: "duplicates_info \<Rightarrow> u64 \<Rightarrow> (u64 \<times> duplicates_info) res" where
  \<comment> \<open>the body of \<^verbatim>\<open>get_contentid\<close> after the random number \<open>r\<close> has been drawn\<close>
  "content_for info r =
     (if duplicated_blocks info \<noteq> 0 \<and> length (di_sum info) < unat (duplicated_blocks info) then Inl Out_Of_Bounds
      else if duplicated_blocks info \<le> 0 \<or> r \<ge> di_sum info ! (unat (duplicated_blocks info) - 1)
      then Inr (u_count info, info\<lparr>u_count := u_count info + 1\<rparr>)
      else rbind (search (di_sum info) r 0 (int (unat (duplicated_blocks info)) - 1) 0) (\<lambda>res.
             Inr (res, info)))"

definition get_contentid :: "'s rng \<Rightarrow> 's \<Rightarrow> duplicates_info \<Rightarrow> (u64 \<times> duplicates_info \<times> 's) res option" where
  "get_contentid g s info =
     obind (genrand g s (total_blocks info)) (\<lambda>(r, s').
       Some (map_sum id (\<lambda>(c, info'). (c, info', s')) (content_for info r)))"

section \<open>Generating and checking blocks\<close>

definition show_u64 :: "u64 \<Rightarrow> string" where
  "show_u64 w = show_nat (unat w)"

definition block_header :: "block_info \<Rightarrow> string" where
  \<comment> \<open>the text that \<^verbatim>\<open>sprintf\<close> prints\<close>
  "block_header b =
     (if procid b \<noteq> -1
      then show_u64 (cont_id b) @ '' pid '' @ show_int (procid b) @ '' time '' @ show_u64 (ts b) @ '' ''
      else show_u64 (cont_id b) @ '' '')"

definition sprintf_at :: "string \<Rightarrow> string \<Rightarrow> string res" where
  \<comment> \<open>the text and a NUL are stored at the beginning of the buffer\<close>
  "sprintf_at buf text = (if length text < length buf then Inr (blit 0 (text @ [NUL]) buf) else Inl Out_Of_Bounds)"

definition get_block_content :: "block_info \<Rightarrow> nat \<Rightarrow> string res" where
  "get_block_content infowrite bsize = sprintf_at (replicate bsize (CHR ''a'')) (block_header infowrite)"

definition get_block_header :: "string \<Rightarrow> block_info \<Rightarrow> string res" where
  "get_block_header bufaux infowrite = sprintf_at bufaux (block_header infowrite)"

record check_state =
  ck_contwrites :: "u64 option"
  ck_pids :: int
  ck_times :: "u64 option"

fun check_tokens :: "string list \<Rightarrow> check_state \<Rightarrow> check_state res" where
  \<comment> \<open>the loop of \<^verbatim>\<open>check_block_content\<close>; the head of the list is \<^verbatim>\<open>token\<close>\<close>
  "check_tokens [] st = Inr st"
| "check_tokens (token # tokens) st =
     (let st1 = (if ck_contwrites st = None then st\<lparr>ck_contwrites := Some (word_of_int (atoll token))\<rparr> else st) in
      if ck_pids st1 < 0 \<and> token = ''pid''
      then (case tokens of
              [] \<Rightarrow> Inl Wild_Pointer
            | t # _ \<Rightarrow> check_tokens tokens (st1\<lparr>ck_pids := atoi t\<rparr>))
      else if ck_times st1 = None \<and> token = ''time''
      then (case tokens of
              [] \<Rightarrow> Inl Wild_Pointer
            | t # _ \<Rightarrow> check_tokens tokens (st1\<lparr>ck_times := Some (word_of_int (atoll t))\<rparr>))
      else check_tokens tokens st1)"

definition check_block_content :: "string \<Rightarrow> int res" where
  \<comment> \<open>0 when the block is what its own header says; \<open>buf\<close> has the block size\<close>
  "check_block_content buf =
     (if NUL \<notin> set buf then Inl Out_Of_Bounds
      else rbind (check_tokens (strtok_all (takeWhile (\<lambda>c. c \<noteq> NUL) buf))
                    \<lparr>ck_contwrites = None, ck_pids = -1, ck_times = None\<rparr>) (\<lambda>st.
        case ck_contwrites st of
          None \<Rightarrow> Inr (-1)
        | Some c \<Rightarrow>
            let text = (case ck_times st of
                          Some t \<Rightarrow> if ck_pids st \<ge> 0
                            then show_u64 c @ '' pid '' @ show_int (ck_pids st) @ '' time '' @ show_u64 t @ '' ''
                            else show_u64 c @ '' ''
                        | None \<Rightarrow> show_u64 c @ '' '')
            in rbind (sprintf_at (replicate (length buf) (CHR ''a'')) text) (\<lambda>bufaux.
                 Inr (if buf = bufaux then 0 else 1))))"

datatype integrity_line =
    Mismatch_Well_Built u64  \<comment> \<open>the three lines on a mismatch with well-built contents\<close>
  | Error_Checking u64  \<comment> \<open>the line \<^verbatim>\<open>Error checking integrity for block with contentid\<close>\<close>

definition compare_blocks :: "string \<Rightarrow> block_info \<Rightarrow> int \<Rightarrow> (int \<times> integrity_line list) res" where
  \<comment> \<open>the result and what is printed into the integrity file\<close>
  "compare_blocks buf infowrite final_check =
     rbind (get_block_content infowrite (length buf)) (\<lambda>bufaux.
       if cont_id infowrite = 0 \<and> ts infowrite = 0 then Inr (0, [])
       else if buf \<noteq> bufaux
       then rbind (check_block_content buf) (\<lambda>i.
         if i = 0 \<and> final_check = 0 then Inr (1, [Mismatch_Well_Built (cont_id infowrite)])
         else Inr (1, [Error_Checking (cont_id infowrite)]))
       else Inr (0, []))"

definition get_writecontent ::
    "'s rng \<Rightarrow> 's \<Rightarrow> u64 \<Rightarrow> user_confs \<Rightarrow> duplicates_info \<Rightarrow> stats \<Rightarrow> int
      \<Rightarrow> (string \<times> duplicates_info \<times> stats \<times> block_info \<times> 's) res option" where
  \<comment> \<open>\<open>tunique\<close> is the time of day in microseconds\<close>
  "get_writecontent g s tunique conf info stat idproc =
     obind (get_contentid g s info) (\<lambda>(contwrite, info', s').
       let buf = replicate (unat (block_size conf)) (CHR ''a'') in
       if contwrite \<ge> duplicated_blocks info'
       then let b = \<lparr>cont_id = contwrite, procid = idproc, ts = tunique\<rparr>;
                info2 = (if distout conf = 1 then info'\<lparr>zerodups := zerodups info' + 1\<rparr> else info');
                text = show_u64 contwrite @ '' pid '' @ show_int idproc @ '' time '' @ show_u64 tunique @ '' ''
            in Some (rbind (sprintf_at buf text) (\<lambda>buf'.
                 Inr (buf', info2, stat\<lparr>uni := uni stat + 1, zerod := zerod stat + 1\<rparr>, b, s')))
       else Some (rbind (sprintf_at buf (show_u64 contwrite @ '' '')) (\<lambda>buf'.
              Inr (buf', info', stat, \<lparr>cont_id = contwrite, procid = -1, ts = -1\<rparr>, s'))))"

section \<open>The output distribution\<close>

text \<open>
  The Berkeley database of the output distribution is a map from numbers of duplicates to
  numbers of blocks.
\<close>

type_synonym print_db = "u64 \<Rightarrow> u64 option"

definition bump_db :: "print_db \<Rightarrow> u64 \<Rightarrow> u64 \<Rightarrow> print_db" where
  "bump_db db ndups n = (case db ndups of None \<Rightarrow> db(ndups \<mapsto> n) | Some c \<Rightarrow> db(ndups \<mapsto> c + n))"

fun outputdist_loop :: "u64 list \<Rightarrow> nat \<Rightarrow> u64 \<Rightarrow> print_db \<Rightarrow> (nat \<times> u64) list \<times> u64 \<times> print_db" where
  \<comment> \<open>the statistics from index \<open>i\<close> on; the lines of the header file, \<^verbatim>\<open>zerodups\<close> and the database\<close>
  "outputdist_loop [] i zero db = ([], zero, db)"
| "outputdist_loop (x # xs) i zero db =
     (let zero1 = (if x = 1 then zero + 1 else zero);
          db1 = (if x > 1 then bump_db db (x - 1) 1 else db)
      in case outputdist_loop xs (Suc i) zero1 db1 of (ls, zero2, db2) \<Rightarrow>
           (if x = 1 \<or> x > 1 then (i, x) # ls else ls, zero2, db2))"

definition gen_outputdist :: "duplicates_info \<Rightarrow> print_db \<Rightarrow> (int \<times> (nat \<times> u64) list \<times> duplicates_info \<times> print_db) res" where
  "gen_outputdist info db =
     (if length (di_statistics info) < unat (duplicated_blocks info) then Inl Out_Of_Bounds
      else case outputdist_loop (take (unat (duplicated_blocks info)) (di_statistics info)) 0 (zerodups info) db of
        (ls, zero, db') \<Rightarrow> Inr (0, ls, info\<lparr>zerodups := zero\<rparr>, bump_db db' 0 zero))"

end
