(* ===== verification/Fbd_Defines.thy ===== *)
theory Fbd_Defines
  imports Achilles_Prelude
begin

text \<open>
  \<^verbatim>\<open>fbdd/fbd_defines.h\<close> and \<^verbatim>\<open>fbdd/fbd_defines.c\<close>: the operation, mode, fault and status
  codes that the driver, the socket protocol and the benchmark share, and their names.
  Operation, mode and fault codes travel as \<^verbatim>\<open>uint8_t\<close>; a status is an \<^verbatim>\<open>int\<close>
  (an \<^verbatim>\<open>int8_t\<close> on the wire).
\<close>

abbreviation FBD_OP_NONE :: u8 where "FBD_OP_NONE \<equiv> 0"
abbreviation FBD_OP_WRITE :: u8 where "FBD_OP_WRITE \<equiv> 1"
abbreviation FBD_OP_READ :: u8 where "FBD_OP_READ \<equiv> 2"
abbreviation FBD_OP_WRITE_READ :: u8 where "FBD_OP_WRITE_READ \<equiv> 3"

abbreviation FBD_MODE_BLOCK :: u8 where "FBD_MODE_BLOCK \<equiv> 0"
abbreviation FBD_MODE_HASH :: u8 where "FBD_MODE_HASH \<equiv> 1"
abbreviation FBD_MODE_DEDUP :: u8 where "FBD_MODE_DEDUP \<equiv> 2"
abbreviation FBD_MODE_DEVICE :: u8 where "FBD_MODE_DEVICE \<equiv> 3"
abbreviation FBD_MODE_RESET_ALL :: u8 where "FBD_MODE_RESET_ALL \<equiv> 4"

abbreviation FBD_FAULT_NONE :: u8 where "FBD_FAULT_NONE \<equiv> 0"
abbreviation FBD_FAULT_BIT_FLIP :: u8 where "FBD_FAULT_BIT_FLIP \<equiv> 1"
abbreviation FBD_FAULT_SLOW_DISK :: u8 where "FBD_FAULT_SLOW_DISK \<equiv> 2"
abbreviation FBD_FAULT_MEDIUM :: u8 where "FBD_FAULT_MEDIUM \<equiv> 3"

abbreviation FBD_STS_CONN_CLOSED :: int where "FBD_STS_CONN_CLOSED \<equiv> 0"
abbreviation FBD_STS_OK :: int where "FBD_STS_OK \<equiv> 1"
abbreviation FBD_STS_DUP_FAULT :: int where "FBD_STS_DUP_FAULT \<equiv> 2"
abbreviation FBD_STS_ERROR :: int where "FBD_STS_ERROR \<equiv> -1"
abbreviation FBD_STS_NOT_FOUND :: int where "FBD_STS_NOT_FOUND \<equiv> -2"
abbreviation FBD_STS_SEND_FAILED :: int where "FBD_STS_SEND_FAILED \<equiv> -3"
abbreviation FBD_STS_WRONG_INPUT :: int where "FBD_STS_WRONG_INPUT \<equiv> -4"
abbreviation FBD_STS_MEDIUM_ERROR :: int where "FBD_STS_MEDIUM_ERROR \<equiv> -5"
abbreviation FBD_STS_WRONG_MODE :: int where "FBD_STS_WRONG_MODE \<equiv> -6"
abbreviation FBD_STS_INVALID_MODE :: int where "FBD_STS_INVALID_MODE \<equiv> -7"
abbreviation FBD_STS_RECV_FAILED :: int where "FBD_STS_RECV_FAILED \<equiv> -8"
abbreviation FBD_STS_INVALID_HASH_TYPE :: int where "FBD_STS_INVALID_HASH_TYPE \<equiv> -9"

abbreviation MAX_FAULTS :: nat where "MAX_FAULTS \<equiv> 3"

abbreviation FBD_HASH_MD5 :: u8 where "FBD_HASH_MD5 \<equiv> 0"
abbreviation FBD_HASH_XXH3_128 :: u8 where "FBD_HASH_XXH3_128 \<equiv> 1"
abbreviation FBD_HASH_MURMUR_x86_128 :: u8 where "FBD_HASH_MURMUR_x86_128 \<equiv> 2"

definition fbd_operation_to_string :: "int \<Rightarrow> string" where
  "fbd_operation_to_string op =
     (if op = 0 then ''none'' else if op = 2 then ''read'' else if op = 1 then ''write''
      else if op = 3 then ''write/read'' else ''not_found'')"

definition fbd_fault_to_string :: "int \<Rightarrow> string" where
  "fbd_fault_to_string f =
     (if f = 0 then ''none'' else if f = 1 then ''bit_blip'' else if f = 3 then ''medium_error''
      else if f = 2 then ''slow_disk'' else ''not_found'')"

definition fbd_mode_to_string :: "int \<Rightarrow> string" where
  "fbd_mode_to_string m =
     (if m = 0 then ''block'' else if m = 1 then ''hash'' else if m = 2 then ''dedup''
      else if m = 3 then ''device'' else if m = 4 then ''remove_faults'' else ''not_found'')"

definition fbd_response_to_string :: "int \<Rightarrow> string" where
  "fbd_response_to_string res =
     (if res = FBD_STS_CONN_CLOSED then ''Connection closed''
      else if res = FBD_STS_OK then ''OK''
      else if res = FBD_STS_DUP_FAULT then ''Duplicated fault''
      else if res = FBD_STS_ERROR then ''Error ocurred''
      else if res = FBD_STS_INVALID_MODE then ''Unacceptale mode''
      else if res = FBD_STS_NOT_FOUND then ''Fault not found''
      else if res = FBD_STS_MEDIUM_ERROR then ''Medium error''
      else if res = FBD_STS_WRONG_MODE then ''Not recognizable mode''
      else if res = FBD_STS_SEND_FAILED then ''Error in sending request''
      else if res = FBD_STS_WRONG_INPUT then ''Invalid inputs''
      else if res = FBD_STS_RECV_FAILED then ''Error in receiving request''
      else if res = FBD_STS_INVALID_HASH_TYPE then ''Invalid hash type''
      else ''Response code not found'')"

text \<open>The operation codes are a bit mask: bit 0 is write, bit 1 is read.\<close>

lemma op_mask_simps [simp]:
  "FBD_OP_WRITE AND FBD_OP_WRITE = 1" "FBD_OP_WRITE AND FBD_OP_READ = 0"
  "FBD_OP_READ AND FBD_OP_WRITE = 0" "FBD_OP_READ AND FBD_OP_READ = 2"
  "FBD_OP_WRITE_READ AND FBD_OP_WRITE = 1" "FBD_OP_WRITE_READ AND FBD_OP_READ = 2"
  by simp_all

end
