(* ===== verification/Dedis_Faultconf.thy ===== *)
theory Dedis_Faultconf
  imports Dedis_Duplicates Fbd_Defines
begin

text \<open>
  \<^verbatim>\<open>dedisbench/benchcore/faults/configParserYaml.c\<close> and the schedule of \<^verbatim>\<open>fault.c\<close>: the configuration
  of the faults to inject. The tokens of the YAML file come from the scanner of libyaml, and the
  arrays are sorted by GLib; both are parameters. The parser reacts to every token on the state
  \<open>fault_conf_metadata\<close>; the result holds, for every process, the faults by time and by number of
  operations, of which \<open>next_fault_conf\<close> releases one after the other.
\<close>

abbreviation DIST_GEN :: int where "DIST_GEN \<equiv> 0"
abbreviation TOP_DUP :: int where "TOP_DUP \<equiv> 1"
abbreviation BOT_DUP :: int where "BOT_DUP \<equiv> 2"
abbreviation UNIQUE_DIST :: int where "UNIQUE_DIST \<equiv> 3"
abbreviation NEXT_GEN :: int where "NEXT_GEN \<equiv> 4"
abbreviation TIME_F :: int where "TIME_F \<equiv> 1"
abbreviation OPS_F :: int where "OPS_F \<equiv> 2"
abbreviation FAULT_CONF_EXTRA_NONE :: int where "FAULT_CONF_EXTRA_NONE \<equiv> 0"
abbreviation FAULT_CONF_EXTRA_TIME :: int where "FAULT_CONF_EXTRA_TIME \<equiv> 1"
abbreviation MAX_KEY_STACK_SIZE :: nat where "MAX_KEY_STACK_SIZE \<equiv> 10"

section \<open>Data\<close>

datatype yaml_token =
    Stream_Start | Stream_End | Key | Value | Block_Sequence_Start | Block_Entry | Block_End
  | Block_Mapping_Start | Scalar string | Other_Token

record sorted_fault_confs =
  by_time :: "fault_conf list"
  by_operation :: "fault_conf list"
  itime :: nat
  ioperation :: nat

record fault_conf_metadata =
  in_faults_scalar :: bool
  in_faults_sequence :: bool
  in_fault_def_block :: bool
  current_procid :: int
  last_key :: "string option"
  conf_array :: "sorted_fault_confs list"
  current_fault :: fault_conf
  is_key :: bool
  key_stack :: "string list"
  avoid_repeatable_faults :: bool

record fault_runtime =
  runtime_faults :: "sorted_fault_confs list"
  last_block :: "block_info list"
  next_block :: "block_info list"
  runtime_nprocs :: int
  nunique_injected :: int
  avoid_repeat_faults :: bool

section \<open>Single faults\<close>

definition reset_fault_conf :: "fault_conf \<Rightarrow> fault_conf" where
  \<comment> \<open>\<open>persistent\<close> keeps its value\<close>
  "reset_fault_conf fc =
     fc\<lparr>fc_mode := 1, fc_operation := -1, fc_when := -1, fc_dist := -1, fc_type := -1, fc_proc_id := -1,
        fc_measure := -1, fc_extra_type := FAULT_CONF_EXTRA_NONE, fc_extra := None\<rparr>"

definition validate_fault_conf :: "fault_conf \<Rightarrow> bool \<times> fault_conf" where
  \<comment> \<open>\<open>when\<close> is unsigned: the test \<^verbatim>\<open>when >= 0\<close> is always true\<close>
  "validate_fault_conf fc =
     (let fc' = (if fc_extra_type fc = FAULT_CONF_EXTRA_TIME \<and> fc_extra fc = None then fc\<lparr>fc_extra := Some 1\<rparr> else fc)
      in (fc_operation fc' \<ge> 0 \<and> fc_dist fc' \<ge> 0 \<and> fc_type fc' \<ge> 0 \<and> fc_measure fc' \<ge> 0, fc'))"

definition compare_fault_block_when :: "fault_conf \<Rightarrow> fault_conf \<Rightarrow> int" where
  \<comment> \<open>the first operand is converted to \<^verbatim>\<open>gint\<close>, the difference is unsigned and converted again\<close>
  "compare_fault_block_when f1 f2 =
     sint (ucast (word_of_int (sint (ucast (fc_when f1) :: 32 word)) - fc_when f2 :: u64) :: 32 word)"

definition set_type :: "string \<Rightarrow> fault_conf \<Rightarrow> fault_conf" where
  "set_type v fc =
     (if v = ''medium_error'' then fc\<lparr>fc_type := 3\<rparr>
      else if v = ''bit_flip'' then fc\<lparr>fc_type := 1\<rparr>
      else if v = ''slow_disk'' then fc\<lparr>fc_type := 2, fc_extra_type := FAULT_CONF_EXTRA_TIME\<rparr>
      else fc)"

definition set_operation :: "string \<Rightarrow> fault_conf \<Rightarrow> fault_conf" where
  "set_operation v fc =
     (if v = ''write'' then fc\<lparr>fc_operation := 1\<rparr>
      else if v = ''read'' then fc\<lparr>fc_operation := 2\<rparr>
      else if v = ''write_read'' then fc\<lparr>fc_operation := 3\<rparr>
      else fc)"

definition set_target :: "string \<Rightarrow> fault_conf \<Rightarrow> fault_conf" where
  "set_target v fc =
     (if v = ''last_block'' then fc\<lparr>fc_dist := DIST_GEN\<rparr>
      else if v = ''top_block'' then fc\<lparr>fc_dist := TOP_DUP\<rparr>
      else if v = ''next_block'' then fc\<lparr>fc_dist := NEXT_GEN\<rparr>
      else if v = ''unique_block'' then fc\<lparr>fc_dist := UNIQUE_DIST\<rparr>
      else fc)"

definition set_mode :: "string \<Rightarrow> fault_conf \<Rightarrow> fault_conf" where
  "set_mode v fc =
     (if v = ''mode_hash'' then fc\<lparr>fc_mode := 1\<rparr>
      else if v = ''mode_offset'' then fc\<lparr>fc_mode := 0\<rparr>
      else if v = ''mode_dedup'' then fc\<lparr>fc_mode := 2\<rparr>
      else if v = ''mode_disk'' then fc\<lparr>fc_mode := 3\<rparr>
      else fc)"

definition set_attribute :: "string \<Rightarrow> string \<Rightarrow> fault_conf \<Rightarrow> fault_conf" where
  "set_attribute lkey v fc =
     (if lkey = ''type'' then set_type v fc
      else if lkey = ''operation'' then if v = ''none'' then fc\<lparr>fc_operation := 0\<rparr> else set_operation v fc
      else if lkey = ''target'' then set_target v fc
      else if lkey = ''when_operation'' then fc\<lparr>fc_when := word_of_int (atoi v), fc_measure := OPS_F\<rparr>
      else if lkey = ''when_time'' then fc\<lparr>fc_when := word_of_int (atoi v), fc_measure := TIME_F\<rparr>
      else if lkey = ''delay'' then fc\<lparr>fc_extra := Some (word_of_int (atoi v))\<rparr>
      else if lkey = ''persistent''
        then if v = ''yes'' then fc\<lparr>fc_persistent := True\<rparr> else if v = ''no'' then fc\<lparr>fc_persistent := False\<rparr> else fc
      else if lkey = ''transient''
        then if v = ''yes'' then fc\<lparr>fc_persistent := False\<rparr> else if v = ''no'' then fc\<lparr>fc_persistent := True\<rparr> else fc
      else if lkey = ''mode'' then set_mode v fc
      else fc)"

definition add_fault_attribute :: "fault_conf_metadata \<Rightarrow> string \<Rightarrow> fault_conf_metadata res" where
  "add_fault_attribute data v =
     (case last_key data of
        None \<Rightarrow> Inl Wild_Pointer
      | Some lkey \<Rightarrow> Inr (data\<lparr>current_fault := set_attribute lkey v (current_fault data)\<rparr>))"

section \<open>The state of the parser\<close>

definition empty_confs :: sorted_fault_confs where
  "empty_confs = \<lparr>by_time = [], by_operation = [], itime = 0, ioperation = 0\<rparr>"

definition init_fault_conf_metadata :: "fault_conf \<Rightarrow> int \<Rightarrow> fault_conf_metadata" where
  \<comment> \<open>every round of the loop starts a new array: with at least one process, one entry is left;
     \<open>junk\<close> is the fault in fresh memory\<close>
  "init_fault_conf_metadata junk n =
     \<lparr>in_faults_scalar = False, in_faults_sequence = False, in_fault_def_block = False, current_procid = 0,
      last_key = None, conf_array = foldl (\<lambda>_ _. [empty_confs]) [] [0..<nat n],
      current_fault = reset_fault_conf junk, is_key = False, key_stack = [], avoid_repeatable_faults = False\<rparr>"

definition handle_scalar_token :: "fault_conf_metadata \<Rightarrow> string \<Rightarrow> fault_conf_metadata res" where
  "handle_scalar_token data0 tok =
     (let data = (if is_key data0 then data0\<lparr>last_key := Some tok\<rparr> else data0) in
      if \<not> in_faults_sequence data
      then if is_key data
        then if tok = ''faults'' then Inr (data\<lparr>in_faults_scalar := True\<rparr>)
          else if tok = ''length_faults'' then Inr data
          else if length (key_stack data) < MAX_KEY_STACK_SIZE then Inr (data\<lparr>key_stack := key_stack data @ [tok]\<rparr>)
          else Inl (Exit 0)
        else (case last_key data of
            None \<Rightarrow> Inl Wild_Pointer
          | Some lkey \<Rightarrow>
              if lkey = ''avoid_repeatable_faults''
              then if tok = ''yes'' then Inr (data\<lparr>avoid_repeatable_faults := True\<rparr>)
                else if tok = ''no'' then Inr (data\<lparr>avoid_repeatable_faults := False\<rparr>)
                else Inr data
              else Inr data)
      else if \<not> is_key data then add_fault_attribute data tok
      else Inr data)"

definition set_is_key :: "fault_conf_metadata \<Rightarrow> fault_conf_metadata" where
  "set_is_key data = data\<lparr>is_key := True\<rparr>"

definition set_is_value :: "fault_conf_metadata \<Rightarrow> fault_conf_metadata" where
  "set_is_value data = data\<lparr>is_key := False\<rparr>"

definition store_fault :: "fault_conf \<Rightarrow> sorted_fault_confs \<Rightarrow> sorted_fault_confs" where
  "store_fault fc s =
     (if fc_measure fc = OPS_F then s\<lparr>by_operation := by_operation s @ [fc]\<rparr>
      else if fc_measure fc = TIME_F then s\<lparr>by_time := by_time s @ [fc]\<rparr>
      else s)"

definition handle_block_end :: "fault_conf_metadata \<Rightarrow> fault_conf_metadata res" where
  "handle_block_end data =
     (if in_fault_def_block data
      then case validate_fault_conf (current_fault data) of (ok, fc) \<Rightarrow>
        let data1 = data\<lparr>current_fault := fc\<rparr>; p = nat (current_procid data) in
        if \<not> ok then Inr (data1\<lparr>in_fault_def_block := False\<rparr>)
        else if p < length (conf_array data)
        then Inr (data1\<lparr>conf_array := (conf_array data)[p := store_fault fc (conf_array data ! p)], in_fault_def_block := False\<rparr>)
        else Inl Out_Of_Bounds
      else if key_stack data \<noteq> []
      then let stack = butlast (key_stack data)
           in Inr (data\<lparr>key_stack := stack,
                        in_faults_sequence := (if stack = [] then False else in_faults_sequence data)\<rparr>)
      else Inr (data\<lparr>in_faults_scalar := False\<rparr>))"

definition handle_block_sequence :: "fault_conf_metadata \<Rightarrow> fault_conf_metadata" where
  "handle_block_sequence data = (if in_faults_scalar data then data\<lparr>in_faults_sequence := True\<rparr> else data)"

definition next_procid :: "fault_conf_metadata \<Rightarrow> int \<Rightarrow> int \<times> fault_conf_metadata" where
  "next_procid data n =
     (let p = (if n > 0 then (current_procid data + 1) mod n else 0) in (p, data\<lparr>current_procid := p\<rparr>))"

definition apply_key :: "string \<Rightarrow> fault_conf \<Rightarrow> fault_conf" where
  \<comment> \<open>what a key above the sequence says about its faults\<close>
  "apply_key key fc =
     (if key \<in> {''write'', ''read'', ''write_read''} then set_operation key fc
      else if key \<in> {''medium_error'', ''bit_flip'', ''slow_disk''} then set_type key fc
      else if key \<in> {''last_block'', ''top_block'', ''next_block'', ''unique_block''} then set_target key fc
      else if key = ''persistent'' then fc\<lparr>fc_persistent := True\<rparr>
      else if key = ''transient'' then fc\<lparr>fc_persistent := False\<rparr>
      else set_mode key fc)"

definition handle_block_entry :: "fault_conf_metadata \<Rightarrow> user_confs \<Rightarrow> fault_conf_metadata" where
  "handle_block_entry data0 conf =
     (let data = data0\<lparr>in_fault_def_block := in_faults_sequence data0\<rparr> in
      if in_fault_def_block data
      then case next_procid data (nprocs conf) of (p, data1) \<Rightarrow>
        data1\<lparr>current_fault := fold apply_key (key_stack data1) ((reset_fault_conf (current_fault data1))\<lparr>fc_proc_id := p\<rparr>)\<rparr>
      else data)"

section \<open>The parser\<close>

type_synonym gsort = "(fault_conf \<Rightarrow> fault_conf \<Rightarrow> int) \<Rightarrow> fault_conf list \<Rightarrow> fault_conf list"

definition sort_confs :: "gsort \<Rightarrow> sorted_fault_confs \<Rightarrow> sorted_fault_confs" where
  "sort_confs gsort s =
     s\<lparr>by_operation := gsort compare_fault_block_when (by_operation s),
       by_time := gsort compare_fault_block_when (by_time s)\<rparr>"

definition end_fault_conf ::
    "gsort \<Rightarrow> (nat \<Rightarrow> block_info) \<Rightarrow> fault_conf_metadata \<Rightarrow> user_confs \<Rightarrow> fault_runtime res" where
  \<comment> \<open>the new value of \<^verbatim>\<open>info->faults\<close>; \<open>fresh\<close> are the blocks in fresh memory\<close>
  "end_fault_conf gsort fresh data conf =
     (if length (conf_array data) < nat (nprocs conf) then Inl Out_Of_Bounds
      else Inr \<lparr>runtime_faults = map (sort_confs gsort) (take (nat (nprocs conf)) (conf_array data)) @ drop (nat (nprocs conf)) (conf_array data),
                last_block = map fresh [0..<nat (nprocs conf)], next_block = map fresh [0..<nat (nprocs conf)],
                runtime_nprocs = nprocs conf, nunique_injected = 0, avoid_repeat_faults = avoid_repeatable_faults data\<rparr>)"

definition handle_token :: "fault_conf \<Rightarrow> user_confs \<Rightarrow> yaml_token \<Rightarrow> fault_conf_metadata option \<Rightarrow> fault_conf_metadata option res" where
  \<comment> \<open>the \<^verbatim>\<open>switch\<close> of the loop, the end of the stream apart; None before the start of the stream\<close>
  "handle_token junk conf tok st =
     (case tok of
        Stream_Start \<Rightarrow> Inr (Some (init_fault_conf_metadata junk (nprocs conf)))
      | Block_Mapping_Start \<Rightarrow> Inr st
      | Other_Token \<Rightarrow> Inr st
      | _ \<Rightarrow> (case st of
          None \<Rightarrow> Inl Uninitialised
        | Some data \<Rightarrow> rbind (case tok of
              Key \<Rightarrow> Inr (set_is_key data)
            | Value \<Rightarrow> Inr (set_is_value data)
            | Block_Sequence_Start \<Rightarrow> Inr (handle_block_sequence data)
            | Block_Entry \<Rightarrow> Inr (handle_block_entry data conf)
            | Block_End \<Rightarrow> handle_block_end data
            | Scalar s \<Rightarrow> handle_scalar_token data s
            | _ \<Rightarrow> Inr data) (\<lambda>data'. Inr (Some data'))))"

fun parse_tokens ::
    "gsort \<Rightarrow> (nat \<Rightarrow> block_info) \<Rightarrow> fault_conf \<Rightarrow> user_confs \<Rightarrow> yaml_token list \<Rightarrow> fault_conf_metadata option \<Rightarrow> fault_runtime res option" where
  \<comment> \<open>the loop over the tokens; None: the scanner never reports the end of the stream\<close>
  "parse_tokens gsort fresh junk conf [] st = None"
| "parse_tokens gsort fresh junk conf (tok # toks) st =
     (if tok = Stream_End
      then Some (case st of None \<Rightarrow> Inl Uninitialised | Some data \<Rightarrow> end_fault_conf gsort fresh data conf)
      else case handle_token junk conf tok st of
        Inl e \<Rightarrow> Some (Inl e)
      | Inr st' \<Rightarrow> parse_tokens gsort fresh junk conf toks st')"

definition parse_faults_configuration_yaml ::
    "gsort \<Rightarrow> (nat \<Rightarrow> block_info) \<Rightarrow> fault_conf \<Rightarrow> user_confs \<Rightarrow> yaml_token list \<Rightarrow> fault_runtime res option" where
  "parse_faults_configuration_yaml gsort fresh junk conf toks = parse_tokens gsort fresh junk conf toks None"

section \<open>The schedule\<close>

definition next_of :: "u64 \<Rightarrow> u64 \<Rightarrow> sorted_fault_confs \<Rightarrow> fault_conf option \<times> sorted_fault_confs" where
  \<comment> \<open>the faults of one process\<close>
  "next_of n_ops time_elapsed s =
     (if itime s < length (by_time s)
      then let fc = by_time s ! itime s
           in if fc_when fc \<le> time_elapsed then (Some fc, s\<lparr>itime := itime s + 1\<rparr>) else (None, s)
      else if ioperation s < length (by_operation s)
      then let fc = by_operation s ! ioperation s
           in if fc_when fc \<le> n_ops then (Some fc, s\<lparr>ioperation := ioperation s + 1\<rparr>) else (None, s)
      else (None, s))"

definition next_fault_conf ::
    "fault_runtime option \<Rightarrow> nat \<Rightarrow> u64 \<Rightarrow> u64 \<Rightarrow> (fault_conf option \<times> fault_runtime option) res" where
  "next_fault_conf runtime p n_ops time_elapsed =
     (case runtime of
        None \<Rightarrow> Inr (None, None)
      | Some r \<Rightarrow>
          if p < length (runtime_faults r)
          then case next_of n_ops time_elapsed (runtime_faults r ! p) of (fc, s) \<Rightarrow>
            Inr (fc, Some (r\<lparr>runtime_faults := (runtime_faults r)[p := s]\<rparr>))
          else Inl Out_Of_Bounds)"

end
