(* ===== verification/Dedis_Faultconf_Correct.thy ===== *)
theory Dedis_Faultconf_Correct
  imports Dedis_Faultconf "HOL-Library.Multiset"
begin

text \<open>
  Properties of the fault configuration: the states of the parser as a step relation with its
  invariants, what a parsed configuration guarantees, why it needs a single process, and the order
  in which the schedule releases faults.
\<close>

section \<open>Reachable states of the parser\<close>

inductive parser_reach :: "fault_conf \<Rightarrow> user_confs \<Rightarrow> fault_conf_metadata \<Rightarrow> bool"
  for junk :: fault_conf and conf :: user_confs where
  start: "parser_reach junk conf (init_fault_conf_metadata junk (nprocs conf))"
| step: "parser_reach junk conf d \<Longrightarrow> handle_token junk conf tok (Some d) = Inr (Some d') \<Longrightarrow> parser_reach junk conf d'"

inductive_cases parser_reach_cases: "parser_reach junk conf d"

lemma handle_token_some: "handle_token junk conf tok (Some d) = Inr st \<Longrightarrow> \<exists>d'. st = Some d'"
  by (cases tok) (auto simp: handle_token_def rbind_Inr_iff)

lemma handle_token_none: "handle_token junk conf tok None = Inr (Some d) \<Longrightarrow> d = init_fault_conf_metadata junk (nprocs conf)"
  by (cases tok) (auto simp: handle_token_def)

lemma parse_tokens_reach:
  assumes "parse_tokens gsort fresh junk conf toks st = Some (Inr rt)" and "\<And>d. st = Some d \<Longrightarrow> parser_reach junk conf d"
  shows "\<exists>d. parser_reach junk conf d \<and> end_fault_conf gsort fresh d conf = Inr rt"
  using assms
proof (induction toks arbitrary: st)
  case (Cons tok toks)
  show ?case
  proof (cases "tok = Stream_End")
    case True
    with Cons.prems show ?thesis by (auto split: option.splits)
  next
    case False
    with Cons.prems(1) obtain st' where st': "handle_token junk conf tok st = Inr st'"
      "parse_tokens gsort fresh junk conf toks st' = Some (Inr rt)" by (auto split: sum.splits)
    have "parser_reach junk conf d" if "st' = Some d" for d
    proof (cases st)
      case None
      then show ?thesis using st'(1) that handle_token_none parser_reach.start by fastforce
    next
      case (Some d0)
      then show ?thesis using Cons.prems(2) st'(1) that parser_reach.step by blast
    qed
    with Cons.IH [OF st'(2)] show ?thesis by blast
  qed
qed simp

lemma scalar_keeps:
  assumes "handle_scalar_token d s = Inr d'"
  shows "conf_array d' = conf_array d" "current_procid d' = current_procid d" "in_fault_def_block d' = in_fault_def_block d"
    "current_fault d' = current_fault d \<or> (\<exists>lkey. current_fault d' = set_attribute lkey s (current_fault d))"
  using assms
  by (auto simp: handle_scalar_token_def Let_def add_fault_attribute_def split: if_splits option.splits)

text \<open>
  An invariant over the table of faults, the current process and the current fault holds in every
  reachable state when the handlers that change these keep it.
\<close>

locale parser_invariant =
  fixes conf :: user_confs and junk :: fault_conf and table :: "sorted_fault_confs list \<Rightarrow> int \<Rightarrow> bool" and fault :: "fault_conf \<Rightarrow> bool"
  assumes init: "table (conf_array (init_fault_conf_metadata junk (nprocs conf))) 0"
    and fresh_fault: "fault (reset_fault_conf fc)"
    and fault_id: "fault fc \<Longrightarrow> fault (fc\<lparr>fc_proc_id := p\<rparr>)"
    and fault_key: "fault fc \<Longrightarrow> fault (apply_key key fc)"
    and fault_attribute: "fault fc \<Longrightarrow> fault (set_attribute lkey v fc)"
    and fault_validate: "fault fc \<Longrightarrow> fault (snd (validate_fault_conf fc))"
    and next_proc: "table a p \<Longrightarrow> table a (if nprocs conf > 0 then (p + 1) mod nprocs conf else 0)"
    and store: "table a p \<Longrightarrow> fault fc \<Longrightarrow> validate_fault_conf fc = (True, fc') \<Longrightarrow> nat p < length a \<Longrightarrow>
      table (a[nat p := store_fault fc' (a ! nat p)]) p"
begin

definition holds :: "fault_conf_metadata \<Rightarrow> bool" where
  "holds d \<longleftrightarrow> table (conf_array d) (current_procid d) \<and> fault (current_fault d)"

lemma fold_keys: "fault fc \<Longrightarrow> fault (fold apply_key ks fc)"
  by (induction ks arbitrary: fc) (auto intro: fault_key)

lemma holds_init: "holds (init_fault_conf_metadata junk (nprocs conf))"
  using init by (simp add: holds_def init_fault_conf_metadata_def fresh_fault)

lemma holds_entry: "holds d \<Longrightarrow> holds (handle_block_entry d conf)"
  using next_proc [of "conf_array d" "current_procid d"]
  by (auto simp: holds_def handle_block_entry_def next_procid_def Let_def intro!: fold_keys fault_id fresh_fault)

lemma holds_end: "holds d \<Longrightarrow> handle_block_end d = Inr d' \<Longrightarrow> holds d'"
  using fault_validate [of "current_fault d"] store [of "conf_array d" "current_procid d" "current_fault d"]
  by (auto simp: holds_def handle_block_end_def Let_def split: if_splits prod.splits)

lemma holds_scalar: "holds d \<Longrightarrow> handle_scalar_token d s = Inr d' \<Longrightarrow> holds d'"
proof -
  assume h: "holds d" and r: "handle_scalar_token d s = Inr d'"
  from scalar_keeps(4) [OF r] h fault_attribute have "fault (current_fault d')" by (auto simp: holds_def)
  with h scalar_keeps(1,2) [OF r] show ?thesis by (simp add: holds_def)
qed

lemma holds_token:
  assumes "holds d" and "handle_token junk conf tok (Some d) = Inr (Some d')"
  shows "holds d'"
proof -
  have "holds (set_is_key d)" "holds (set_is_value d)" "holds (handle_block_sequence d)"
    using assms(1) by (simp_all add: holds_def set_is_key_def set_is_value_def handle_block_sequence_def)
  note simple = this holds_init holds_entry [OF assms(1)] assms(1)
  show ?thesis
  proof (cases tok)
    case Block_End
    with assms(2) show ?thesis using holds_end [OF assms(1)] by (simp add: handle_token_def rbind_Inr_iff)
  next
    case (Scalar s)
    with assms(2) show ?thesis using holds_scalar [OF assms(1)] by (simp add: handle_token_def rbind_Inr_iff)
  qed (use assms(2) simple in \<open>simp_all add: handle_token_def rbind_Inr_iff\<close>)
qed

lemma reachable:
  assumes "parser_reach junk conf d"
  shows "table (conf_array d) (current_procid d) \<and> fault (current_fault d)"
proof -
  from assms have "holds d"
  proof (induction rule: parser_reach.induct)
    case start
    show ?case by (rule holds_init)
  next
    case (step d tok d')
    from step.IH step.hyps(2) show ?case by (rule holds_token)
  qed
  then show ?thesis by (simp add: holds_def)
qed

end

section \<open>One entry for all processes\<close>

interpretation one: parser_invariant conf junk "\<lambda>a p. length a \<le> 1" "\<lambda>_. True" for conf junk
proof (unfold_locales, goal_cases)
  case 1
  have "length (foldl (\<lambda>_ _. [empty_confs]) a xs) \<le> 1" if "length a \<le> 1" for a and xs :: "nat list"
    using that by (induction xs arbitrary: a) auto
  then show ?case by (simp add: init_fault_conf_metadata_def)
qed simp_all

text \<open>
  A fault configuration needs a single process. For two or more processes, no token
  stream is parsed successfully: the table of faults has one entry only, because every round of
  the initialisation replaces the table of the round before, and the parser accesses it at the
  number of the process.
\<close>

lemma fault_conf_needs_one_process:
  assumes "nprocs conf \<ge> 2"
  shows "parse_faults_configuration_yaml gsort fresh junk conf toks \<noteq> Some (Inr rt)"
proof
  assume "parse_faults_configuration_yaml gsort fresh junk conf toks = Some (Inr rt)"
  then obtain d where d: "parser_reach junk conf d" "end_fault_conf gsort fresh d conf = Inr rt"
    using parse_tokens_reach [of gsort fresh junk conf toks None rt] by (auto simp: parse_faults_configuration_yaml_def)
  have "length (conf_array d) \<le> 1" using one.reachable [OF d(1)] by simp
  with d(2) assms show False by (auto simp: end_fault_conf_def split: if_splits)
qed

section \<open>Valid faults\<close>

definition cur_ok :: "fault_conf \<Rightarrow> bool" where
  \<comment> \<open>the fault under construction: every attribute is unset or known\<close>
  "cur_ok fc \<longleftrightarrow> fc_mode fc \<in> {0, 1, 2, 3} \<and> fc_operation fc \<in> {-1, 0, 1, 2, 3} \<and> fc_dist fc \<in> {-1, DIST_GEN, TOP_DUP, UNIQUE_DIST, NEXT_GEN} \<and>
     fc_type fc \<in> {-1, 1, 2, 3} \<and> fc_measure fc \<in> {-1, TIME_F, OPS_F} \<and> (fc_type fc = 2 \<longrightarrow> fc_extra_type fc = FAULT_CONF_EXTRA_TIME)"

definition fault_ok :: "int \<Rightarrow> fault_conf \<Rightarrow> bool" where
  \<comment> \<open>a complete fault that is measured by \<open>m\<close>\<close>
  "fault_ok m fc \<longleftrightarrow> fc_measure fc = m \<and> fc_mode fc \<in> {0, 1, 2, 3} \<and> fc_operation fc \<in> {0, 1, 2, 3} \<and>
     fc_dist fc \<in> {DIST_GEN, TOP_DUP, UNIQUE_DIST, NEXT_GEN} \<and> fc_type fc \<in> {1, 2, 3} \<and> (fc_type fc = 2 \<longrightarrow> fc_extra fc \<noteq> None)"

definition confs_ok :: "sorted_fault_confs \<Rightarrow> bool" where
  "confs_ok s \<longleftrightarrow> itime s = 0 \<and> ioperation s = 0 \<and> (\<forall>fc \<in> set (by_time s). fault_ok TIME_F fc) \<and>
     (\<forall>fc \<in> set (by_operation s). fault_ok OPS_F fc)"

lemma cur_ok_reset: "cur_ok (reset_fault_conf fc)"
  by (simp add: cur_ok_def reset_fault_conf_def)

lemma cur_ok_setters:
  assumes "cur_ok fc"
  shows "cur_ok (set_type v fc)" "cur_ok (set_operation v fc)" "cur_ok (set_target v fc)" "cur_ok (set_mode v fc)"
    "cur_ok (fc\<lparr>fc_persistent := b\<rparr>)" "cur_ok (fc\<lparr>fc_proc_id := p\<rparr>)" "cur_ok (fc\<lparr>fc_operation := 0\<rparr>)" "cur_ok (fc\<lparr>fc_extra := e\<rparr>)"
    "cur_ok (fc\<lparr>fc_when := w, fc_measure := OPS_F\<rparr>)" "cur_ok (fc\<lparr>fc_when := w, fc_measure := TIME_F\<rparr>)"
  using assms by (auto simp: cur_ok_def set_type_def set_operation_def set_target_def set_mode_def)

lemma cur_ok_if: "cur_ok a \<Longrightarrow> cur_ok b \<Longrightarrow> cur_ok (if c then a else b)"
  by simp

lemma validated_fault:
  assumes "cur_ok fc" and "validate_fault_conf fc = (True, fc')"
  shows "fault_ok (fc_measure fc') fc' \<and> (fc_measure fc' = TIME_F \<or> fc_measure fc' = OPS_F)"
proof -
  have same: "fc_mode fc' = fc_mode fc" "fc_operation fc' = fc_operation fc" "fc_dist fc' = fc_dist fc" "fc_type fc' = fc_type fc"
    "fc_measure fc' = fc_measure fc" and set: "0 \<le> fc_operation fc" "0 \<le> fc_dist fc" "0 \<le> fc_type fc" "0 \<le> fc_measure fc"
    and extra: "fc_extra_type fc = FAULT_CONF_EXTRA_TIME \<Longrightarrow> fc_extra fc' \<noteq> None"
    using assms(2) by (auto simp: validate_fault_conf_def Let_def split: if_splits)
  have "fc_operation fc \<in> {0, 1, 2, 3}" using assms(1) set(1) by (auto simp: cur_ok_def)
  moreover have "fc_dist fc \<in> {DIST_GEN, TOP_DUP, UNIQUE_DIST, NEXT_GEN}" using assms(1) set(2) by (auto simp: cur_ok_def)
  moreover have "fc_type fc \<in> {1, 2, 3}" using assms(1) set(3) by (auto simp: cur_ok_def)
  moreover have "fc_measure fc = TIME_F \<or> fc_measure fc = OPS_F" using assms(1) set(4) by (auto simp: cur_ok_def)
  moreover have "fc_mode fc \<in> {0, 1, 2, 3}" "fc_type fc = 2 \<longrightarrow> fc_extra fc' \<noteq> None" using assms(1) extra by (simp_all add: cur_ok_def)
  ultimately show ?thesis unfolding fault_ok_def same by blast
qed

interpretation vf: parser_invariant conf junk "\<lambda>a p. \<forall>s \<in> set a. confs_ok s" cur_ok for conf junk
proof (unfold_locales, goal_cases)
  case 1
  have "set (foldl (\<lambda>_ _. [empty_confs]) a xs) \<subseteq> insert empty_confs (set a)" for a and xs :: "nat list"
    by (induction xs arbitrary: a) fastforce+
  from this [of "[]" "[0..<nat (nprocs conf)]"] show ?case
    by (auto simp: init_fault_conf_metadata_def confs_ok_def empty_confs_def)
next
  case (4 fc key)
  then show ?case unfolding apply_key_def by (intro cur_ok_if cur_ok_setters)
next
  case (5 fc lkey v)
  then show ?case unfolding set_attribute_def by (intro cur_ok_if cur_ok_setters)
next
  case (6 fc)
  then show ?case by (simp add: validate_fault_conf_def Let_def cur_ok_setters)
next
  case (8 a p fc fc')
  have "confs_ok (a ! nat p)" using 8(1,4) by simp
  then have "confs_ok (store_fault fc' (a ! nat p))"
    using validated_fault [OF 8(2,3)] by (auto simp: store_fault_def confs_ok_def)
  then show ?case using 8(1) set_update_subset_insert [of a "nat p"] by blast
qed (simp_all add: cur_ok_reset cur_ok_setters)

section \<open>The order of the schedule\<close>

definition comparison_on :: "('a \<Rightarrow> 'a \<Rightarrow> int) \<Rightarrow> 'a set \<Rightarrow> bool" where
  "comparison_on cmp S \<longleftrightarrow> (\<forall>a \<in> S. \<forall>b \<in> S. cmp a b \<le> 0 \<or> cmp b a \<le> 0) \<and>
     (\<forall>a \<in> S. \<forall>b \<in> S. \<forall>c \<in> S. cmp a b \<le> 0 \<and> cmp b c \<le> 0 \<longrightarrow> cmp a c \<le> 0)"

definition gsort_ok :: "gsort \<Rightarrow> bool" where
  \<comment> \<open>what \<^verbatim>\<open>g_array_sort\<close> promises for a comparison function\<close>
  "gsort_ok gsort \<longleftrightarrow> (\<forall>cmp xs. mset (gsort cmp xs) = mset xs \<and>
     (comparison_on cmp (set xs) \<longrightarrow> sorted_wrt (\<lambda>a b. cmp a b \<le> 0) (gsort cmp xs)))"

lemma comparison_on_subset: "comparison_on cmp S \<Longrightarrow> T \<subseteq> S \<Longrightarrow> comparison_on cmp T"
  unfolding comparison_on_def by blast

lemma truncated_difference: "(ucast (x - y :: u64) :: 32 word) = word_of_int (uint x - uint y)"
proof -
  have "x - y = (word_of_int (uint x - uint y) :: u64)" by (simp flip: wi_hom_sub)
  moreover have "(word_of_int (take_bit 64 z) :: 32 word) = word_of_int z" for z
    by (rule bit_word_eqI) (simp add: bit_simps)
  ultimately show ?thesis by (simp only: unsigned_of_int) simp
qed

lemma sint_small: "- (2 ^ 31) \<le> z \<Longrightarrow> z < 2 ^ 31 \<Longrightarrow> sint (word_of_int z :: 32 word) = z"
  using signed_take_bit_int_eq_self [of 31 z] by (simp add: signed_of_int)

lemma compare_small:
  assumes "fc_when f1 < 2 ^ 31" and "fc_when f2 < 2 ^ 31"
  shows "compare_fault_block_when f1 f2 = int (unat (fc_when f1)) - int (unat (fc_when f2))"
proof -
  let ?a = "uint (fc_when f1)" and ?b = "uint (fc_when f2)"
  have ab: "0 \<le> ?a" "?a < 2 ^ 31" "0 \<le> ?b" "?b < 2 ^ 31" using assms by (simp_all add: word_less_def)
  have "sint (ucast (fc_when f1) :: 32 word) = ?a"
    using ab(1,2) signed_take_bit_int_eq_self [of 31 ?a] order_trans [OF _ ab(1), of "- (2 ^ 31)"] by (simp add: signed_ucast_eq)
  moreover have "(ucast (fc_when f1 - fc_when f2) :: 32 word) = word_of_int (?a - ?b)"
    by (rule truncated_difference)
  moreover have "sint (word_of_int (?a - ?b) :: 32 word) = ?a - ?b"
    by (rule sint_small) (use ab in linarith)+
  ultimately show ?thesis by (simp add: compare_fault_block_when_def)
qed

lemma gsort_when:
  assumes "gsort_ok gsort" and "\<forall>fc \<in> set xs. fc_when fc < 2 ^ 31"
  shows "sorted (map fc_when (gsort compare_fault_block_when xs))"
proof -
  let ?le = "\<lambda>a b. compare_fault_block_when a b \<le> 0"
  have le: "?le a b \<longleftrightarrow> fc_when a \<le> fc_when b" if "a \<in> set xs" "b \<in> set xs" for a b
    using compare_small assms(2) that by (simp add: word_le_def)
  have total: "\<forall>a \<in> set xs. \<forall>b \<in> set xs. ?le a b \<or> ?le b a" by (simp add: le linear)
  have trans: "\<forall>a \<in> set xs. \<forall>b \<in> set xs. \<forall>c \<in> set xs. ?le a b \<and> ?le b c \<longrightarrow> ?le a c"
    using le order_trans by (metis (no_types, lifting))
  note spec = assms(1) [unfolded gsort_ok_def, THEN spec, THEN spec, of compare_fault_block_when xs]
  have "sorted_wrt ?le (gsort compare_fault_block_when xs)"
    by (rule spec [THEN conjunct2, THEN mp]) (unfold comparison_on_def, rule conjI [OF total trans])
  moreover have same: "set (gsort compare_fault_block_when xs) = set xs" by (rule mset_eq_setD [OF spec [THEN conjunct1]])
  have "fc_when a \<le> fc_when b" if "a \<in> set (gsort compare_fault_block_when xs)" "b \<in> set (gsort compare_fault_block_when xs)" "?le a b" for a b
    using that le [of a b] unfolding same by blast
  ultimately have "sorted_wrt (\<lambda>a b. fc_when a \<le> fc_when b) (gsort compare_fault_block_when xs)"
    by (rule sorted_wrt_mono_rel [rotated])
  then show ?thesis by (simp add: sorted_map)
qed

lemma sort_confs_ok:
  assumes "gsort_ok gsort" and "confs_ok s"
  shows "confs_ok (sort_confs gsort s)"
proof -
  have "set (gsort cmp xs) = set xs" for cmp xs
    using assms(1) mset_eq_setD [of "gsort cmp xs" xs] by (simp add: gsort_ok_def)
  with assms(2) show ?thesis by (simp add: confs_ok_def sort_confs_def)
qed

lemma sort_confs_sorted:
  assumes "gsort_ok gsort" and "\<forall>fc \<in> set (by_time s) \<union> set (by_operation s). fc_when fc < 2 ^ 31"
  shows "sorted (map fc_when (by_time (sort_confs gsort s)))" "sorted (map fc_when (by_operation (sort_confs gsort s)))"
  using gsort_when [OF assms(1)] assms(2) by (simp_all add: sort_confs_def)


fun releases :: "(u64 \<times> u64) list \<Rightarrow> sorted_fault_confs \<Rightarrow> (fault_conf \<times> u64 \<times> u64) list \<times> sorted_fault_confs" where
  \<comment> \<open>the faults that successive calls release, with the operations and the time of the call\<close>
  "releases [] s = ([], s)"
| "releases ((n, t) # calls) s =
     (case next_of n t s of (fc, s') \<Rightarrow>
      case releases calls s' of (fs, s'') \<Rightarrow> (case fc of None \<Rightarrow> fs | Some f \<Rightarrow> (f, n, t) # fs, s''))"

definition pending :: "sorted_fault_confs \<Rightarrow> fault_conf list" where
  "pending s = drop (itime s) (by_time s) @ drop (ioperation s) (by_operation s)"

definition due :: "fault_conf \<Rightarrow> u64 \<Rightarrow> u64 \<Rightarrow> bool" where
  "due fc n t \<longleftrightarrow> fc_measure fc = TIME_F \<and> fc_when fc \<le> t \<or> fc_measure fc = OPS_F \<and> fc_when fc \<le> n"

definition measured :: "sorted_fault_confs \<Rightarrow> bool" where
  "measured s \<longleftrightarrow> (\<forall>fc \<in> set (by_time s). fc_measure fc = TIME_F) \<and> (\<forall>fc \<in> set (by_operation s). fc_measure fc = OPS_F)"

lemma next_of_cases:
  assumes "next_of n t s = (r, s')"
  obtains (wait) "r = None" "s' = s" "pending s = [] \<or> \<not> (measured s \<and> due (hd (pending s)) n t)"
  | (release) f where "r = Some f" "pending s = f # pending s'" "measured s \<Longrightarrow> due f n t \<and> measured s'"
proof -
  consider (time) "itime s < length (by_time s)" | (ops) "itime s \<ge> length (by_time s)" "ioperation s < length (by_operation s)"
    | (none) "itime s \<ge> length (by_time s)" "ioperation s \<ge> length (by_operation s)" by linarith
  then show ?thesis
  proof cases
    case time
    let ?f = "by_time s ! itime s"
    have p: "pending s = ?f # pending (s\<lparr>itime := itime s + 1\<rparr>)" using time by (simp add: pending_def Cons_nth_drop_Suc)
    have m: "measured s \<Longrightarrow> fc_measure ?f = TIME_F" using time by (simp add: measured_def)
    show ?thesis
    proof (cases "fc_when ?f \<le> t")
      case True
      then show ?thesis using assms time p m by (intro release [of ?f]) (auto simp: next_of_def due_def measured_def)
    next
      case False
      then show ?thesis using assms time p m by (intro wait) (auto simp: next_of_def due_def)
    qed
  next
    case ops
    let ?f = "by_operation s ! ioperation s"
    have p: "pending s = ?f # pending (s\<lparr>ioperation := ioperation s + 1\<rparr>)" using ops by (simp add: pending_def Cons_nth_drop_Suc)
    have m: "measured s \<Longrightarrow> fc_measure ?f = OPS_F" using ops by (simp add: measured_def)
    show ?thesis
    proof (cases "fc_when ?f \<le> n")
      case True
      then show ?thesis using assms ops p m by (intro release [of ?f]) (auto simp: next_of_def due_def measured_def)
    next
      case False
      then show ?thesis using assms ops p m by (intro wait) (auto simp: next_of_def due_def)
    qed
  next
    case none
    then show ?thesis using assms wait by (auto simp: next_of_def pending_def)
  qed
qed

lemma releases_order:
  assumes "releases calls s = (fs, s')" and "measured s"
  shows "pending s = map fst fs @ pending s' \<and> (\<forall>(f, n, t) \<in> set fs. due f n t) \<and>
    ((\<forall>(n, t) \<in> set calls. \<forall>f \<in> set (pending s). due f n t) \<and> length (pending s) \<le> length calls \<longrightarrow> pending s' = [])"
  using assms
proof (induction calls s arbitrary: fs s' rule: releases.induct)
  case (2 n t calls s)
  obtain r s1 where r: "next_of n t s = (r, s1)" by fastforce
  obtain fs1 where rest: "releases calls s1 = (fs1, s')" and fs: "fs = (case r of None \<Rightarrow> fs1 | Some f \<Rightarrow> (f, n, t) # fs1)"
    using "2.prems"(1) r by (auto split: prod.splits)
  note IH = "2.IH" [OF r [symmetric] rest]
  from r show ?case
  proof (cases rule: next_of_cases)
    case wait
    have fs': "fs = fs1" and m: "measured s1" using wait(1,2) fs "2.prems"(2) by simp_all
    have IH': "pending s = map fst fs1 @ pending s'" "\<forall>(f, n, t) \<in> set fs1. due f n t"
      by (rule IH [OF m, THEN conjunct1, unfolded wait(2)], rule IH [OF m, THEN conjunct2, THEN conjunct1])
    show ?thesis unfolding fs'
    proof (intro conjI impI)
      show "pending s = map fst fs1 @ pending s'" "\<forall>(f, n, t) \<in> set fs1. due f n t" by (rule IH')+
      assume "(\<forall>(n, t) \<in> set ((n, t) # calls). \<forall>f \<in> set (pending s). due f n t) \<and> length (pending s) \<le> length ((n, t) # calls)"
      then have "\<forall>f \<in> set (pending s). due f n t" by simp
      then have "pending s = []" using wait(3) "2.prems"(2) by (cases "pending s") auto
      then show "pending s' = []" using IH'(1) by simp
    qed
  next
    case (release f)
    have s1: "measured s1" "due f n t" using release(3) "2.prems"(2) by simp_all
    have fs': "fs = (f, n, t) # fs1" using fs release(1) by simp
    note IH' = IH [OF s1(1)]
    have "pending s' = []" if due: "\<forall>(n, t) \<in> set ((n, t) # calls). \<forall>f \<in> set (pending s). due f n t"
      and len: "length (pending s) \<le> length ((n, t) # calls)"
    proof -
      have "\<forall>(n, t) \<in> set calls. \<forall>f \<in> set (pending s1). due f n t" using due unfolding release(2) by fastforce
      moreover have "length (pending s1) \<le> length calls" using len by (simp add: release(2))
      ultimately show ?thesis using IH' by blast
    qed
    moreover have "pending s = map fst fs @ pending s'"
      unfolding release(2) fs' using arg_cong [where f = "(#) f", OF IH' [THEN conjunct1]] by simp
    moreover have "\<forall>(f, n, t) \<in> set fs. due f n t" using IH' s1(2) by (simp add: fs')
    ultimately show ?thesis by blast
  qed
qed simp

text \<open>
  (C14) The schedule of a process: whatever the times and operation counts of the calls, every
  fault is released at most once, in the order of the configuration (by time, then by
  operations), and none before it is due; and when every fault is due at every call, as many
  calls as there are faults release all of them.
\<close>

theorem schedule_releases_in_order:
  assumes "confs_ok s" and "releases calls s = (fs, s')"
  shows "by_time s @ by_operation s = map fst fs @ pending s' \<and> (\<forall>(f, n, t) \<in> set fs. due f n t) \<and>
    ((\<forall>(n, t) \<in> set calls. \<forall>f \<in> set (by_time s @ by_operation s). due f n t) \<and>
     length (by_time s @ by_operation s) \<le> length calls \<longrightarrow> pending s' = [])"
proof -
  have "measured s" "pending s = by_time s @ by_operation s"
    using assms(1) by (auto simp: confs_ok_def measured_def fault_ok_def pending_def)
  from releases_order [OF assms(2) this(1), unfolded this(2)] show ?thesis .
qed

text \<open>
  Faults by operations wait for those by time: as long as the next fault by time is not
  due, no call releases anything, however many operations have been performed.
\<close>

lemma operation_faults_wait_for_time:
  assumes "itime s < length (by_time s)" and "\<forall>(n, t) \<in> set calls. t < fc_when (by_time s ! itime s)"
  shows "releases calls s = ([], s)"
  using assms(2)
proof (induction calls)
  case (Cons call calls)
  obtain n t where call: "call = (n, t)" by (cases call)
  have "next_of n t s = (None, s)" using assms(1) Cons.prems by (auto simp: next_of_def call Let_def)
  with Cons show ?case by (simp add: call)
qed simp

section \<open>Concrete evaluations\<close>

fun ins_by :: "(fault_conf \<Rightarrow> fault_conf \<Rightarrow> int) \<Rightarrow> fault_conf \<Rightarrow> fault_conf list \<Rightarrow> fault_conf list" where
  "ins_by cmp x [] = [x]"
| "ins_by cmp x (y # ys) = (if cmp x y \<le> 0 then x # y # ys else y # ins_by cmp x ys)"

fun isort_by :: gsort where
  "isort_by cmp [] = []"
| "isort_by cmp (x # xs) = ins_by cmp x (isort_by cmp xs)"

lemma mset_ins_by: "mset (ins_by cmp x xs) = add_mset x (mset xs)"
  by (induction xs) auto

lemma mset_isort_by: "mset (isort_by cmp xs) = mset xs"
  by (induction xs) (auto simp: mset_ins_by)

lemma sorted_ins_by:
  "sorted_wrt (\<lambda>a b. cmp a b \<le> 0) xs \<Longrightarrow> comparison_on cmp (insert x (set xs)) \<Longrightarrow>
   sorted_wrt (\<lambda>a b. cmp a b \<le> 0) (ins_by cmp x xs)"
proof (induction xs)
  case (Cons y ys)
  have total: "cmp x y \<le> 0 \<or> cmp y x \<le> 0" and trans: "\<And>z. z \<in> set ys \<Longrightarrow> cmp x y \<le> 0 \<Longrightarrow> cmp y z \<le> 0 \<Longrightarrow> cmp x z \<le> 0"
    using Cons.prems(2) unfolding comparison_on_def list.set by blast+
  have set: "set (ins_by cmp x ys) = insert x (set ys)" by (metis mset_ins_by set_mset_add_mset_insert set_mset_mset)
  have "comparison_on cmp (insert x (set ys))" using Cons.prems(2) by (rule comparison_on_subset) auto
  then have IH: "sorted_wrt (\<lambda>a b. cmp a b \<le> 0) (ins_by cmp x ys)" using Cons.IH Cons.prems(1) by simp
  show ?case
  proof (cases "cmp x y \<le> 0")
    case True
    then show ?thesis using Cons.prems(1) trans by simp
  next
    case False
    then show ?thesis using Cons.prems(1) total IH by (simp add: set)
  qed
qed simp

lemma isort_by_ok: "gsort_ok isort_by"
proof -
  have "comparison_on cmp (set xs) \<Longrightarrow> sorted_wrt (\<lambda>a b. cmp a b \<le> 0) (isort_by cmp xs)" for cmp xs
  proof (induction xs)
    case (Cons x xs)
    have set: "set (isort_by cmp xs) = set xs" by (rule mset_eq_setD [OF mset_isort_by])
    have "comparison_on cmp (set xs)" using Cons.prems by (rule comparison_on_subset) auto
    with Cons have "sorted_wrt (\<lambda>a b. cmp a b \<le> 0) (ins_by cmp x (isort_by cmp xs))"
      by (intro sorted_ins_by) (simp_all add: set)
    then show ?case by simp
  qed simp
  then show ?thesis by (simp add: gsort_ok_def mset_isort_by)
qed

abbreviation junk_fault :: fault_conf where
  "junk_fault \<equiv> \<lparr>fc_mode = 0, fc_measure = 0, fc_when = 0, fc_dist = 0, fc_type = 0, fc_persistent = False, fc_proc_id = 0,
     fc_operation = 0, fc_extra_type = 0, fc_extra = None\<rparr>"

abbreviation junk_block :: "nat \<Rightarrow> block_info" where
  "junk_block \<equiv> (\<lambda>_. \<lparr>cont_id = 0, procid = 0, ts = 0\<rparr>)"

definition demo_tokens :: "yaml_token list" where
  \<comment> \<open>one fault: a bit flip of the most duplicated block, at the fifth operation\<close>
  "demo_tokens =
     [Stream_Start, Block_Mapping_Start, Key, Scalar ''faults'', Value, Block_Sequence_Start, Block_Entry, Block_Mapping_Start,
      Key, Scalar ''type'', Value, Scalar ''bit_flip'', Key, Scalar ''operation'', Value, Scalar ''write'',
      Key, Scalar ''target'', Value, Scalar ''top_block'', Key, Scalar ''when_operation'', Value, Scalar ''5'',
      Block_End, Block_End, Block_End, Stream_End]"

abbreviation demo_flip :: fault_conf where
  "demo_flip \<equiv> junk_fault\<lparr>fc_mode := 1, fc_measure := OPS_F, fc_when := 5, fc_dist := TOP_DUP, fc_type := 1, fc_operation := 1\<rparr>"

lemma demo_tokens_parsed:
  "parse_faults_configuration_yaml isort_by junk_block junk_fault ((initial_conf 0)\<lparr>nprocs := 1\<rparr>) demo_tokens =
     Some (Inr \<lparr>runtime_faults = [\<lparr>by_time = [], by_operation = [demo_flip], itime = 0, ioperation = 0\<rparr>],
       last_block = [junk_block 0], next_block = [junk_block 0], runtime_nprocs = 1, nunique_injected = 0, avoid_repeat_faults = False\<rparr>)"
  by code_simp

lemma fault_conf_needs_one_process_example:
  "parse_faults_configuration_yaml isort_by junk_block junk_fault (initial_conf 0) demo_tokens \<noteq>
     Some (Inr \<lparr>runtime_faults = [], last_block = [], next_block = [], runtime_nprocs = 4, nunique_injected = 0, avoid_repeat_faults = False\<rparr>)"
  by (rule fault_conf_needs_one_process) (simp add: initial_conf_def)


abbreviation demo_schedule :: sorted_fault_confs where
  "demo_schedule \<equiv> \<lparr>by_time = [demo_flip\<lparr>fc_measure := TIME_F, fc_when := 9\<rparr>], by_operation = [demo_flip], itime = 0, ioperation = 0\<rparr>"

theorem schedule_releases_in_order_witness:
  "\<exists>fs s'. releases [(7, 9), (8, 20)] demo_schedule = (fs, s') \<and> pending s' = [] \<and>
    map fst fs = [demo_flip\<lparr>fc_measure := TIME_F, fc_when := 9\<rparr>, demo_flip]"
proof -
  obtain fs s' where r: "releases [(7, 9), (8, 20)] demo_schedule = (fs, s')" by fastforce
  have "confs_ok demo_schedule" by (simp add: confs_ok_def fault_ok_def)
  from schedule_releases_in_order [OF this r] r show ?thesis by (simp add: due_def)
qed

lemma operation_faults_wait_for_time_witness:
  "releases [(1000000, 3), (2000000, 8)] demo_schedule = ([], demo_schedule)"
  by (rule operation_faults_wait_for_time) simp_all

end
