(* ===== verification/Dedis_Access.thy ===== *)
theory Dedis_Access
  imports Dedis_Conf
begin

text \<open>
  \<^verbatim>\<open>dedisbench/benchcore/accesses/iodist.c\<close>: which block of the file or device the next
  operation addresses. The module's two global variables are the record \<open>nurand\<close>.
\<close>

record nurand =
  a_nurand :: u64
  c_nurand :: u64

definition initialize_nurand :: "'s rng \<Rightarrow> 's \<Rightarrow> u64 \<Rightarrow> (nurand \<times> 's) res option" where
  "initialize_nurand g s totb =
     (let a = totb div 10 in
      obind (genrand g s (a + 1)) (\<lambda>(c, s'). Some (Inr (\<lparr>a_nurand = a, c_nurand = c\<rparr>, s'))))"

definition init_ioposition :: "'s rng \<Rightarrow> 's \<Rightarrow> nurand \<Rightarrow> user_confs \<Rightarrow> (nurand \<times> 's) res option" where
  "init_ioposition g s nu conf =
     (if accesstype conf = TPCC then initialize_nurand g s (totblocks conf) else Some (Inr (nu, s)))"

definition get_ioposition_tpcc :: "'s rng \<Rightarrow> 's \<Rightarrow> nurand \<Rightarrow> u64 \<Rightarrow> u64 \<Rightarrow> (u64 \<times> 's) res option" where
  "get_ioposition_tpcc g s nu totb bsize =
     (let x = 0; y = totb - 1 in
      obind (genrand g s (a_nurand nu)) (\<lambda>(r1, s1).
      obind (genrand g s1 y) (\<lambda>(r2, s2).
        if y - x + 1 = 0 then Some (Inl Div_By_Zero)
        else let res = (((r1 OR r2) + c_nurand nu) mod (y - x + 1)) + x
             in Some (Inr (res * bsize, s2)))))"

definition get_ioposition_uniform :: "'s rng \<Rightarrow> 's \<Rightarrow> u64 \<Rightarrow> u64 \<Rightarrow> (u64 \<times> 's) res option" where
  "get_ioposition_uniform g s totb bsize =
     obind (genrand g s (totb - 1)) (\<lambda>(res, s'). Some (Inr (res * bsize, s')))"

definition get_ioposition_seq :: "u64 \<Rightarrow> u64 \<Rightarrow> u64 \<Rightarrow> u64 res" where
  "get_ioposition_seq totb cont bsize =
     (if totb = 0 then Inl Div_By_Zero else Inr ((cont mod totb) * bsize))"

definition get_ioposition ::
    "'s rng \<Rightarrow> 's \<Rightarrow> nurand \<Rightarrow> user_confs \<Rightarrow> stats \<Rightarrow> int \<Rightarrow> (u64 \<times> 's) res option" where
  "get_ioposition g s nu conf stat idproc =
     (if rawdevice conf = 1 \<and> nprocs conf = 0 then Some (Inl Div_By_Zero)
      else let total_blocks = (if rawdevice conf = 1 then totblocks conf div word_of_int (nprocs conf)
                               else totblocks conf) in
      obind (if accesstype conf = SEQUENTIAL
               then Some (map_sum id (\<lambda>p. (p, s)) (get_ioposition_seq total_blocks (tot_ops stat) (block_size conf)))
             else if accesstype conf = UNIFORM
               then get_ioposition_uniform g s total_blocks (block_size conf)
             else get_ioposition_tpcc g s nu total_blocks (block_size conf)) (\<lambda>(iooffset, s').
        Some (Inr (if rawdevice conf = 1
                   then (total_blocks * block_size conf) * word_of_int idproc + iooffset
                   else iooffset, s'))))"

section \<open>Blocks, not bytes\<close>

text \<open>
  \<open>in_blocks n bs off\<close>: the offset is the address of one of the first \<open>n\<close> blocks.
\<close>

definition in_blocks :: "nat \<Rightarrow> nat \<Rightarrow> u64 \<Rightarrow> bool" where
  "in_blocks n bs off \<longleftrightarrow> (\<exists>i < n. unat off = i * bs)"

lemma unat_block:
  fixes i bs :: u64
  assumes "unat i < n" and "n * unat bs < 2 ^ 64"
  shows "unat (i * bs) = unat i * unat bs"
proof (rule unat_mult_small)
  have "unat i * unat bs \<le> n * unat bs" using assms(1) by (intro mult_right_mono) simp_all
  from order_le_less_trans [OF this assms(2)] show "unat i * unat bs < 2 ^ LENGTH(64)" by simp
qed

lemma unat_mod_less: "(m :: u64) \<noteq> 0 \<Longrightarrow> unat (x mod m) < unat m"
  by (simp add: unat_mod_distrib word_gt_0 unat_gt_0)

lemma get_ioposition_seq_block:
  assumes "0 < totb" and "unat totb * unat bs < 2 ^ 64"
  shows "\<exists>p. get_ioposition_seq totb cont bs = Inr p \<and> unat p = (unat cont mod unat totb) * unat bs"
proof -
  have nz: "totb \<noteq> 0" using assms(1) by (simp add: word_gt_0)
  have "unat (cont mod totb * bs) = unat (cont mod totb) * unat bs"
    using unat_mod_less [OF nz] assms(2) by (rule unat_block)
  then show ?thesis using nz by (simp add: get_ioposition_seq_def unat_mod_distrib)
qed

lemma get_ioposition_uniform_block:
  assumes "1 < totb" and "unat totb * unat bs < 2 ^ 64" and "totb < 2 ^ 63"
  shows "\<exists>p s'. get_ioposition_uniform g s totb bs = Some (Inr (p, s')) \<and> in_blocks (unat totb - 1) (unat bs) p"
proof -
  have t: "unat (totb - 1) = unat totb - 1" "totb - 1 \<noteq> 0"
    using assms(1) unat_sub_of_nat [of 1 totb] by (auto simp: word_less_nat_alt)
  then have small: "totb - 1 < 2 ^ 63" using assms(3) by (simp add: word_less_nat_alt)
  define r where "r = ucast (fst (gen_rand32 g s)) mod (totb - 1)"
  have r: "unat r < unat totb - 1" using unat_mod_less [OF t(2)] t(1) by (simp add: r_def)
  moreover have "unat (r * bs) = unat r * unat bs"
    using r assms(2) by (intro unat_block [of _ "unat totb"]) simp_all
  ultimately show ?thesis
    using t(2) small genrand_draw [of g s "totb - 1"]
    by (auto simp: get_ioposition_uniform_def in_blocks_def r_def)
qed

lemma get_ioposition_tpcc_block:
  assumes "1 < totb" and "unat totb * unat bs < 2 ^ 64" and "totb < 2 ^ 63"
    and "0 < a_nurand nu" and "a_nurand nu < 2 ^ 63"
  shows "\<exists>p s'. get_ioposition_tpcc g s nu totb bs = Some (Inr (p, s')) \<and> in_blocks (unat totb) (unat bs) p"
proof -
  have t: "totb - 1 \<noteq> 0" "totb - 1 < 2 ^ 63"
    using assms(1,3) unat_sub_of_nat [of 1 totb] by (auto simp: word_less_nat_alt)
  have nz: "totb \<noteq> 0" "a_nurand nu \<noteq> 0" using assms(1,4) by (auto simp: word_gt_0)
  obtain r1 s1 where r1: "genrand g s (a_nurand nu) = Some (Inr (r1, s1))"
    using genrand_draw [of g s "a_nurand nu"] nz(2) assms(5) by simp
  obtain r2 s2 where r2: "genrand g s1 (totb - 1) = Some (Inr (r2, s2))"
    using genrand_draw [of g s1 "totb - 1"] t by simp
  define r where "r = ((r1 OR r2) + c_nurand nu) mod totb"
  have "unat r < unat totb" using unat_mod_less [OF nz(1)] by (simp add: r_def)
  moreover from this have "unat (r * bs) = unat r * unat bs" using assms(2) by (rule unat_block)
  moreover have "get_ioposition_tpcc g s nu totb bs = Some (Inr (r * bs, s2))"
    using nz by (simp add: get_ioposition_tpcc_def r1 r2 r_def Let_def)
  ultimately show ?thesis by (auto simp: in_blocks_def)
qed

definition accesses_ok :: "nurand \<Rightarrow> user_confs \<Rightarrow> bool" where
  \<comment> \<open>what the access functions need: a file that is not too big and not too small\<close>
  "accesses_ok nu conf \<longleftrightarrow> unat (totblocks conf) * unat (block_size conf) < 2 ^ 64 \<and> totblocks conf < 2 ^ 63 \<and>
     (if accesstype conf = SEQUENTIAL then 0 < totblocks conf
      else 1 < totblocks conf \<and> (accesstype conf = UNIFORM \<or> 0 < a_nurand nu \<and> a_nurand nu < 2 ^ 63))"

lemma in_blocks_pred: "in_blocks (n - Suc 0) bs p \<Longrightarrow> in_blocks n bs p"
  by (auto simp: in_blocks_def intro: order_less_le_trans [OF _ diff_le_self])

lemma get_ioposition_file_block:
  assumes "accesses_ok nu conf" and "rawdevice conf \<noteq> 1"
  shows "\<exists>p s'. get_ioposition g s nu conf stat idproc = Some (Inr (p, s')) \<and>
    in_blocks (unat (totblocks conf)) (unat (block_size conf)) p"
proof -
  consider "accesstype conf = SEQUENTIAL" | "accesstype conf = UNIFORM"
    | "accesstype conf \<noteq> SEQUENTIAL" "accesstype conf \<noteq> UNIFORM" by blast
  then show ?thesis
  proof cases
    case 1
    with assms(1) have pos: "0 < totblocks conf" by (simp add: accesses_ok_def)
    with assms(1) get_ioposition_seq_block [OF pos, of "block_size conf" "tot_ops stat"] obtain p where
      "get_ioposition_seq (totblocks conf) (tot_ops stat) (block_size conf) = Inr p"
      "unat p = (unat (tot_ops stat) mod unat (totblocks conf)) * unat (block_size conf)"
      by (auto simp: accesses_ok_def)
    moreover have "unat (tot_ops stat) mod unat (totblocks conf) < unat (totblocks conf)"
      using pos by (simp add: word_less_nat_alt)
    ultimately show ?thesis using 1 assms(2) by (auto simp: get_ioposition_def in_blocks_def)
  next
    case 2
    with assms(1) get_ioposition_uniform_block [of "totblocks conf" "block_size conf" g s]
    show ?thesis using assms(2)
      by (auto simp: accesses_ok_def get_ioposition_def dest: in_blocks_pred)
  next
    case 3
    with assms(1) get_ioposition_tpcc_block [of "totblocks conf" "block_size conf" nu g s]
    show ?thesis using assms(2) by (auto simp: accesses_ok_def get_ioposition_def)
  qed
qed

text \<open>
  (C32) Every operation on a file stays inside it: whatever the access type and whatever the
  random generator draws, \<open>get_ioposition\<close> returns, and the offset it returns is the address of
  one of the blocks of the file, a multiple of the block size below the size of the file.
\<close>

theorem ioposition_in_file:
  assumes "accesses_ok nu conf" and "rawdevice conf \<noteq> 1"
  shows "\<exists>p s'. get_ioposition g s nu conf stat idproc = Some (Inr (p, s')) \<and>
    (\<exists>i < unat (totblocks conf). unat p = i * unat (block_size conf))"
  using get_ioposition_file_block [OF assms, of g s stat idproc] by (simp add: in_blocks_def)

lemma unat_word_of_int: "0 \<le> n \<Longrightarrow> n < 2 ^ 63 \<Longrightarrow> unat (word_of_int n :: u64) = nat n"
  using unat_of_nat_small [of "nat n", where 'a = 64] by (simp add: nat_less_iff)

lemma get_ioposition_raw:
  assumes "rawdevice conf = 1" and "nprocs conf \<noteq> 0"
    and "part = totblocks conf div word_of_int (nprocs conf)"
  shows "get_ioposition g s nu conf stat idproc =
    obind (get_ioposition g s nu (conf\<lparr>totblocks := part, rawdevice := 0\<rparr>) stat idproc)
      (\<lambda>(p, s'). Some (Inr ((part * block_size conf) * word_of_int idproc + p, s')))"
proof -
  have assoc: "obind (obind m (\<lambda>(p, s'). Some (Inr (p, s')))) f = obind m f" for m f
    by (auto simp: obind_def split: option.splits sum.splits prod.splits)
  show ?thesis using assms by (simp add: get_ioposition_def Let_def assoc)
qed

lemma part_address:
  fixes part bs p :: u64
  assumes "i < unat part" and "unat p = i * unat bs" and "Suc k * unat part * unat bs < 2 ^ 64" and "k < 2 ^ 63"
  shows "unat ((part * bs) * word_of_nat k + p) = (k * unat part + i) * unat bs"
proof -
  let ?n = "k * unat part * unat bs"
  have "i * unat bs \<le> unat part * unat bs" using assms(1) by (intro mult_right_mono) simp_all
  then have le: "?n + i * unat bs \<le> Suc k * unat part * unat bs" by (simp add: algebra_simps)
  have eq: "(part * bs) * word_of_nat k + p = (word_of_nat (?n + i * unat bs) :: u64)"
    using assms(2) by (simp add: mult.commute mult.left_commute flip: assms(2))
  have "unat ((part * bs) * word_of_nat k + p) = ?n + i * unat bs"
    unfolding eq by (rule unat_of_nat_small) (use order_le_less_trans [OF le assms(3)] in simp)
  then show ?thesis by (simp add: algebra_simps)
qed

lemma get_ioposition_raw_block:
  assumes "accesses_ok nu (conf\<lparr>totblocks := totblocks conf div word_of_int (nprocs conf), rawdevice := 0\<rparr>)"
    and "rawdevice conf = 1" and "0 < nprocs conf" and "nprocs conf < 2 ^ 31"
    and "0 \<le> idproc" and "idproc < nprocs conf"
    and "unat (totblocks conf) * unat (block_size conf) < 2 ^ 64"
  shows "\<exists>p s'. get_ioposition g s nu conf stat idproc = Some (Inr (p, s')) \<and>
    (\<exists>i < unat (totblocks conf) div nat (nprocs conf).
       unat p = (nat idproc * (unat (totblocks conf) div nat (nprocs conf)) + i) * unat (block_size conf)) \<and>
    (nat idproc + 1) * (unat (totblocks conf) div nat (nprocs conf)) \<le> unat (totblocks conf)"
proof -
  let ?m = "nat (nprocs conf)" and ?k = "nat idproc" and ?bs = "unat (block_size conf)"
  define part where "part = totblocks conf div word_of_int (nprocs conf)"
  have nz: "nprocs conf \<noteq> 0" using assms(3) by simp
  have part: "unat part = unat (totblocks conf) div ?m"
    using assms(3,4) by (simp add: part_def unat_div_distrib unat_word_of_int)
  have "Suc ?k \<le> ?m" using assms(5,6) by linarith
  then have "Suc ?k * unat part \<le> ?m * unat part" by (rule mult_right_mono) simp
  also have "\<dots> \<le> unat (totblocks conf)" by (simp add: part)
  finally have fit: "Suc ?k * unat part \<le> unat (totblocks conf)" .
  then have small: "Suc ?k * unat part * ?bs < 2 ^ 64"
    using mult_right_mono [OF fit, of ?bs] assms(7) by linarith
  from get_ioposition_file_block [OF assms(1), of g s stat idproc] obtain p s' i where
    p: "get_ioposition g s nu (conf\<lparr>totblocks := part, rawdevice := 0\<rparr>) stat idproc = Some (Inr (p, s'))"
      "i < unat part" "unat p = i * ?bs"
    by (auto simp: in_blocks_def simp flip: part_def)
  have "get_ioposition g s nu conf stat idproc =
      Some (Inr ((part * block_size conf) * word_of_nat ?k + p, s'))"
    using get_ioposition_raw [OF assms(2) nz part_def, of g s nu stat idproc] p(1) assms(5) by simp
  moreover have "unat ((part * block_size conf) * word_of_nat ?k + p) = (?k * unat part + i) * ?bs"
    using p(2,3) small assms(4,6) by (intro part_address) auto
  ultimately show ?thesis using p(2) fit part by auto
qed

text \<open>
  (C33) On a raw device every process works on a part of its own: with \<open>m\<close> processes and parts
  of \<open>totblocks div m\<close> blocks, process \<open>k\<close> addresses block \<open>k * (totblocks div m) + i\<close> for some
  \<open>i\<close> below the size of a part. The parts of different processes are disjoint and inside the
  device.
\<close>

theorem rawdevice_parts:
  assumes "accesses_ok nu (conf\<lparr>totblocks := totblocks conf div word_of_int (nprocs conf), rawdevice := 0\<rparr>)"
    and "rawdevice conf = 1" and "0 < nprocs conf" and "nprocs conf < 2 ^ 31"
    and "0 \<le> idproc" and "idproc < nprocs conf"
    and "unat (totblocks conf) * unat (block_size conf) < 2 ^ 64"
  shows "\<exists>p s'. get_ioposition g s nu conf stat idproc = Some (Inr (p, s')) \<and>
    (\<exists>i < unat (totblocks conf) div nat (nprocs conf).
       unat p = (nat idproc * (unat (totblocks conf) div nat (nprocs conf)) + i) * unat (block_size conf)) \<and>
    (nat idproc + 1) * (unat (totblocks conf) div nat (nprocs conf)) \<le> unat (totblocks conf)"
  by (rule get_ioposition_raw_block [OF assms])

section \<open>Two limits of the access distributions\<close>

text \<open>
  The uniform distribution leaves out the last block: whatever is drawn, the address is
  that of one of the first \<open>totb - 1\<close> blocks.
\<close>

lemma uniform_skips_last_block:
  assumes "1 < totb" and "unat totb * unat bs < 2 ^ 64" and "totb < 2 ^ 63"
  shows "\<exists>p s'. get_ioposition_uniform g s totb bs = Some (Inr (p, s')) \<and>
    (\<exists>i < unat totb - 1. unat p = i * unat bs)"
  using get_ioposition_uniform_block [OF assms, of g s] by (simp add: in_blocks_def)

text \<open>
  Small files divide by zero: the uniform distribution on a file of one block, and the
  TPC-C distribution on a file of fewer than ten blocks, once it is initialised.
\<close>

lemma small_file_divides_by_zero:
  "get_ioposition_uniform g s 1 bs = Some (Inl Div_By_Zero) \<and>
   (totb < 10 \<longrightarrow> (\<exists>nu s'. initialize_nurand g s totb = Some (Inr (nu, s')) \<and>
      get_ioposition_tpcc g s' nu totb bs = Some (Inl Div_By_Zero)))"
proof (intro conjI impI)
  show "get_ioposition_uniform g s 1 bs = Some (Inl Div_By_Zero)"
    by (simp add: get_ioposition_uniform_def genrand_draw)
  assume "totb < 10"
  then have "totb div 10 = 0" by (simp add: div_word_less)
  then have "initialize_nurand g s totb =
      Some (Inr (\<lparr>a_nurand = 0, c_nurand = 0\<rparr>, snd (gen_rand32 g s)))"
    by (simp add: initialize_nurand_def genrand_draw)
  moreover have "get_ioposition_tpcc g s' \<lparr>a_nurand = 0, c_nurand = 0\<rparr> totb bs = Some (Inl Div_By_Zero)" for s'
    by (simp add: get_ioposition_tpcc_def genrand_draw Let_def)
  ultimately show "\<exists>nu s'. initialize_nurand g s totb = Some (Inr (nu, s')) \<and>
      get_ioposition_tpcc g s' nu totb bs = Some (Inl Div_By_Zero)" by blast
qed

section \<open>Concrete evaluations\<close>

definition demo_rng :: "nat rng" where
  "demo_rng = \<lparr>gen_rand32 = (\<lambda>n. (word_of_nat (7 * n + 5), Suc n)), gen_rand64 = (\<lambda>n. Inr (word_of_nat n, Suc n))\<rparr>"

definition demo_conf :: user_confs where
  "demo_conf = (initial_conf 0)\<lparr>totblocks := 100\<rparr>"

theorem ioposition_in_file_witness:
  "\<exists>p s'. get_ioposition demo_rng 3 \<lparr>a_nurand = 10, c_nurand = 4\<rparr> demo_conf initial_stats 0 = Some (Inr (p, s')) \<and>
    (\<exists>i < 100. unat p = i * 4096)"
  using ioposition_in_file [of "\<lparr>a_nurand = 10, c_nurand = 4\<rparr>" demo_conf demo_rng 3 initial_stats 0]
  by (simp add: accesses_ok_def demo_conf_def initial_conf_def)

theorem rawdevice_parts_witness:
  "\<exists>p s'. get_ioposition demo_rng 3 \<lparr>a_nurand = 10, c_nurand = 4\<rparr> (demo_conf\<lparr>rawdevice := 1\<rparr>) initial_stats 2 =
      Some (Inr (p, s')) \<and> (\<exists>i < 25. unat p = (50 + i) * 4096)"
  using rawdevice_parts [of "\<lparr>a_nurand = 10, c_nurand = 4\<rparr>" "demo_conf\<lparr>rawdevice := 1\<rparr>" 2 demo_rng 3 initial_stats]
  by (simp add: accesses_ok_def demo_conf_def initial_conf_def)

lemma uniform_skips_last_block_witness:
  "\<exists>p s'. get_ioposition_uniform demo_rng 3 8 4096 = Some (Inr (p, s')) \<and> (\<exists>i < 7. unat p = i * 4096)"
  using uniform_skips_last_block [of 8 4096 demo_rng 3] by simp

lemma small_file_divides_by_zero_witness:
  "get_ioposition_uniform demo_rng 3 1 4096 = Some (Inl Div_By_Zero) \<and>
   (\<exists>nu s'. initialize_nurand demo_rng 3 9 = Some (Inr (nu, s')) \<and>
      get_ioposition_tpcc demo_rng s' nu 9 4096 = Some (Inl Div_By_Zero))"
  using small_file_divides_by_zero [of demo_rng 3 4096 9] by simp

end
