(* ===== verification/Dedis_Io.thy ===== *)
theory Dedis_Io
  imports Dedis_Access Dedis_Duplicates
begin

text \<open>
  \<^verbatim>\<open>dedisbench/benchcore/io.c\<close> and \<^verbatim>\<open>dedisbench/benchcore/sharedmem/sharedmem.c\<close>: the requests of a
  process, and the memory the processes share, with the proof that its regions neither overlap
  nor leave it.
\<close>

section \<open>Requests\<close>

definition init_io ::
    "(u64 \<Rightarrow> 's) \<Rightarrow> 's rng \<Rightarrow> nurand \<Rightarrow> user_confs \<Rightarrow> int \<Rightarrow> (int \<times> nurand \<times> 's) res option" where
  \<comment> \<open>\<open>init_rand\<close> seeds the generator; every process has its own seed\<close>
  "init_io init_rand g nu conf pid =
     obind (init_ioposition g (init_rand (seed conf + word_of_int pid)) nu conf) (\<lambda>(nu', s).
       Some (Inr (0, nu', s)))"

definition write_request ::
    "'s rng \<Rightarrow> 's \<Rightarrow> u64 \<Rightarrow> nurand \<Rightarrow> user_confs \<Rightarrow> duplicates_info \<Rightarrow> stats \<Rightarrow> int
      \<Rightarrow> (u64 \<times> string \<times> duplicates_info \<times> stats \<times> block_info \<times> 's) res option" where
  "write_request g s tunique nu conf info stat idproc =
     obind (get_writecontent g s tunique conf info stat idproc) (\<lambda>(buf, info', stat', b, s').
     obind (get_ioposition g s' nu conf stat' idproc) (\<lambda>(off, s'').
       Some (Inr (off, buf, info', stat', b, s''))))"

definition read_request ::
    "'s rng \<Rightarrow> 's \<Rightarrow> nurand \<Rightarrow> user_confs \<Rightarrow> stats \<Rightarrow> int \<Rightarrow> (u64 \<times> 's) res option" where
  "read_request g s nu conf stat idproc = get_ioposition g s nu conf stat idproc"

section \<open>Memory of one process\<close>

definition loadmem :: "(nat \<Rightarrow> u64) \<Rightarrow> (nat \<Rightarrow> u64) \<Rightarrow> duplicates_info \<Rightarrow> int \<times> duplicates_info" where
  \<comment> \<open>\<open>junk\<close>: what the fresh memory holds\<close>
  "loadmem junk junk' info =
     (let n = unat (duplicated_blocks info)
      in (1, info\<lparr>di_sum := map junk [0..<n], di_stats := map junk' [0..<n]\<rparr>))"

section \<open>Shared memory\<close>

text \<open>
  The answers of the operating system: the descriptor of \<^verbatim>\<open>open\<close>, the offset \<^verbatim>\<open>lseek\<close> returns for
  an offset, the number of bytes \<^verbatim>\<open>write\<close> writes, whether \<^verbatim>\<open>mmap\<close> fails, and the words of the
  mapped file, which is opened without \<^verbatim>\<open>O_TRUNC\<close>.
\<close>

record shm_os =
  os_open :: int
  os_lseek :: "u64 \<Rightarrow> int"
  os_write :: int
  os_mmap_failed :: bool
  os_words :: "u64 list"

record shm_layout =
  sharedmem_size :: u64
  fd_shared :: int
  statistics_at :: u64  \<comment> \<open>byte offsets from \<^verbatim>\<open>*mem\<close>\<close>
  sum_at :: u64
  stats_at :: u64
  zerodups_at :: u64
  content_map_at :: u64
  content_tracker_at :: "u64 list"

definition to_int :: "int \<Rightarrow> int" where
  \<comment> \<open>the conversion of an \<^verbatim>\<open>off_t\<close> to an \<^verbatim>\<open>int\<close>\<close>
  "to_int x = sint (word_of_int x :: 32 word)"

definition shm_procs :: "user_confs \<Rightarrow> int" where
  "shm_procs conf =
     (let n = (if mixedIO conf = 1 then nprocs conf sdiv 2 else nprocs conf)
      in if rawdevice conf = 1 then 1 else n)"

definition block_at :: "u64 list \<Rightarrow> nat \<Rightarrow> block_info" where
  \<comment> \<open>a \<^verbatim>\<open>struct block_info\<close> of three words, with padding after \<^verbatim>\<open>procid\<close>\<close>
  "block_at ws k = \<lparr>cont_id = ws ! k, procid = sint (ucast (ws ! (k + 1)) :: 32 word), ts = ws ! (k + 2)\<rparr>"

definition loadmmap :: "shm_os \<Rightarrow> duplicates_info \<Rightarrow> user_confs \<Rightarrow> (shm_layout \<times> duplicates_info) res" where
  "loadmmap os info conf =
     (let nr_procs = shm_procs conf;
          d = duplicated_blocks info;
          size = 8 * (d * 3 + 1) + 24 * (totblocks conf * word_of_int nr_procs)
      in if os_open os = -1 then Inl (Exit 1)
      else if to_int (os_lseek os (size - 1)) = -1 then Inl (Exit 1)
      else if os_write os \<noteq> 1 then Inl (Exit 1)
      else if os_mmap_failed os then Inl (Exit 1)
      else let lay = \<lparr>sharedmem_size = size, fd_shared = os_open os, statistics_at = 0, sum_at = 8 * d,
                      stats_at = 8 * d + 8 * d, zerodups_at = 8 * d + 8 * d + 8 * d,
                      content_map_at = 8 * d + 8 * d + 8 * d + 8,
                      content_tracker_at = map (\<lambda>i. 8 * d + 8 * d + 8 * d + 8 + 24 * (word_of_nat i * totblocks conf)) [0..<nat nr_procs]\<rparr>;
               ws = os_words os;
               words = (\<lambda>at. slice (unat at div 8) (unat d) ws)
           in Inr (lay, info\<lparr>di_statistics := words (statistics_at lay), di_sum := words (sum_at lay),
                di_stats := words (stats_at lay), zerodups := 0,
                content_tracker := map (\<lambda>at. map (\<lambda>j. block_at ws (unat at div 8 + 3 * j)) [0..<unat (totblocks conf)])
                                     (content_tracker_at lay)\<rparr>))"

definition load_distribution ::
    "shm_os \<Rightarrow> (nat \<Rightarrow> u64) \<Rightarrow> (nat \<Rightarrow> u64) \<Rightarrow> string option \<Rightarrow> user_confs \<Rightarrow> duplicates_info \<Rightarrow> duplicates_info res" where
  \<comment> \<open>how \<^verbatim>\<open>main\<close> loads the distribution: statistics, memory, occurrences, accumulated occurrences\<close>
  "load_distribution os junk junk' fname conf info =
     rbind (get_distribution_stats info fname) (\<lambda>info1.
     rbind (if distout conf = 1 \<or> integrity conf \<ge> 1 \<or> fault_measure conf > 0
            then map_sum id snd (loadmmap os info1 conf)
            else Inr (snd (loadmem junk junk' info1))) (\<lambda>info2.
     rbind (load_duplicates info2 fname) (\<lambda>info3.
       load_cumulativedist info3 (distout conf))))"

section \<open>The regions of the shared memory\<close>

fun tiles :: "nat \<Rightarrow> (nat \<times> nat) list \<Rightarrow> nat \<Rightarrow> bool" where
  \<comment> \<open>the regions, given by offset and length, follow each other from \<open>a\<close> to \<open>b\<close> without overlap\<close>
  "tiles a [] b \<longleftrightarrow> a = b"
| "tiles a ((off, len) # rs) b \<longleftrightarrow> off = a \<and> tiles (a + len) rs b"

lemma tiles_append: "tiles a (rs @ rs') c \<longleftrightarrow> (\<exists>b. tiles a rs b \<and> tiles b rs' c)"
  by (induction a rs c rule: tiles.induct) auto

lemma tiles_rows:
  "(\<And>i. i < n \<Longrightarrow> f i = a + i * len) \<Longrightarrow> tiles a (map (\<lambda>i. (f i, len)) [0..<n]) (a + n * len)"
proof (induction n)
  case (Suc n)
  then have "tiles a (map (\<lambda>i. (f i, len)) [0..<n]) (a + n * len)" by simp
  with Suc.prems show ?case by (auto simp: tiles_append)
qed simp

definition shm_regions :: "u64 \<Rightarrow> u64 \<Rightarrow> shm_layout \<Rightarrow> (nat \<times> nat) list" where
  "shm_regions d totb lay =
     map (\<lambda>at. (unat at, 8 * unat d)) [statistics_at lay, sum_at lay, stats_at lay] @
     (unat (zerodups_at lay), 8) # map (\<lambda>at. (unat at, 24 * unat totb)) (content_tracker_at lay)"

lemma loadmmap_Inr:
  assumes "loadmmap os info conf = Inr (lay, info')"
  shows "lay = \<lparr>sharedmem_size = 8 * (duplicated_blocks info * 3 + 1) + 24 * (totblocks conf * word_of_int (shm_procs conf)),
      fd_shared = os_open os, statistics_at = 0, sum_at = 8 * duplicated_blocks info,
      stats_at = 8 * duplicated_blocks info + 8 * duplicated_blocks info,
      zerodups_at = 8 * duplicated_blocks info + 8 * duplicated_blocks info + 8 * duplicated_blocks info,
      content_map_at = 8 * duplicated_blocks info + 8 * duplicated_blocks info + 8 * duplicated_blocks info + 8,
      content_tracker_at = map (\<lambda>i. 8 * duplicated_blocks info + 8 * duplicated_blocks info + 8 * duplicated_blocks info + 8 +
        24 * (word_of_nat i * totblocks conf)) [0..<nat (shm_procs conf)]\<rparr>"
  using assms by (simp add: loadmmap_def Let_def split: if_splits)

lemmas word_of_nats = of_nat_add of_nat_mult of_nat_numeral word_of_unat

lemma shm_word_arith:
  fixes d t :: u64
  shows "8 * d + 8 * d = 16 * d" "16 * d + 8 * d = 24 * d"
    "8 * (d * 3 + 1) + 24 * (t * w) = 24 * d + 8 + w * (24 * t)"
proof -
  have "8 * d + 8 * d = (8 + 8) * d" "16 * d + 8 * d = (16 + 8) * d" by (simp_all only: distrib_right)
  then show "8 * d + 8 * d = 16 * d" "16 * d + 8 * d = 24 * d" by simp_all
  have "8 * (d * 3 + 1) = (8 * 3) * d + 8" by (simp only: distrib_left mult_1_left mult_1_right ac_simps)
  moreover have "24 * (t * w) = w * (24 * t)" by (simp only: ac_simps)
  ultimately show "8 * (d * 3 + 1) + 24 * (t * w) = 24 * d + 8 + w * (24 * t)" by simp
qed

text \<open>
  (C31) The shared memory is laid out without gaps and overlaps: the three arrays of the
  duplicate distribution, the counter of blocks without duplicates and one table of block
  contents per process follow each other and together are exactly the mapped file, provided
  its size fits 64 bits.
\<close>

theorem shared_memory_tiled:
  assumes "loadmmap os info conf = Inr (lay, info')" and "0 \<le> shm_procs conf"
    and "24 * unat (duplicated_blocks info) + 8 + 24 * (unat (totblocks conf) * nat (shm_procs conf)) < 2 ^ 64"
  shows "tiles 0 (shm_regions (duplicated_blocks info) (totblocks conf) lay) (unat (sharedmem_size lay))"
proof -
  let ?d = "unat (duplicated_blocks info)" and ?t = "unat (totblocks conf)" and ?n = "nat (shm_procs conf)"
  have n: "(word_of_int (shm_procs conf) :: u64) = word_of_nat ?n" using assms(2) by simp
  note lay = loadmmap_Inr [OF assms(1)]
  have bound: "24 * ?d + 8 + ?n * (24 * ?t) < 2 ^ 64"
    using assms(3) by (simp only: mult.left_commute [of ?n] mult.commute [of ?n])
  have at: "sum_at lay = word_of_nat (8 * ?d)" "stats_at lay = word_of_nat (16 * ?d)" "zerodups_at lay = word_of_nat (24 * ?d)"
    "sharedmem_size lay = word_of_nat (24 * ?d + 8 + ?n * (24 * ?t))"
    "statistics_at lay = 0"
    unfolding lay shm_layout.select_convs shm_word_arith n word_of_nats by (rule refl)+
  have row_at: "content_tracker_at lay = map (\<lambda>i. word_of_nat (24 * ?d + 8 + i * (24 * ?t))) [0..<?n]"
    unfolding lay shm_layout.select_convs shm_word_arith(1,2) word_of_nats by (simp only: mult.left_commute)
  have row: "unat (word_of_nat (24 * ?d + 8 + i * (24 * ?t)) :: u64) = 24 * ?d + 8 + i * (24 * ?t)" if "i < ?n" for i
  proof (rule unat_of_nat_small)
    have le: "i * (24 * ?t) \<le> ?n * (24 * ?t)" by (rule mult_right_mono [OF less_imp_le [OF that]]) simp
    with bound have "24 * ?d + 8 + i * (24 * ?t) < 2 ^ 64" by linarith
    then show "24 * ?d + 8 + i * (24 * ?t) < 2 ^ LENGTH(64)" by simp
  qed
  have sz: "unat (sharedmem_size lay) = 24 * ?d + 8 + ?n * (24 * ?t)"
    unfolding at(4) by (rule unat_of_nat_small) (use bound in simp)
  have "tiles (24 * ?d + 8) (map (\<lambda>at. (unat at, 24 * ?t)) (content_tracker_at lay)) (24 * ?d + 8 + ?n * (24 * ?t))"
    unfolding row_at map_map o_def by (rule tiles_rows) (rule row)
  moreover have "unat (sum_at lay) = 8 * ?d" "unat (stats_at lay) = 16 * ?d" "unat (zerodups_at lay) = 24 * ?d"
    unfolding at by (rule unat_of_nat_small, use bound in simp)+
  ultimately show ?thesis by (simp add: shm_regions_def sz at(5))
qed

abbreviation shm_conf :: user_confs where
  "shm_conf \<equiv> (initial_conf 0)\<lparr>totblocks := 2, mixedIO := 1, distout := 1\<rparr>"

abbreviation no_block :: block_info where
  "no_block \<equiv> \<lparr>cont_id = 0, procid = 0, ts = 0\<rparr>"

abbreviation empty_info :: duplicates_info where
  "empty_info \<equiv> \<lparr>duplicated_blocks = 0, total_blocks = 0, di_stats = [], di_sum = [], di_statistics = [], zerodups = 0,
     zero_copy_blocks = 0, u_count = 0, content_tracker = [], topblock = 0, botblock = 0, topblock_dups = 0,
     botblock_dups = 0, last_unique_block = no_block, last_block_written = no_block\<rparr>"

abbreviation good_os :: shm_os where
  "good_os \<equiv> \<lparr>os_open = 3, os_lseek = (\<lambda>off. uint off), os_write = 1, os_mmap_failed = False, os_words = replicate 22 0\<rparr>"

theorem shared_memory_tiled_witness:
  "tiles 0 (shm_regions 3 2 (fst (projr (loadmmap good_os (empty_info\<lparr>duplicated_blocks := 3\<rparr>) shm_conf)))) 176"
proof -
  obtain lay info' where r: "loadmmap good_os (empty_info\<lparr>duplicated_blocks := 3\<rparr>) shm_conf = Inr (lay, info')"
    by (simp add: loadmmap_def Let_def shm_procs_def to_int_def sint_word_ariths initial_conf_def)
  have p: "shm_procs shm_conf = 2" by (simp add: shm_procs_def initial_conf_def)
  have "totblocks shm_conf = 2" by simp
  from shared_memory_tiled [OF r] p r loadmmap_Inr [OF r] this show ?thesis by simp
qed

text \<open>
  The position \<^verbatim>\<open>lseek\<close> returns is stored in an \<^verbatim>\<open>int\<close>: when the size of the shared memory is
  a multiple of 4 GiB, a successful \<^verbatim>\<open>lseek\<close> is taken for a failure and the benchmark exits.
\<close>

lemma shared_memory_lseek_truncated:
  assumes "os_lseek os = uint" and "d + t * n = 357913941"
    and "shm_procs conf = int n" and "unat (duplicated_blocks info) = d" and "unat (totblocks conf) = t"
  shows "loadmmap os info conf = Inl (Exit 1)"
proof -
  let ?sz = "8 * (duplicated_blocks info * 3 + 1) + 24 * (totblocks conf * word_of_int (shm_procs conf)) :: u64"
  have "?sz = word_of_nat (8 + 24 * (unat (duplicated_blocks info) + unat (totblocks conf) * n))"
    unfolding shm_word_arith by (simp add: assms(3) distrib_left mult.left_commute mult.commute)
  also have "\<dots> = 2 ^ 33" using assms(2) by (simp add: assms(4,5))
  finally have sz: "?sz = 2 ^ 33" .
  have "to_int (uint (?sz - 1)) = -1" unfolding sz by (simp add: to_int_def)
  then show ?thesis by (simp add: loadmmap_def Let_def assms(1))
qed

lemma shared_memory_lseek_truncated_witness:
  "loadmmap good_os (empty_info\<lparr>duplicated_blocks := 357913937\<rparr>) shm_conf = Inl (Exit 1)"
  by (rule shared_memory_lseek_truncated [of _ 357913937 2 2]) (simp_all add: shm_procs_def fun_eq_iff initial_conf_def)

end
