(* ===== verification/Dedis_Populate.thy ===== *)
theory Dedis_Populate
  imports Dedis_Io
begin

text \<open>
  \<^verbatim>\<open>dedisbench/populate/populate.c\<close>: the files the benchmark works on, their initial contents, and
  the integrity check at the end. The system calls are a parameter \<open>'f file_io\<close> over a state \<open>'f\<close> of
  the file system: \<^verbatim>\<open>open\<close> with the flags \<^verbatim>\<open>O_CREAT\<close> and \<^verbatim>\<open>O_DIRECT\<close>, \<^verbatim>\<open>pwrite\<close>, \<^verbatim>\<open>pread\<close> with the bytes it
  stores, \<^verbatim>\<open>fsync\<close>, \<^verbatim>\<open>close\<close> and \<^verbatim>\<open>system\<close>. Loops over the blocks of a file are partial functions
  whose value None means that the loop does not end.
\<close>

record 'f file_io =
  io_open :: "bool \<Rightarrow> bool \<Rightarrow> string \<Rightarrow> 'f \<Rightarrow> int \<times> 'f"
  io_pwrite :: "int \<Rightarrow> string \<Rightarrow> u64 \<Rightarrow> 'f \<Rightarrow> int \<times> 'f"
  io_pread :: "int \<Rightarrow> u64 \<Rightarrow> u64 \<Rightarrow> 'f \<Rightarrow> int \<times> string \<times> 'f"
  io_fsync :: "int \<Rightarrow> 'f \<Rightarrow> 'f"
  io_close :: "int \<Rightarrow> 'f \<Rightarrow> 'f"
  io_system :: "string \<Rightarrow> 'f \<Rightarrow> int \<times> 'f"

lemma obind_bind: "obind m b = Option.bind m (\<lambda>r. case r of Inl e \<Rightarrow> Some (Inl e) | Inr x \<Rightarrow> b x)"
  by (auto simp: obind_def split: option.split sum.split)

lemma obind_mono [partial_function_mono]:
  assumes "mono_option A" and "\<And>x. mono_option (\<lambda>f. B x f)"
  shows "mono_option (\<lambda>f. obind (A f) (\<lambda>x. B x f))"
  unfolding obind_bind
proof (rule bind_mono [OF assms(1)])
  show "mono_option (\<lambda>f. case r of Inl e \<Rightarrow> Some (Inl e) | Inr x \<Rightarrow> B x f)" for r
    using assms(2) by (cases r) (auto intro: option.const_mono)
qed

section \<open>Files\<close>

abbreviation PATH_SIZE :: nat where "PATH_SIZE \<equiv> 100"

definition TMP_FILE :: string where
  "TMP_FILE = ''dedisbench_0010test''"

definition store_path :: "string \<Rightarrow> string res" where
  \<comment> \<open>a text in an array of \<open>PATH_SIZE\<close> characters\<close>
  "store_path s = (if length s < PATH_SIZE then Inr s else Inl Out_Of_Bounds)"

definition proc_text :: "int \<Rightarrow> string res" where
  \<comment> \<open>\<^verbatim>\<open>sprintf\<close> of a process number into \<^verbatim>\<open>char id[4]\<close>\<close>
  "proc_text p = (if length (show_int p) < 4 then Inr (show_int p) else Inl Out_Of_Bounds)"

definition pfile_name :: "user_confs \<Rightarrow> int \<Rightarrow> string res" where
  "pfile_name conf p = rbind (proc_text p) (\<lambda>t. store_path (tempfilespath conf @ TMP_FILE @ t))"

definition open_rawdev :: "'f file_io \<Rightarrow> string \<Rightarrow> user_confs \<Rightarrow> 'f \<Rightarrow> (int \<times> 'f) res" where
  "open_rawdev io path conf f =
     (case io_open io False (odirectf conf = 1) path f of (fd, f') \<Rightarrow>
        if fd = -1 then Inl (Exit 0) else Inr (fd, f'))"

definition create_pfile :: "'f file_io \<Rightarrow> int \<Rightarrow> user_confs \<Rightarrow> 'f \<Rightarrow> (int \<times> 'f) res" where
  "create_pfile io p conf f =
     rbind (pfile_name conf p) (\<lambda>name.
     case io_open io True (odirectf conf = 1) name f of (fd, f') \<Rightarrow>
       if fd = -1 then Inl (Exit 0) else Inr (fd, f'))"

definition destroy_pfile :: "'f file_io \<Rightarrow> int \<Rightarrow> user_confs \<Rightarrow> 'f \<Rightarrow> (int \<times> 'f) res" where
  "destroy_pfile io p conf f =
     rbind (proc_text p) (\<lambda>t.
     rbind (store_path (''rm '' @ tempfilespath conf @ TMP_FILE @ t)) (\<lambda>command.
       case io_system io command f of (_, f') \<Rightarrow> Inr (0, f')))"

definition dd_populate :: "'f file_io \<Rightarrow> string \<Rightarrow> user_confs \<Rightarrow> 'f \<Rightarrow> (u64 \<times> 'f) res" where
  "dd_populate io name conf f =
     (let count = show_u64 (filesize conf div 1024 div 1024) in
      if 10 \<le> length count then Inl Out_Of_Bounds
      else rbind (store_path (''dd if=/dev/zero of='' @ name @ '' bs=1M count='' @ count)) (\<lambda>command.
        case io_system io command f of (_, f') \<Rightarrow> Inr (filesize conf, f')))"

section \<open>Contents\<close>

definition populate_statistics :: "user_confs \<Rightarrow> block_info \<Rightarrow> duplicates_info \<Rightarrow> stats \<Rightarrow> (duplicates_info \<times> stats) res" where
  "populate_statistics conf b info stat =
     (if (distout conf = 1 \<or> fault_measure conf > 0) \<and> cont_id b < duplicated_blocks info
      then let i = unat (cont_id b) in
        if length (di_statistics info) \<le> i then Inl Out_Of_Bounds
        else let n = di_statistics info ! i + 1;
                 info1 = info\<lparr>di_statistics := (di_statistics info)[i := n]\<rparr>
             in if n > 1
                then let info2 = (if n > topblock_dups info1 then info1\<lparr>topblock := cont_id b, topblock_dups := n\<rparr> else info1);
                         info3 = (if n < botblock_dups info2 then info2\<lparr>botblock := cont_id b, botblock_dups := n\<rparr> else info2)
                     in Inr (info3, stat)
                else Inr (info1, stat\<lparr>uni := uni stat + 1\<rparr>)
      else Inr (info, stat))"

definition track_block :: "nat \<Rightarrow> nat \<Rightarrow> block_info \<Rightarrow> duplicates_info \<Rightarrow> duplicates_info res" where
  \<comment> \<open>the three assignments to \<^verbatim>\<open>info->content_tracker[pos][i]\<close>\<close>
  "track_block pos i b info =
     (if pos < length (content_tracker info) \<and> i < length (content_tracker info ! pos)
      then Inr (info\<lparr>content_tracker := (content_tracker info)[pos := (content_tracker info ! pos)[i := b]]\<rparr>)
      else Inl Out_Of_Bounds)"

definition tracker_pos :: "user_confs \<Rightarrow> int \<Rightarrow> nat" where
  "tracker_pos conf idproc = (if rawdevice conf = 1 then 0 else nat idproc)"

partial_function (option) populate_loop ::
    "'s rng \<Rightarrow> 'f file_io \<Rightarrow> (nat \<Rightarrow> u64) \<Rightarrow> user_confs \<Rightarrow> int \<Rightarrow> int \<Rightarrow> u64 \<Rightarrow> nat \<Rightarrow> duplicates_info \<Rightarrow> stats \<Rightarrow> 's \<Rightarrow> 'f
      \<Rightarrow> (u64 \<times> duplicates_info \<times> 's \<times> 'f) res option" where
  \<comment> \<open>\<open>clock k\<close> is the time of day at the \<open>k\<close>-th block; a short write is reported on the terminal only\<close>
  "populate_loop g io clock conf fd idproc bytes_written k info stat s f =
     (if bytes_written < filesize conf
      then obind (get_writecontent g s (clock k) conf info stat 0) (\<lambda>(buf, info1, stat1, b, s').
           obind (Some (populate_statistics conf b info1 stat1)) (\<lambda>(info2, stat2).
           case io_pwrite io fd buf bytes_written f of (_, f') \<Rightarrow>
           obind (Some (if integrity conf \<ge> 1
                        then track_block (tracker_pos conf idproc) (unat (bytes_written div block_size conf)) b info2
                        else Inr info2)) (\<lambda>info3.
           populate_loop g io clock conf fd idproc (bytes_written + block_size conf) (Suc k) info3 stat2 s' f')))
      else Some (Inr (bytes_written, info, s, f)))"

definition real_populate ::
    "(u64 \<Rightarrow> 's) \<Rightarrow> 's rng \<Rightarrow> 'f file_io \<Rightarrow> (nat \<Rightarrow> u64) \<Rightarrow> stats \<Rightarrow> int \<Rightarrow> user_confs \<Rightarrow> duplicates_info \<Rightarrow> int \<Rightarrow> 'f
      \<Rightarrow> (u64 \<times> duplicates_info \<times> 's \<times> 'f) res option" where
  \<comment> \<open>\<open>stat\<close> is not initialised\<close>
  "real_populate init_rand g io clock stat fd conf info idproc f =
     populate_loop g io clock conf fd idproc 0 0 info stat (init_rand (seed conf + word_of_int (nprocs conf))) f"

definition working_procs :: "user_confs \<Rightarrow> int" where
  \<comment> \<open>the processes with a file of their own\<close>
  "working_procs conf = (if mixedIO conf = 1 then nprocs conf div 2 else nprocs conf)"

fun populate_files ::
    "(u64 \<Rightarrow> 's) \<Rightarrow> 's rng \<Rightarrow> 'f file_io \<Rightarrow> (int \<Rightarrow> nat \<Rightarrow> u64) \<Rightarrow> stats \<Rightarrow> user_confs \<Rightarrow> int list \<Rightarrow> u64 \<Rightarrow> duplicates_info \<Rightarrow> 'f
      \<Rightarrow> (u64 \<times> duplicates_info \<times> 'f) res option" where
  "populate_files init_rand g io clock junk conf [] bytes info f = Some (Inr (bytes, info, f))"
| "populate_files init_rand g io clock junk conf (i # is) bytes info f =
     obind (Some (pfile_name conf i)) (\<lambda>name.
       if populate_kind conf = DDPOP
       then obind (Some (dd_populate io name conf f)) (\<lambda>(n, f').
              populate_files init_rand g io clock junk conf is (bytes + n) info f')
       else obind (Some (create_pfile io i conf f)) (\<lambda>(fd, f1).
            obind (real_populate init_rand g io (clock i) junk fd conf info i f1) (\<lambda>(n, info', _, f2).
              populate_files init_rand g io clock junk conf is (bytes + n) info' (io_close io fd (io_fsync io fd f2)))))"

definition populate ::
    "(u64 \<Rightarrow> 's) \<Rightarrow> 's rng \<Rightarrow> 'f file_io \<Rightarrow> (int \<Rightarrow> nat \<Rightarrow> u64) \<Rightarrow> stats \<Rightarrow> user_confs \<Rightarrow> duplicates_info \<Rightarrow> 'f
      \<Rightarrow> (u64 \<times> duplicates_info \<times> 'f) res option" where
  \<comment> \<open>the number of bytes that is printed\<close>
  "populate init_rand g io clock junk conf info f =
     (if rawdevice conf = 0
      then populate_files init_rand g io clock junk conf [0..working_procs conf - 1] 0 info f
      else if populate_kind conf = DDPOP
      then obind (Some (dd_populate io (rawpath conf) conf f)) (\<lambda>(n, f'). Some (Inr (n, info, f')))
      else obind (Some (open_rawdev io (rawpath conf) conf f)) (\<lambda>(fd, f1).
           obind (real_populate init_rand g io (clock 0) junk fd conf info 0 f1) (\<lambda>(n, info', _, f2).
             Some (Inr (n, info', io_close io fd (io_fsync io fd f2))))))"

definition insert_bug :: "'f file_io \<Rightarrow> int \<Rightarrow> int \<Rightarrow> int \<Rightarrow> 'f \<Rightarrow> 'f" where
  "insert_bug io fd bsize offset f =
     snd (io_pwrite io fd (replicate (nat bsize) (CHR ''b'')) (word_of_int offset) f)"

section \<open>The integrity check\<close>

datatype final_line =
    Read_Failed u64 int  \<comment> \<open>the line \<^verbatim>\<open>Reading block in offset\<close> with the result of \<^verbatim>\<open>pread\<close>\<close>
  | Compared integrity_line

partial_function (option) integrity_loop ::
    "'f file_io \<Rightarrow> user_confs \<Rightarrow> int \<Rightarrow> nat \<Rightarrow> duplicates_info \<Rightarrow> u64 \<Rightarrow> string \<Rightarrow> int \<Rightarrow> final_line list \<Rightarrow> 'f
      \<Rightarrow> (int \<times> final_line list \<times> 'f) res option" where
  "integrity_loop io conf fd pos info bytes_read buf res out f =
     (if bytes_read < filesize conf
      then if block_size conf = 0 then Some (Inl Div_By_Zero)
        else let i = unat (bytes_read div block_size conf) in
        if length (content_tracker info) \<le> pos \<or> length (content_tracker info ! pos) \<le> i then Some (Inl Out_Of_Bounds)
        else let bf = content_tracker info ! pos ! i in
        if ts bf \<noteq> 0 \<and> cont_id bf \<noteq> 0
        then case io_pread io fd (block_size conf) bytes_read f of (n, bytes, f') \<Rightarrow>
          let buf' = blit 0 (take (length buf) bytes) buf;
              out1 = (if n \<le> 0 then out @ [Read_Failed bytes_read n] else out)
          in obind (Some (compare_blocks buf' bf 1)) (\<lambda>(r, ls).
               integrity_loop io conf fd pos info (bytes_read + block_size conf) buf' (res + r) (out1 @ map Compared ls) f')
        else integrity_loop io conf fd pos info (bytes_read + block_size conf) buf res out f
      else Some (Inr (res, out, f)))"

definition file_integrity ::
    "'f file_io \<Rightarrow> (nat \<Rightarrow> char) \<Rightarrow> int \<Rightarrow> user_confs \<Rightarrow> duplicates_info \<Rightarrow> nat \<Rightarrow> final_line list \<Rightarrow> 'f
      \<Rightarrow> (int \<times> final_line list \<times> 'f) res option" where
  \<comment> \<open>\<open>junk\<close> is what the fresh buffer holds\<close>
  "file_integrity io junk fd conf info pos out f =
     integrity_loop io conf fd pos info 0 (map junk [0..<unat (block_size conf)]) 0 out f"

fun check_files ::
    "'f file_io \<Rightarrow> (nat \<Rightarrow> char) \<Rightarrow> user_confs \<Rightarrow> duplicates_info \<Rightarrow> int list \<Rightarrow> int \<Rightarrow> final_line list \<Rightarrow> 'f
      \<Rightarrow> (int \<times> final_line list \<times> 'f) res option" where
  "check_files io junk conf info [] errors out f = Some (Inr (errors, out, f))"
| "check_files io junk conf info (i # is) errors out f =
     obind (Some (pfile_name conf i)) (\<lambda>_.
     obind (Some (create_pfile io i conf f)) (\<lambda>(fd, f1).
     obind (file_integrity io junk fd conf info (nat i) out f1) (\<lambda>(r, out', f2).
       check_files io junk conf info is (errors + r) out' (io_close io fd f2))))"

definition check_integrity ::
    "'f file_io \<Rightarrow> (nat \<Rightarrow> char) \<Rightarrow> bool \<Rightarrow> user_confs \<Rightarrow> duplicates_info \<Rightarrow> 'f \<Rightarrow> (int \<times> final_line list \<times> 'f) res option" where
  \<comment> \<open>the number of errors and the lines between the header and the summary of the file; \<open>opened\<close>:
     \<^verbatim>\<open>fopen\<close> of this file succeeds\<close>
  "check_integrity io junk opened conf info f =
     (if \<not> opened then Some (Inl Wild_Pointer)
      else if rawdevice conf = 0 then check_files io junk conf info [0..working_procs conf - 1] 0 [] f
      else obind (Some (open_rawdev io (rawpath conf) conf f)) (\<lambda>(fd, f1).
           obind (file_integrity io junk fd conf info 0 [] f1) (\<lambda>(r, out, f2).
             Some (Inr (r, out, io_close io fd f2)))))"

end
