(* ===== verification/Dedis_Plot.thy ===== *)
theory Dedis_Plot
  imports Dedis_Populate
begin

text \<open>
  \<^verbatim>\<open>dedisbench/io/plotio.c\<close>: the files with the accesses of a process, the histogram of accesses, and
  the names of the files with latencies and throughputs. The gnuplot scripts are fixed texts and the
  snapshots are printed as floating-point numbers; neither is modelled.
\<close>

section \<open>Histogram of accesses\<close>

definition find_bucket :: "u64 \<Rightarrow> int" where
  "find_bucket i = int (order_of_magnitude i)"

definition access_pos :: "u64 \<Rightarrow> int" where
  \<comment> \<open>\<^verbatim>\<open>arr_pos\<close>: two positions per decimal order; \<^verbatim>\<open>int\<close> products wrap around\<close>
  "access_pos n =
     (let bucket = find_bucket n; power = to_int (powr 10 bucket);
          grow = n \<ge> word_of_int power;
          bucket' = (if grow then bucket + 1 else bucket); power' = (if grow then to_int (power * 10) else power)
      in if n \<ge> word_of_int (power' sdiv 2) then bucket' * 2 else bucket' * 2 - 1)"

definition count_access :: "u64 \<Rightarrow> u64 list \<Rightarrow> u64 list res" where
  \<comment> \<open>the array is doubled once when the position lies behind it\<close>
  "count_access n acs =
     (let p = access_pos n; acs' = (if p \<ge> int (length acs) then acs @ replicate (length acs) 0 else acs)
      in if 0 \<le> p \<and> nat p < length acs' then Inr (acs'[nat p := acs' ! nat p + 1]) else Inl Out_Of_Bounds)"

record access_totals =
  pos_touched :: u64
  bytes_processed :: u64
  acs_of :: "u64 list"

fun aggregate :: "u64 \<Rightarrow> u64 list \<Rightarrow> access_totals \<Rightarrow> access_totals res" where
  "aggregate bsize [] t = Inr t"
| "aggregate bsize (n # ns) t =
     (let t1 = (if n > 0 then t\<lparr>pos_touched := pos_touched t + 1, bytes_processed := bytes_processed t + bsize * n\<rparr> else t)
      in rbind (count_access n (acs_of t1)) (\<lambda>acs. aggregate bsize ns (t1\<lparr>acs_of := acs\<rparr>)))"

function print_buckets :: "u64 list \<Rightarrow> nat \<Rightarrow> int \<Rightarrow> int \<Rightarrow> (int \<times> int \<times> u64) list" where
  \<comment> \<open>the loop \<^verbatim>\<open>while(i < acs_len && acs[i])\<close>; a line has the bounds of an interval and a count\<close>
  "print_buckets acs i init final =
     (if i < length acs \<and> acs ! i \<noteq> 0
      then (init, final div 2, acs ! i) #
        (if Suc i < length acs \<and> acs ! Suc i \<noteq> 0 then [(final div 2, final, acs ! Suc i)] else []) @
        print_buckets acs (i + 2) final (to_int (final * 10))
      else [])"
  by pat_completeness auto
termination
  by (relation "measure (\<lambda>(acs, i, init, final). length acs - i)") auto

declare print_buckets.simps [simp del]

section \<open>Files\<close>

record access_report =
  ar_accesses :: "(nat \<times> u64) list"
  ar_mode :: string
  ar_cumul :: "(int \<times> int \<times> u64) list"
  ar_touched :: u64
  ar_touched_mb :: u64
  ar_processed_mb :: u64

definition access_mode :: "user_confs \<Rightarrow> string" where
  "access_mode conf =
     (if accesstype conf = SEQUENTIAL then ''sequential'' else if accesstype conf = UNIFORM then ''uniform'' else ''hotspot'')"

definition access_files :: "user_confs \<Rightarrow> string \<Rightarrow> string list res" where
  \<comment> \<open>the process number is appended to the name in the configuration\<close>
  "access_files conf ident =
     rbind (store_path (accessfilelog conf @ ident)) (\<lambda>name.
       Inr (map ((@) ''results/accesses/'') [name, name @ ''cumul'', name @ ''cumulplot'']))"

definition write_access_data ::
    "(string \<Rightarrow> bool) \<Rightarrow> u64 list \<Rightarrow> user_confs \<Rightarrow> string \<Rightarrow> (int \<times> access_report option \<times> user_confs) res" where
  \<comment> \<open>\<open>opened\<close> tells which files \<^verbatim>\<open>fopen\<close> can open\<close>
  "write_access_data opened accesses conf ident =
     rbind (access_files conf ident) (\<lambda>names.
     let conf' = conf\<lparr>accessfilelog := accessfilelog conf @ ident\<rparr> in
     if \<not> (\<forall>name \<in> set names. opened name) then Inr (1, None, conf')
     else if length accesses < unat (totblocks conf) then Inl Out_Of_Bounds
     else let ns = take (unat (totblocks conf)) accesses in
       rbind (aggregate (block_size conf) ns \<lparr>pos_touched = 0, bytes_processed = 0, acs_of = replicate 8 0\<rparr>) (\<lambda>t.
       Inr (0, Some \<lparr>ar_accesses = zip [0..<length ns] ns, ar_mode = access_mode conf,
                  ar_cumul = print_buckets (acs_of t) 1 1 10, ar_touched = pos_touched t,
                  ar_touched_mb = pos_touched t * block_size conf div 1024 div 1024,
                  ar_processed_mb = bytes_processed t div 1024 div 1024\<rparr>, conf')))"

definition snap_names :: "user_confs \<Rightarrow> string \<Rightarrow> string list res" where
  \<comment> \<open>the files of \<^verbatim>\<open>write_latency_throughput_snaps\<close>, in the order they are opened\<close>
  "snap_names conf ident =
     (let op = (if iotype conf = IO_WRITE then ''write'' else ''read'') in
      rbind (store_path (printfile conf @ ''snapthr'' @ op @ ident)) (\<lambda>thr.
      rbind (store_path (thr @ ''compat'')) (\<lambda>thrfmt.
      rbind (store_path (printfile conf @ ''snaplat'' @ op @ ident)) (\<lambda>lat.
      rbind (store_path (lat @ ''compat'')) (\<lambda>latfmt.
      rbind (store_path (printfile conf @ ident @ ''plot'')) (\<lambda>plot.
        Inr (map ((@) ''./results/latthr/'') [lat, latfmt, thr, thrfmt] @ [''results/latthr/'' @ plot])))))))"

definition write_latency_throughput_snaps :: "(string \<Rightarrow> bool) \<Rightarrow> user_confs \<Rightarrow> string \<Rightarrow> (int \<times> string list) res" where
  \<comment> \<open>the result and the files that are written: those before the first that cannot be opened, pairwise\<close>
  "write_latency_throughput_snaps opened conf ident =
     rbind (snap_names conf ident) (\<lambda>names.
       if \<not> (\<forall>name \<in> set (take 2 names). opened name) then Inr (1, [])
       else if \<not> (\<forall>name \<in> set (take 2 (drop 2 names)). opened name) then Inr (1, take 2 names)
       else if \<not> opened (names ! 4) then Inr (1, take 4 names)
       else Inr (0, names))"

section \<open>The intervals of the histogram\<close>

definition interval_lo :: "nat \<Rightarrow> nat" where
  "interval_lo p = (if odd p then 10 ^ (p div 2) else 5 * 10 ^ (p div 2 - 1))"

definition interval_hi :: "nat \<Rightarrow> nat" where
  "interval_hi p = (if odd p then 5 * 10 ^ (p div 2) else 10 ^ (p div 2))"

lemma to_int_small: "- (2 ^ 31) \<le> x \<Longrightarrow> x < 2 ^ 31 \<Longrightarrow> to_int x = x"
  by (simp add: to_int_def sint_sbintrunc' signed_take_bit_int_eq_self)

lemma access_pos_small:
  assumes "0 < unat n" and "unat n < 10 ^ 9" and "b = order_of_magnitude n"
  shows "access_pos n = (if 5 * 10 ^ (b - 1) \<le> unat n then 2 * int b else 2 * int b - 1)" and "0 < b"
proof -
  have n: "unat n < 10 ^ b" "10 ^ (b - 1) \<le> unat n"
    using order_of_magnitude_digits [of n] assms by (auto simp: unat_gt_0 word_gt_0)
  show b0: "0 < b" using n(1) assms(1) by (cases b) auto
  have "(10 :: nat) ^ (b - 1) < 10 ^ 9" using n(2) assms(2) by linarith
  then have "b - 1 < 9" by (rule power_less_imp_less_exp [rotated]) simp
  then have b: "b \<le> 9" by simp
  have pow: "(10 :: int) ^ b = 10 * 10 ^ (b - 1)" using b0 by (simp add: power_eq_if)
  have "(10 :: int) ^ b \<le> 10 ^ 9" using b by (intro power_increasing) simp_all
  then have le: "(10 :: int) ^ b < 2 ^ 31" by simp
  have pw: "powr 10 (int b) = 10 ^ b" by (simp add: powr_power)
  have t: "to_int (10 ^ b) = 10 ^ b" by (rule to_int_small) (use le in \<open>auto intro: order_trans [of _ 0]\<close>)
  have w: "unat (word_of_int x :: u64) = nat x" if "0 \<le> x" "x < 2 ^ 31" for x
    using that by (simp add: unat_eq_nat_uint uint_word_of_int_eq take_bit_int_eq_self)
  have "word_of_int (10 ^ b) \<le> n \<longleftrightarrow> nat (10 ^ b) \<le> unat n" unfolding word_le_nat_alt by (subst w) (use le in simp_all)
  then have no: "\<not> word_of_int (10 ^ b) \<le> n" using n(1) by (simp add: nat_power_eq)
  have half: "(10 :: int) ^ b sdiv 2 = 5 * 10 ^ (b - 1)" by (simp add: pow signed_divide_int_def)
  have "word_of_int (5 * 10 ^ (b - 1)) \<le> n \<longleftrightarrow> nat (5 * 10 ^ (b - 1)) \<le> unat n"
    unfolding word_le_nat_alt by (subst w) (use le pow in simp_all)
  then have "word_of_int (10 ^ b sdiv 2) \<le> n \<longleftrightarrow> 5 * 10 ^ (b - 1) \<le> unat n"
    by (simp add: half nat_mult_distrib nat_power_eq)
  then show "access_pos n = (if 5 * 10 ^ (b - 1) \<le> unat n then 2 * int b else 2 * int b - 1)"
    using no unfolding access_pos_def find_bucket_def Let_def assms(3) [symmetric] pw t by simp
qed

lemma interval_adjacent: "0 < p \<Longrightarrow> interval_lo (Suc p) = interval_hi p"
  by (auto simp: interval_lo_def interval_hi_def elim!: oddE evenE)

lemma interval_mono: "0 < p \<Longrightarrow> p \<le> q \<Longrightarrow> interval_lo p \<le> interval_lo q"
proof (induction q)
  case (Suc q)
  show ?case
  proof (cases "p \<le> q")
    case True
    have "interval_lo q \<le> interval_hi q"
      using Suc.prems(1) True by (cases "odd q") (auto simp: interval_lo_def interval_hi_def power_eq_if elim!: evenE)
    with Suc True interval_adjacent [of q] show ?thesis by simp
  next
    case False
    then show ?thesis using Suc.prems(2) by (simp add: le_Suc_eq)
  qed
qed simp

lemma interval_unique:
  assumes "0 < p" "0 < q" "interval_lo p \<le> n" "n < interval_hi p" "interval_lo q \<le> n" "n < interval_hi q"
  shows "p = q"
proof (rule ccontr)
  assume "p \<noteq> q"
  then consider "Suc p \<le> q" | "Suc q \<le> p" by linarith
  then show False
    by cases (use assms interval_mono [of "Suc p" q] interval_mono [of "Suc q" p] interval_adjacent in auto)
qed

lemma access_pos_interval:
  assumes "0 < unat n" and "unat n < 10 ^ 9" and "0 < p"
  shows "access_pos n = int p \<longleftrightarrow> interval_lo p \<le> unat n \<and> unat n < interval_hi p"
proof -
  define b where "b = order_of_magnitude n"
  note pos = access_pos_small [OF assms(1,2) b_def]
  have n: "unat n < 10 ^ b" "10 ^ (b - 1) \<le> unat n"
    using order_of_magnitude_digits [of n] assms by (auto simp: b_def unat_gt_0 word_gt_0)
  obtain q where q: "access_pos n = int q" "0 < q" "interval_lo q \<le> unat n" "unat n < interval_hi q"
  proof (cases "5 * 10 ^ (b - 1) \<le> unat n")
    case True
    then show ?thesis using that [of "2 * b"] pos n by (simp add: interval_lo_def interval_hi_def)
  next
    case False
    then have "access_pos n = int (2 * b - 1)" "odd (2 * b - 1)" "(2 * b - 1) div 2 = b - 1" using pos by auto
    then show ?thesis using that [of "2 * b - 1"] pos(2) n False by (simp add: interval_lo_def interval_hi_def)
  qed
  then show ?thesis using interval_unique [OF assms(3) q(2)] by auto
qed

lemma access_pos_zero: "access_pos n = 0 \<longleftrightarrow> n = 0" if "unat n < 10 ^ 9"
proof (cases "n = 0")
  case True
  have "powr 10 0 = 1" by (simp add: powr_power)
  moreover have "to_int 1 = 1" by (simp add: to_int_small)
  moreover have "(1 :: int) sdiv 2 = 0" by (simp add: signed_divide_int_def)
  ultimately show ?thesis using True by (simp add: access_pos_def find_bucket_def order_of_magnitude.simps)
next
  case False
  then have "0 < unat n" by (simp add: unat_gt_0 word_gt_0)
  from access_pos_small [OF this that refl] False show ?thesis by (auto split: if_splits)
qed

section \<open>Counting\<close>

definition counted_at :: "u64 list \<Rightarrow> nat \<Rightarrow> nat" where
  \<comment> \<open>how many numbers of accesses belong to a position\<close>
  "counted_at ns p = length (filter (\<lambda>n. access_pos n = int p) ns)"

definition histogram :: "u64 list \<Rightarrow> u64 list \<Rightarrow> bool" where
  "histogram ns acs \<longleftrightarrow> length acs \<in> {8, 16} \<and> (\<forall>p < length acs. acs ! p = word_of_nat (counted_at ns p)) \<and>
     (\<forall>p \<ge> length acs. counted_at ns p = 0)"

lemma access_pos_bound:
  assumes "unat n < 50000000"
  shows "\<exists>p < 16. access_pos n = int p"
proof (cases "n = 0")
  case True
  then show ?thesis using access_pos_zero [of n] by (intro exI [of _ 0]) simp
next
  case False
  then have n: "0 < unat n" "unat n < 10 ^ 9" using assms by (auto simp: unat_gt_0 word_gt_0)
  note pos = access_pos_small [OF n refl]
  obtain p where p: "access_pos n = int p" "0 < p"
    using that [of "nat (access_pos n)"] pos by (auto split: if_splits)
  then have "interval_lo p \<le> unat n" using access_pos_interval [OF n p(2)] by simp
  moreover have "interval_lo 16 = 50000000" by (simp add: interval_lo_def)
  ultimately have "\<not> 16 \<le> p" using interval_mono [of 16 p] assms by auto
  then show ?thesis using p(1) by auto
qed

lemma count_access_histogram:
  assumes "histogram ns acs" and "unat n < 50000000"
  shows "\<exists>acs'. count_access n acs = Inr acs' \<and> histogram (ns @ [n]) acs'"
proof -
  obtain p where p: "p < 16" "access_pos n = int p" using access_pos_bound [OF assms(2)] by blast
  have cnt: "counted_at (ns @ [n]) q = (if q = p then Suc (counted_at ns q) else counted_at ns q)" for q
    by (simp add: counted_at_def p(2))
  define acs' where "acs' = (if p \<ge> length acs then acs @ replicate (length acs) 0 else acs)"
  have len: "length acs' \<in> {8, 16}" "p < length acs'" using assms(1) p(1) by (auto simp: acs'_def histogram_def)
  have at: "acs' ! q = word_of_nat (counted_at ns q)" if "q < length acs'" for q
    using that assms(1) by (auto simp: acs'_def histogram_def nth_append split: if_splits)
  have out: "counted_at ns q = 0" if "q \<ge> length acs'" for q
    using that assms(1) by (auto simp: acs'_def histogram_def split: if_splits)
  have "histogram (ns @ [n]) (acs'[p := acs' ! p + 1])"
    using len at out by (auto simp: histogram_def cnt nth_list_update add.commute)
  moreover have "count_access n acs = Inr (acs'[p := acs' ! p + 1])"
    using len(2) by (simp add: count_access_def p(2) acs'_def Let_def)
  ultimately show ?thesis by blast
qed

lemma aggregate_histogram:
  assumes "histogram ms (acs_of t)" and "\<forall>n \<in> set ns. unat n < 50000000"
  shows "\<exists>t'. aggregate bsize ns t = Inr t' \<and> histogram (ms @ ns) (acs_of t') \<and>
    pos_touched t' = pos_touched t + word_of_nat (length (filter (\<lambda>n. 0 < n) ns)) \<and>
    bytes_processed t' = bytes_processed t + bsize * sum_list ns"
  using assms
proof (induction ns arbitrary: ms t)
  case (Cons n ns)
  define t1 where "t1 = (if n > 0 then t\<lparr>pos_touched := pos_touched t + 1, bytes_processed := bytes_processed t + bsize * n\<rparr> else t)"
  have same: "acs_of t1 = acs_of t" by (simp add: t1_def)
  obtain acs' where acs': "count_access n (acs_of t1) = Inr acs'" "histogram (ms @ [n]) acs'"
    using count_access_histogram [OF Cons.prems(1)] Cons.prems(2) same by auto
  from Cons.IH [of "ms @ [n]" "t1\<lparr>acs_of := acs'\<rparr>"] acs'(2) Cons.prems(2) obtain t' where
    "aggregate bsize ns (t1\<lparr>acs_of := acs'\<rparr>) = Inr t'" "histogram (ms @ n # ns) (acs_of t')"
    "pos_touched t' = pos_touched t1 + word_of_nat (length (filter (\<lambda>n. 0 < n) ns))"
    "bytes_processed t' = bytes_processed t1 + bsize * sum_list ns" by auto
  then show ?case using acs'(1) by (auto simp: t1_def [symmetric]) (auto simp: t1_def word_gt_0 distrib_left)
qed simp

text \<open>
  (C35) The histogram of accesses is exact. When no block was accessed 50 million times, the
  aggregation ends without leaving its array, position 0 has the number of blocks that were never
  accessed, every other position has the number of blocks whose accesses lie in its interval (1 to 4,
  5 to 9, 10 to 49, 50 to 99 and so on), positions behind the array would be empty, and the number of
  blocks touched and the bytes processed are the number of accessed blocks and the sum of accesses.
\<close>

theorem access_histogram_exact:
  assumes "\<forall>n \<in> set ns. unat n < 50000000"
  shows "\<exists>t. aggregate bsize ns \<lparr>pos_touched = 0, bytes_processed = 0, acs_of = replicate 8 0\<rparr> = Inr t \<and>
    length (acs_of t) \<in> {8, 16} \<and>
    acs_of t ! 0 = word_of_nat (length (filter (\<lambda>n. n = 0) ns)) \<and>
    (\<forall>p. 0 < p \<longrightarrow> (let k = length (filter (\<lambda>n. interval_lo p \<le> unat n \<and> unat n < interval_hi p) ns) in
       if p < length (acs_of t) then acs_of t ! p = word_of_nat k else k = 0)) \<and>
    pos_touched t = word_of_nat (length (filter (\<lambda>n. 0 < n) ns)) \<and> bytes_processed t = bsize * sum_list ns"
proof -
  have "histogram [] (replicate 8 0)" by (simp add: histogram_def counted_at_def)
  from aggregate_histogram [of "[]" "\<lparr>pos_touched = 0, bytes_processed = 0, acs_of = replicate 8 0\<rparr>" ns bsize] this assms obtain t where
    t: "aggregate bsize ns \<lparr>pos_touched = 0, bytes_processed = 0, acs_of = replicate 8 0\<rparr> = Inr t" "histogram ns (acs_of t)"
    "pos_touched t = word_of_nat (length (filter (\<lambda>n. 0 < n) ns))" "bytes_processed t = bsize * sum_list ns" by auto
  have small: "unat n < 10 ^ 9" if "n \<in> set ns" for n using assms that by auto
  have "counted_at ns 0 = length (filter (\<lambda>n. n = 0) ns)"
    unfolding counted_at_def by (intro arg_cong [where f = length] filter_cong refl) (use small access_pos_zero in auto)
  moreover have "counted_at ns p = length (filter (\<lambda>n. interval_lo p \<le> unat n \<and> unat n < interval_hi p) ns)" if "0 < p" for p
    unfolding counted_at_def
  proof (intro arg_cong [where f = length] filter_cong refl)
    fix n assume n: "n \<in> set ns"
    have "interval_lo p > 0" by (simp add: interval_lo_def)
    then show "access_pos n = int p \<longleftrightarrow> interval_lo p \<le> unat n \<and> unat n < interval_hi p"
      using access_pos_interval [of n p] access_pos_zero [OF small [OF n]] small [OF n] that by (cases "n = 0") (auto simp: unat_gt_0 word_gt_0)
  qed
  moreover have "0 < length (acs_of t)" using t(2) by (auto simp: histogram_def)
  ultimately show ?thesis using t by (auto simp: histogram_def Let_def)
qed

theorem access_histogram_exact_witness:
  "\<exists>t. aggregate 4096 [0, 3, 7, 7, 12] \<lparr>pos_touched = 0, bytes_processed = 0, acs_of = replicate 8 0\<rparr> = Inr t \<and>
    pos_touched t = 4 \<and> bytes_processed t = 4096 * 29"
  using access_histogram_exact [of "[0, 3, 7, 7, 12]" 4096] by auto

text \<open>
  The printed histogram ends at the first empty position: when every accessed block was accessed 5
  to 9 times it is empty. And the array grows only once per block: a block that is accessed 100
  million times is counted outside it.
\<close>

lemma histogram_stops_at_gap: "acs ! i = 0 \<Longrightarrow> print_buckets acs i init final = []"
  by (simp add: print_buckets.simps)

lemma histogram_overrun: "count_access 100000000 (replicate 8 0) = Inl Out_Of_Bounds"
proof -
  have "access_pos 100000000 = int 17"
    by (subst access_pos_interval) (simp_all add: interval_lo_def interval_hi_def)
  then show ?thesis by (simp add: count_access_def)
qed

end
