(* ===== verification/Dedis_Degree.thy ===== *)
theory Dedis_Degree
  imports Dedis_Duplicates
begin

text \<open>
  \<^verbatim>\<open>dedisbench/benchcore/faults/dedupDegree.c\<close>: how often blocks and offsets were written and read.
  A \<open>sorted_counter_array\<close> keeps its elements sorted by their counters, most frequent first, with
  a hash table from keys to positions and, for every counter value, the position and the length of
  the run of elements with this value. Elements are pointers; \<open>getKey\<close> reads the key behind a
  pointer, in the memory at the time of the call. Arrays are assumed to stay below \<open>2 ^ 32\<close>
  elements, the limit of \<^verbatim>\<open>GArray\<close>.
\<close>

section \<open>The sorted counter array\<close>

record 'e counter_element =
  counter :: u32
  element :: 'e

record counter_by_index_length =
  cb_index :: u64
  cb_size :: u64

record 'e sorted_counter_array =
  sorted_array :: "'e counter_element list"
  hash_table :: "u64 \<Rightarrow> u64 option"
  sorted_counter :: "counter_by_index_length list"

definition new_counter_by_index_length :: "u64 \<Rightarrow> u64 \<Rightarrow> counter_by_index_length" where
  "new_counter_by_index_length ix sz = \<lparr>cb_index = ix, cb_size = sz\<rparr>"

definition new_sorted_counter_array :: "'e sorted_counter_array" where
  "new_sorted_counter_array =
     \<lparr>sorted_array = [], hash_table = (\<lambda>_. None), sorted_counter = [new_counter_by_index_length 0 0]\<rparr>"

definition sorted_counter_array_add_hash_to_hash_table ::
    "('e \<Rightarrow> u64) \<Rightarrow> 'e \<Rightarrow> u64 \<Rightarrow> (u64 \<Rightarrow> u64 option) \<Rightarrow> (u64 \<Rightarrow> u64 option)" where
  "sorted_counter_array_add_hash_to_hash_table getKey e i ht = ht(getKey e \<mapsto> i)"

definition sorted_counter_array_swap2 ::
    "nat \<Rightarrow> nat \<Rightarrow> u64 \<Rightarrow> u64 \<Rightarrow> 'e counter_element list \<times> (u64 \<Rightarrow> u64 option)
      \<Rightarrow> 'e counter_element list \<times> (u64 \<Rightarrow> u64 option)" where
  \<comment> \<open>exchange two elements of the array and the positions that the table has for two keys\<close>
  "sorted_counter_array_swap2 p q k1 k2 st =
     (case st of (arr, ht) \<Rightarrow> (arr[p := arr ! q, q := arr ! p], ht(k1 := ht k2, k2 := ht k1)))"

function first_bucket :: "counter_by_index_length list \<Rightarrow> nat \<Rightarrow> nat option" where
  \<comment> \<open>the loop over the counter values from \<open>n\<close> on: the first one with a run\<close>
  "first_bucket sc n =
     (if n < length sc then if 0 < cb_size (sc ! n) then Some n else first_bucket sc (Suc n) else None)"
  by pat_completeness auto
termination
  by (relation "measure (\<lambda>(sc, n). length sc - n)") auto

declare first_bucket.simps [simp del]

definition shrink_bucket :: "nat \<Rightarrow> counter_by_index_length list \<Rightarrow> counter_by_index_length list" where
  \<comment> \<open>\<^verbatim>\<open>cbil->size--; cbil->index++\<close>\<close>
  "shrink_bucket b sc = sc[b := \<lparr>cb_index = cb_index (sc ! b) + 1, cb_size = cb_size (sc ! b) - 1\<rparr>]"

definition incr_added ::
    "('e \<Rightarrow> u64) \<Rightarrow> u64 \<Rightarrow> nat \<Rightarrow> nat \<Rightarrow> 'e sorted_counter_array \<Rightarrow> 'e sorted_counter_array res" where
  \<comment> \<open>the element at \<open>i\<close>, already counted, moves to the front of the run of its old value; \<open>b\<close> is the bucket found\<close>
  "incr_added getKey k i b sca =
     (let sc = sorted_counter sca; arr = sorted_array sca; front = unat (cb_index (sc ! b)) in
      if length arr \<le> front then Inl Out_Of_Bounds
      else let e2 = element (arr ! front);
               k2 = getKey e2;
               ht1 = (if hash_table sca k2 = None
                      then sorted_counter_array_add_hash_to_hash_table getKey e2 (cb_index (sc ! b)) (hash_table sca)
                      else hash_table sca);
               (arr2, ht2) = sorted_counter_array_swap2 i front k k2 (arr, ht1);
               sc1 = shrink_bucket b sc;
               c = counter (arr2 ! front) - 1;
               sc2 = (if unat c = length sc1 then sc1 @ [new_counter_by_index_length 0 1] else sc1)
           in if length sc2 \<le> unat c then Inl Out_Of_Bounds
              else let run = sc2 ! unat c;
                       run' = (if cb_size run = 0 then \<lparr>cb_index = the (ht2 k), cb_size = 1\<rparr>
                               else run\<lparr>cb_size := cb_size run + 1\<rparr>)
                   in Inr \<lparr>sorted_array = arr2, hash_table = ht2, sorted_counter = sc2[unat c := run']\<rparr>)"

definition incr_highest ::
    "('e \<Rightarrow> u64) \<Rightarrow> u64 \<Rightarrow> nat \<Rightarrow> 'e sorted_counter_array \<Rightarrow> 'e sorted_counter_array res" where
  \<comment> \<open>the branch \<^verbatim>\<open>if(!added)\<close>\<close>
  "incr_highest getKey k i sca =
     (let sc1 = sorted_counter sca @ [new_counter_by_index_length 0 1]; arr = sorted_array sca in
      if i \<noteq> 0
      then let e2 = element (arr ! 0); k2 = getKey e2;
               ht1 = (if hash_table sca k2 = None
                      then sorted_counter_array_add_hash_to_hash_table getKey e2 0 (hash_table sca)
                      else hash_table sca);
               (arr2, ht2) = (if the (ht1 k2) \<noteq> the (ht1 k)
                              then sorted_counter_array_swap2 i 0 k k2 (arr, ht1) else (arr, ht1))
           in Inr \<lparr>sorted_array = arr2, hash_table = ht2, sorted_counter = shrink_bucket (length sc1 - 1) sc1\<rparr>
      else let b = unat (counter (arr ! i) - 1)
           in if length sc1 \<le> b then Inl Out_Of_Bounds
              else Inr (sca\<lparr>sorted_counter := shrink_bucket b sc1\<rparr>))"

definition sorted_counter_array_incr_element ::
    "('e \<Rightarrow> u64) \<Rightarrow> u64 \<Rightarrow> u64 \<Rightarrow> 'e sorted_counter_array \<Rightarrow> 'e sorted_counter_array res" where
  \<comment> \<open>\<open>ix\<close> is the position that the table has for the key \<open>k\<close>\<close>
  "sorted_counter_array_incr_element getKey k ix sca =
     (let i = unat ix; arr = sorted_array sca in
      if length arr \<le> i then Inl Out_Of_Bounds
      else let ce = arr ! i; ce' = ce\<lparr>counter := counter ce + 1\<rparr>;
               sca1 = sca\<lparr>sorted_array := arr[i := ce']\<rparr>
           in case first_bucket (sorted_counter sca) (unat (counter ce' - 2)) of
                Some b \<Rightarrow> incr_added getKey k i b sca1
              | None \<Rightarrow> incr_highest getKey k i sca1)"

definition sorted_counter_array_add_element ::
    "('e \<Rightarrow> u64) \<Rightarrow> 'e \<Rightarrow> 'e sorted_counter_array \<Rightarrow> 'e sorted_counter_array res" where
  "sorted_counter_array_add_element getKey e sca =
     (case sorted_counter sca of
        [] \<Rightarrow> Inl Out_Of_Bounds
      | cbil # rest \<Rightarrow>
          let arr = sorted_array sca @ [\<lparr>counter = 1, element = e\<rparr>]
          in Inr \<lparr>sorted_array = arr, hash_table = (hash_table sca)(getKey e \<mapsto> word_of_nat (length arr) - 1),
               sorted_counter = cbil\<lparr>cb_size := cb_size cbil + 1\<rparr> # rest\<rparr>)"

definition sorted_counter_array_incr ::
    "('e \<Rightarrow> u64) \<Rightarrow> 'e \<Rightarrow> 'e sorted_counter_array \<Rightarrow> 'e sorted_counter_array res" where
  "sorted_counter_array_incr getKey e sca =
     (case hash_table sca (getKey e) of
        Some ix \<Rightarrow> sorted_counter_array_incr_element getKey (getKey e) ix sca
      | None \<Rightarrow> sorted_counter_array_add_element getKey e sca)"

section \<open>The degrees of duplication\<close>

text \<open>
  Blocks are given by their address; \<open>mem\<close> is the memory that holds the \<^verbatim>\<open>struct block_info\<close>.
  The offsets are copied into memory of their own, which never changes: the pointer is the offset.
\<close>

type_synonym 'a block_mem = "'a \<Rightarrow> block_info"

record 'a dedup_degree =
  dedup_writes :: "'a sorted_counter_array"
  dedup_reads :: "'a sorted_counter_array"
  offset_writes :: "u64 sorted_counter_array"
  offset_reads :: "u64 sorted_counter_array"
  unique_blocks_writes :: "'a list"
  unique_blocks_reads :: "'a list"

definition getKey_block_info :: "'a block_mem \<Rightarrow> 'a \<Rightarrow> u64" where
  "getKey_block_info mem bi = cont_id (mem bi)"

definition getKey_offset :: "u64 \<Rightarrow> u64" where
  "getKey_offset off = off"

definition new_dedup_degree :: "'a dedup_degree" where
  "new_dedup_degree =
     \<lparr>dedup_writes = new_sorted_counter_array, dedup_reads = new_sorted_counter_array,
      offset_writes = new_sorted_counter_array, offset_reads = new_sorted_counter_array,
      unique_blocks_writes = [], unique_blocks_reads = []\<rparr>"

definition dedup_degree_add_offset_write :: "u64 \<Rightarrow> 'a dedup_degree option \<Rightarrow> 'a dedup_degree option res" where
  "dedup_degree_add_offset_write off dd =
     (case dd of None \<Rightarrow> Inr None
      | Some d \<Rightarrow> rbind (sorted_counter_array_incr getKey_offset off (offset_writes d)) (\<lambda>s.
          Inr (Some (d\<lparr>offset_writes := s\<rparr>))))"

definition dedup_degree_add_offset_read :: "u64 \<Rightarrow> 'a dedup_degree option \<Rightarrow> 'a dedup_degree option res" where
  "dedup_degree_add_offset_read off dd =
     (case dd of None \<Rightarrow> Inr None
      | Some d \<Rightarrow> rbind (sorted_counter_array_incr getKey_offset off (offset_reads d)) (\<lambda>s.
          Inr (Some (d\<lparr>offset_reads := s\<rparr>))))"

definition dedup_degree_add_block_info_write ::
    "'a block_mem \<Rightarrow> 'a \<Rightarrow> 'a dedup_degree option \<Rightarrow> 'a dedup_degree option res" where
  "dedup_degree_add_block_info_write mem bi dd =
     (case dd of None \<Rightarrow> Inr None
      | Some d \<Rightarrow>
          if procid (mem bi) \<ge> 0 then Inr (Some (d\<lparr>unique_blocks_writes := unique_blocks_writes d @ [bi]\<rparr>))
          else rbind (sorted_counter_array_incr (getKey_block_info mem) bi (dedup_writes d)) (\<lambda>s.
            Inr (Some (d\<lparr>dedup_writes := s\<rparr>))))"

definition dedup_degree_add_block_info_read ::
    "'a block_mem \<Rightarrow> 'a \<Rightarrow> 'a dedup_degree option \<Rightarrow> 'a dedup_degree option res" where
  "dedup_degree_add_block_info_read mem bi dd =
     (case dd of None \<Rightarrow> Inr None
      | Some d \<Rightarrow>
          if procid (mem bi) \<ge> 0 then Inr (Some (d\<lparr>unique_blocks_reads := unique_blocks_reads d @ [bi]\<rparr>))
          else rbind (sorted_counter_array_incr (getKey_block_info mem) bi (dedup_reads d)) (\<lambda>s.
            Inr (Some (d\<lparr>dedup_reads := s\<rparr>))))"

section \<open>Selections\<close>

definition nth_element :: "'e list \<Rightarrow> u32 \<Rightarrow> 'e res" where
  "nth_element xs n = (if unat n < length xs then Inr (xs ! unat n) else Inl Out_Of_Bounds)"

definition get_nth_more_duplicate :: "'a dedup_degree option \<Rightarrow> u32 \<Rightarrow> 'a option res" where
  "get_nth_more_duplicate dd n =
     (case dd of None \<Rightarrow> Inr None
      | Some d \<Rightarrow>
          let arr = sorted_array (dedup_writes d); len = word_of_nat (length arr);
              n' = (if n > len then len - 1 else n)
          in rbind (nth_element arr n') (\<lambda>ce. Inr (Some (element ce))))"

definition get_nth_most_duplicate :: "'a dedup_degree option \<Rightarrow> 'a option res" where
  "get_nth_most_duplicate dd = get_nth_more_duplicate dd 0"

definition get_nth_less_duplicate :: "'a dedup_degree option \<Rightarrow> u32 \<Rightarrow> 'a option res" where
  "get_nth_less_duplicate dd n =
     (case dd of None \<Rightarrow> Inr None
      | Some d \<Rightarrow>
          let arr = sorted_array (dedup_writes d); len = word_of_nat (length arr);
              n' = (if n > len then 0 else n)
          in rbind (nth_element arr (len - 1 - n')) (\<lambda>ce. Inr (Some (element ce))))"

definition get_nth_least_duplicate :: "'a dedup_degree option \<Rightarrow> 'a option res" where
  "get_nth_least_duplicate dd = get_nth_less_duplicate dd 0"

definition get_nth_unique :: "'a dedup_degree option \<Rightarrow> u32 \<Rightarrow> 'a res" where
  "get_nth_unique dd n = (case dd of None \<Rightarrow> Inl Wild_Pointer | Some d \<Rightarrow> nth_element (unique_blocks_writes d) n)"

section \<open>Reports\<close>

definition numbered :: "('e \<Rightarrow> string) \<Rightarrow> 'e list \<Rightarrow> string" where
  "numbered f xs = concat (map (\<lambda>(i, x). ''('' @ show_nat i @ '')-'' @ f x) (zip [0..<length xs] xs))"

definition print_block_info_file :: "'a block_mem \<Rightarrow> 'a counter_element \<Rightarrow> string" where
  "print_block_info_file mem b =
     ''Counter:'' @ show_nat (unat (counter b)) @ '', '' @
     ''Block Content id:'' @ show_int (sint (cont_id (mem (element b)))) @ [NEWLINE]"

definition print_offset_op :: "u64 counter_element \<Rightarrow> string" where
  "print_offset_op ce =
     ''Counter:'' @ show_nat (unat (counter ce)) @ '', '' @ ''Offset:'' @ show_nat (unat (element ce)) @ [NEWLINE]"

definition dedup_degree_print_unique_array :: "'a block_mem \<Rightarrow> 'a dedup_degree option \<Rightarrow> string" where
  "dedup_degree_print_unique_array mem dd =
     (case dd of None \<Rightarrow> []
      | Some d \<Rightarrow>
          let row = (\<lambda>bi. ''Block Content id: '' @ show_int (sint (cont_id (mem bi))) @ [NEWLINE])
          in ''Unique blocks Writes'' @ [NEWLINE] @ ''Size: '' @ show_nat (length (unique_blocks_writes d)) @ [NEWLINE] @
             numbered row (unique_blocks_writes d) @
             ''Unique blocks Reads'' @ [NEWLINE] @ ''Size: '' @ show_nat (length (unique_blocks_reads d)) @ [NEWLINE] @
             numbered row (unique_blocks_reads d))"

definition dedup_degree_print_blocks :: "'a block_mem \<Rightarrow> 'a dedup_degree option \<Rightarrow> string" where
  "dedup_degree_print_blocks mem dd =
     (case dd of None \<Rightarrow> []
      | Some d \<Rightarrow>
          ''Duplicated blocks Writes'' @ [NEWLINE] @ ''Size:'' @ show_nat (length (sorted_array (dedup_writes d))) @ [NEWLINE] @
          numbered (print_block_info_file mem) (sorted_array (dedup_writes d)) @
          ''Duplicated blocks Reads'' @ [NEWLINE] @ ''Size:'' @ show_nat (length (sorted_array (dedup_reads d))) @ [NEWLINE] @
          numbered (print_block_info_file mem) (sorted_array (dedup_reads d)))"

definition dedup_degree_print_offset_write :: "'a dedup_degree option \<Rightarrow> string" where
  "dedup_degree_print_offset_write dd =
     (case dd of None \<Rightarrow> []
      | Some d \<Rightarrow>
          ''Writes per offset'' @ [NEWLINE] @ ''Size:'' @ show_nat (length (sorted_array (offset_writes d))) @ [NEWLINE] @
          numbered print_offset_op (sorted_array (offset_writes d)))"

definition dedup_degree_print_offset_read :: "'a dedup_degree option \<Rightarrow> string" where
  "dedup_degree_print_offset_read dd =
     (case dd of None \<Rightarrow> []
      | Some d \<Rightarrow>
          ''Reads per offset'' @ [NEWLINE] @ ''Size:'' @ show_nat (length (sorted_array (offset_reads d))) @ [NEWLINE] @
          numbered print_offset_op (sorted_array (offset_reads d)))"

end
