(* ===== verification/Fbd_Structs.thy ===== *)
theory Fbd_Structs
  imports Fbd_Defines
begin

text \<open>
  \<^verbatim>\<open>fbdd/fbd_structs.h\<close> and the registry half of \<^verbatim>\<open>fbdd/fbd_structs.c\<close>: the data of the
  faulty block device, the constructors, the getters, the adders of faults and
  \<^verbatim>\<open>fbd_remove_all_faults\<close>. The injectors are in theory \<open>Fbd_Inject\<close>.

  Pointers to the heap-allocated ranges and faults become values: each range is reachable
  from one list cell only and each fault from one range only, so a pointer into
  \<^verbatim>\<open>blocks_with_fault\<close> is a position of the list. The slots \<open>0 ..< size\<close> of the array
  \<^verbatim>\<open>faults[MAX_FAULTS]\<close> are the list \<open>rf_faults\<close>; a store into slot \<open>MAX_FAULTS\<close> or beyond is
  the error \<open>Out_Of_Bounds\<close>.
\<close>

section \<open>Data\<close>

text \<open>
  The union \<^verbatim>\<open>fbd_hash\<close> is the sequence of its bytes. Its member \<^verbatim>\<open>md5\<close> is the first 17
  bytes, its member \<^verbatim>\<open>xxh3_128\<close> the two little-endian words in bytes 0 to 7 and 8 to 15.
\<close>

type_synonym fbd_hash = bytes

definition xxh3_low64 :: "fbd_hash \<Rightarrow> u64" where
  "xxh3_low64 h = of_le (take 8 h)"

definition xxh3_high64 :: "fbd_hash \<Rightarrow> u64" where
  "xxh3_high64 h = of_le (take 8 (drop 8 h))"

definition md5_member :: "fbd_hash \<Rightarrow> bytes" where
  "md5_member h = take 17 h"

definition store_xxh3 :: "u64 \<Rightarrow> u64 \<Rightarrow> fbd_hash \<Rightarrow> fbd_hash" where
  "store_xxh3 lo hi h = to_le 8 lo @ to_le 8 hi @ drop 16 h"

text \<open>The two digest libraries, OpenSSL's MD5 and xxHash's XXH3, are parameters.\<close>

record hash_lib =
  md5_digest :: "bytes \<Rightarrow> bytes"
  xxh3_digest :: "bytes \<Rightarrow> u64 \<times> u64"

record fbd_user_settings =
  block_mode :: bool
  hash_mode :: bool
  dedup_mode :: bool
  device_mode :: bool

record fbd_block_fault =
  bf_size :: u32
  bf_offSet :: u64

record fbd_fault =
  f_operation :: u8
  f_fault :: u8
  f_persistent :: bool
  f_active :: bool
  f_args :: "u64 option"

datatype range_ptr = Null_Ptr | Block_Ptr fbd_block_fault | Hash_Ptr fbd_hash

record fbd_range_fault =
  rf_mode :: u8
  rf_faults :: "fbd_fault list"
  rf_ptr :: range_ptr

record fbd_device =
  d_path :: string
  d_index :: int
  d_fd :: int
  d_size :: u64
  d_logical_block_size :: u32
  d_bdus_started :: bool
  d_settings :: fbd_user_settings
  d_ranges :: "fbd_range_fault list"
  d_hash_type :: u8

section \<open>Utilities\<close>

definition intersept_memory :: "u64 \<Rightarrow> u64 \<Rightarrow> u64 \<Rightarrow> u64 \<Rightarrow> bool \<times> u64 \<times> u64" where
  "intersept_memory f1 f2 m1 m2 =
     (let x1 = max f1 m1; x2 = min f2 m2 in (if x1 > x2 then False else True, x1, x2))"

definition check_size_offSet :: "int \<Rightarrow> int \<Rightarrow> int" where
  "check_size_offSet sz offSet = FBD_STS_OK"

definition fbd_string_to_hash ::
    "hash_lib \<Rightarrow> fbd_device \<Rightarrow> bytes \<Rightarrow> u32 \<Rightarrow> fbd_hash \<Rightarrow> fbd_hash res" where
  \<comment> \<open>\<open>string\<close> holds the bytes from the pointer on; \<open>out\<close> is the union before the call\<close>
  "fbd_string_to_hash lib dev string string_size out =
     (if length string < unat string_size then Inl Out_Of_Bounds
      else let content = take (unat string_size) string in
        if d_hash_type dev = FBD_HASH_MD5
          then Inr (md5_digest lib content @ [0] @ drop 17 out)
        else if d_hash_type dev = FBD_HASH_XXH3_128
          then (case xxh3_digest lib content of (lo, hi) \<Rightarrow> Inr (store_xxh3 lo hi out))
        else Inl Abort)"

definition fbd_hash_compare :: "fbd_device \<Rightarrow> fbd_hash \<Rightarrow> fbd_hash \<Rightarrow> bool res" where
  "fbd_hash_compare dev h1 h2 =
     (if d_hash_type dev = FBD_HASH_MD5 then Inr (strcmp_eq (md5_member h1) (md5_member h2))
      else if d_hash_type dev = FBD_HASH_XXH3_128
        then Inr (xxh3_low64 h1 = xxh3_low64 h2 \<and> xxh3_high64 h1 = xxh3_high64 h2)
      else Inl Abort)"

section \<open>Constructors\<close>

definition fbd_new_user_settings :: "fbd_user_settings \<Rightarrow> fbd_user_settings" where
  \<comment> \<open>the argument is the memory \<^verbatim>\<open>malloc\<close> returned: \<^verbatim>\<open>device_mode\<close> is not set\<close>
  "fbd_new_user_settings fresh =
     fresh\<lparr>block_mode := False, hash_mode := False, dedup_mode := False\<rparr>"

definition fbd_new_device :: "fbd_device \<Rightarrow> int \<Rightarrow> fbd_device" where
  \<comment> \<open>likewise: \<^verbatim>\<open>size\<close>, \<^verbatim>\<open>blocks_with_fault\<close> and \<^verbatim>\<open>hash_type\<close> keep what \<^verbatim>\<open>malloc\<close> returned;
     the null \<^verbatim>\<open>path\<close> is the empty string\<close>
  "fbd_new_device fresh fd =
     fresh\<lparr>d_index := -1, d_path := [], d_fd := fd, d_bdus_started := False,
           d_settings := fbd_new_user_settings (d_settings fresh)\<rparr>"

definition fbd_new_block_fault :: "u32 \<Rightarrow> u64 \<Rightarrow> range_ptr" where
  "fbd_new_block_fault sz offSet = Block_Ptr \<lparr>bf_size = sz, bf_offSet = offSet\<rparr>"

definition fbd_new_hash_fault :: "fbd_hash \<Rightarrow> range_ptr" where
  "fbd_new_hash_fault hash = Hash_Ptr hash"

definition fbd_new_range_fault :: "u8 \<Rightarrow> fbd_range_fault" where
  "fbd_new_range_fault m = \<lparr>rf_mode = m, rf_faults = [], rf_ptr = Null_Ptr\<rparr>"

definition fbd_new_dedup_fault :: "fbd_hash \<Rightarrow> range_ptr" where
  "fbd_new_dedup_fault hash = fbd_new_hash_fault hash"

definition fbd_new_fault :: "u8 \<Rightarrow> u8 \<Rightarrow> bool \<Rightarrow> u64 option \<Rightarrow> fbd_fault" where
  \<comment> \<open>the only arguments ever passed are none and one \<^verbatim>\<open>uint64_t\<close>\<close>
  "fbd_new_fault operation fault_type persistent args =
     \<lparr>f_operation = operation, f_fault = fault_type, f_persistent = persistent,
      f_active = True, f_args = args\<rparr>"

section \<open>Getters\<close>

definition block_range_is :: "u32 \<Rightarrow> u64 \<Rightarrow> fbd_range_fault \<Rightarrow> bool" where
  "block_range_is sz offSet rng \<longleftrightarrow> rf_mode rng = FBD_MODE_BLOCK \<and>
     (case rf_ptr rng of
        Block_Ptr block \<Rightarrow> bf_size block = sz \<and> bf_offSet block = offSet
      | _ \<Rightarrow> False)"

definition get_range_block :: "fbd_device \<Rightarrow> u32 \<Rightarrow> u64 \<Rightarrow> nat option" where
  "get_range_block device sz offSet =
     find_pos (block_range_is sz offSet) (d_ranges device)"

definition ptr_hash :: "range_ptr \<Rightarrow> fbd_hash res" where
  "ptr_hash p = (case p of Hash_Ptr h \<Rightarrow> Inr h | _ \<Rightarrow> Inl Wild_Pointer)"

fun find_hash_range :: "fbd_device \<Rightarrow> u8 \<Rightarrow> fbd_hash \<Rightarrow> fbd_range_fault list \<Rightarrow> nat option res" where
  "find_hash_range device m hash [] = Inr None"
| "find_hash_range device m hash (rng # rngs) =
     (if rf_mode rng = m
      then rbind (ptr_hash (rf_ptr rng)) (\<lambda>h.
           rbind (fbd_hash_compare device hash h) (\<lambda>eq.
             if eq then Inr (Some 0)
             else map_sum id (map_option Suc) (find_hash_range device m hash rngs)))
      else map_sum id (map_option Suc) (find_hash_range device m hash rngs))"

definition get_range_hash :: "fbd_device \<Rightarrow> fbd_hash \<Rightarrow> nat option res" where
  "get_range_hash device hash = find_hash_range device FBD_MODE_HASH hash (d_ranges device)"

definition get_range_dedup :: "fbd_device \<Rightarrow> fbd_hash \<Rightarrow> nat option res" where
  "get_range_dedup device hash = find_hash_range device FBD_MODE_DEDUP hash (d_ranges device)"

definition fault_is :: "u8 \<Rightarrow> u8 \<Rightarrow> fbd_fault \<Rightarrow> bool" where
  "fault_is fault_type op f \<longleftrightarrow> f_fault f = fault_type \<and> f_operation f AND op \<noteq> 0"

definition get_fault :: "fbd_range_fault \<Rightarrow> u8 \<Rightarrow> u8 \<Rightarrow> nat option" where
  "get_fault block fault_type op = find_pos (fault_is fault_type op) (rf_faults block)"

definition get_fault_from_mode :: "fbd_range_fault \<Rightarrow> u8 \<Rightarrow> u8 \<Rightarrow> u8 \<Rightarrow> nat option" where
  "get_fault_from_mode rng fault_type op m =
     (if rf_mode rng = m then get_fault rng fault_type op else None)"

section \<open>Adders\<close>

definition add_fault :: "fbd_range_fault \<Rightarrow> fbd_fault \<Rightarrow> fbd_range_fault res" where
  "add_fault rng f =
     (if length (rf_faults rng) < MAX_FAULTS
      then Inr (rng\<lparr>rf_faults := rf_faults rng @ [f]\<rparr>) else Inl Out_Of_Bounds)"

definition add_range_fault :: "fbd_device \<Rightarrow> fbd_range_fault \<Rightarrow> fbd_device" where
  "add_range_fault device rng = device\<lparr>d_ranges := rng # d_ranges device\<rparr>"

text \<open>
  The body the three functions \<^verbatim>\<open>fbd_add_*_fault_with_operation\<close> share, once the range has
  been looked up.
\<close>

definition add_fault_with_operation ::
    "fbd_device \<Rightarrow> nat option \<Rightarrow> u8 \<Rightarrow> range_ptr \<Rightarrow> u8 \<Rightarrow> bool \<Rightarrow> u8 \<Rightarrow> u64 option
      \<Rightarrow> (int \<times> fbd_device) res" where
  "add_fault_with_operation device pos m p fault persistent op extra =
     (let f = fbd_new_fault op fault persistent extra in
      case pos of
        None \<Rightarrow>
          rbind (add_fault ((fbd_new_range_fault m)\<lparr>rf_ptr := p\<rparr>) f) (\<lambda>bf.
            Inr (FBD_STS_OK, add_range_fault device bf))
      | Some i \<Rightarrow>
          (case get_fault (d_ranges device ! i) fault op of
             None \<Rightarrow>
               rbind (add_fault (d_ranges device ! i) f) (\<lambda>bf.
                 Inr (FBD_STS_OK, device\<lparr>d_ranges := (d_ranges device)[i := bf]\<rparr>))
           | Some _ \<Rightarrow> Inr (FBD_STS_DUP_FAULT, device)))"

definition fbd_add_block_fault_with_operation ::
    "fbd_device \<Rightarrow> u32 \<Rightarrow> u64 \<Rightarrow> u8 \<Rightarrow> bool \<Rightarrow> u8 \<Rightarrow> u64 option \<Rightarrow> (int \<times> fbd_device) res" where
  "fbd_add_block_fault_with_operation device sz offSet fault persistent op extra =
     add_fault_with_operation device (get_range_block device sz offSet) FBD_MODE_BLOCK
       (fbd_new_block_fault sz offSet) fault persistent op extra"

definition fbd_add_hash_fault_with_operation ::
    "fbd_device \<Rightarrow> fbd_hash \<Rightarrow> u8 \<Rightarrow> bool \<Rightarrow> u8 \<Rightarrow> u64 option \<Rightarrow> (int \<times> fbd_device) res" where
  "fbd_add_hash_fault_with_operation device hash fault persistent op extra =
     rbind (get_range_hash device hash) (\<lambda>pos.
       add_fault_with_operation device pos FBD_MODE_HASH (fbd_new_hash_fault hash)
         fault persistent op extra)"

definition fbd_add_dedup_fault_with_operation ::
    "fbd_device \<Rightarrow> fbd_hash \<Rightarrow> u8 \<Rightarrow> bool \<Rightarrow> u8 \<Rightarrow> u64 option \<Rightarrow> (int \<times> fbd_device) res" where
  "fbd_add_dedup_fault_with_operation device hash fault persistent op extra =
     rbind (get_range_dedup device hash) (\<lambda>pos.
       add_fault_with_operation device pos FBD_MODE_DEDUP (fbd_new_dedup_fault hash)
         fault persistent op extra)"

section \<open>The named adders\<close>

definition fbd_add_bit_flip_block_fault ::
    "fbd_device \<Rightarrow> u32 \<Rightarrow> u64 \<Rightarrow> u8 \<Rightarrow> bool \<Rightarrow> (int \<times> fbd_device) res" where
  "fbd_add_bit_flip_block_fault device sz offSet operation persistent =
     (let res_status = check_size_offSet (uint sz) (uint offSet) in
      if res_status \<noteq> FBD_STS_OK then Inr (res_status, device)
      else fbd_add_block_fault_with_operation device sz offSet FBD_FAULT_BIT_FLIP persistent operation None)"

definition fbd_add_bit_flip_hash_fault ::
    "fbd_device \<Rightarrow> fbd_hash \<Rightarrow> u8 \<Rightarrow> bool \<Rightarrow> (int \<times> fbd_device) res" where
  "fbd_add_bit_flip_hash_fault device hash operation persistent =
     fbd_add_hash_fault_with_operation device hash FBD_FAULT_BIT_FLIP persistent operation None"

definition fbd_add_bit_flip_dedup_fault ::
    "fbd_device \<Rightarrow> fbd_hash \<Rightarrow> u8 \<Rightarrow> bool \<Rightarrow> (int \<times> fbd_device) res" where
  "fbd_add_bit_flip_dedup_fault device hash operation persistent =
     fbd_add_dedup_fault_with_operation device hash FBD_FAULT_BIT_FLIP persistent operation None"

definition fbd_add_bit_flip_block_write_fault ::
    "fbd_device \<Rightarrow> u32 \<Rightarrow> u64 \<Rightarrow> bool \<Rightarrow> (int \<times> fbd_device) res" where
  "fbd_add_bit_flip_block_write_fault device sz offSet persistent =
     fbd_add_bit_flip_block_fault device sz offSet FBD_OP_WRITE persistent"

definition fbd_add_bit_flip_block_read_fault ::
    "fbd_device \<Rightarrow> u32 \<Rightarrow> u64 \<Rightarrow> bool \<Rightarrow> (int \<times> fbd_device) res" where
  "fbd_add_bit_flip_block_read_fault device sz offSet persistent =
     fbd_add_bit_flip_block_fault device sz offSet FBD_OP_READ persistent"

definition fbd_add_bit_flip_hash_write_fault ::
    "fbd_device \<Rightarrow> fbd_hash \<Rightarrow> bool \<Rightarrow> (int \<times> fbd_device) res" where
  "fbd_add_bit_flip_hash_write_fault device hash persistent =
     fbd_add_bit_flip_hash_fault device hash FBD_OP_WRITE persistent"

definition fbd_add_bit_flip_hash_read_fault ::
    "fbd_device \<Rightarrow> fbd_hash \<Rightarrow> bool \<Rightarrow> (int \<times> fbd_device) res" where
  "fbd_add_bit_flip_hash_read_fault device hash persistent =
     fbd_add_bit_flip_hash_fault device hash FBD_OP_READ persistent"

definition fbd_add_bit_flip_dedup_write_fault ::
    "fbd_device \<Rightarrow> fbd_hash \<Rightarrow> bool \<Rightarrow> (int \<times> fbd_device) res" where
  "fbd_add_bit_flip_dedup_write_fault device hash persistent =
     fbd_add_bit_flip_dedup_fault device hash FBD_OP_WRITE persistent"

definition fbd_add_bit_flip_dedup_read_fault ::
    "fbd_device \<Rightarrow> fbd_hash \<Rightarrow> bool \<Rightarrow> (int \<times> fbd_device) res" where
  "fbd_add_bit_flip_dedup_read_fault device hash persistent =
     fbd_add_bit_flip_dedup_fault device hash FBD_OP_READ persistent"

definition fbd_add_slow_disk_block_fault ::
    "fbd_device \<Rightarrow> u32 \<Rightarrow> u64 \<Rightarrow> u8 \<Rightarrow> bool \<Rightarrow> u64 \<Rightarrow> (int \<times> fbd_device) res" where
  "fbd_add_slow_disk_block_fault device sz offSet operation persistent ms =
     (let res_status = check_size_offSet (uint sz) (uint offSet) in
      if res_status \<noteq> FBD_STS_OK then Inr (res_status, device)
      else if ms < 0 then Inr (FBD_STS_WRONG_INPUT, device)
      else fbd_add_block_fault_with_operation device sz offSet FBD_FAULT_SLOW_DISK persistent operation (Some ms))"

definition fbd_add_slow_disk_hash_fault ::
    "fbd_device \<Rightarrow> fbd_hash \<Rightarrow> u8 \<Rightarrow> bool \<Rightarrow> u64 \<Rightarrow> (int \<times> fbd_device) res" where
  "fbd_add_slow_disk_hash_fault device hash operation persistent ms =
     fbd_add_hash_fault_with_operation device hash FBD_FAULT_SLOW_DISK persistent operation (Some ms)"

definition fbd_add_slow_disk_dedup_fault ::
    "fbd_device \<Rightarrow> fbd_hash \<Rightarrow> u8 \<Rightarrow> bool \<Rightarrow> u64 \<Rightarrow> (int \<times> fbd_device) res" where
  "fbd_add_slow_disk_dedup_fault device hash operation persistent ms =
     fbd_add_dedup_fault_with_operation device hash FBD_FAULT_SLOW_DISK persistent operation (Some ms)"

definition fbd_add_slow_disk_block_write_fault ::
    "fbd_device \<Rightarrow> u32 \<Rightarrow> u64 \<Rightarrow> bool \<Rightarrow> u64 \<Rightarrow> (int \<times> fbd_device) res" where
  "fbd_add_slow_disk_block_write_fault device sz offSet persistent ms =
     fbd_add_slow_disk_block_fault device sz offSet FBD_OP_WRITE persistent ms"

definition fbd_add_slow_disk_block_read_fault ::
    "fbd_device \<Rightarrow> u32 \<Rightarrow> u64 \<Rightarrow> bool \<Rightarrow> u64 \<Rightarrow> (int \<times> fbd_device) res" where
  "fbd_add_slow_disk_block_read_fault device sz offSet persistent ms =
     fbd_add_slow_disk_block_fault device sz offSet FBD_OP_READ persistent ms"

definition fbd_add_slow_disk_hash_write_fault ::
    "fbd_device \<Rightarrow> fbd_hash \<Rightarrow> bool \<Rightarrow> u64 \<Rightarrow> (int \<times> fbd_device) res" where
  "fbd_add_slow_disk_hash_write_fault device hash persistent ms =
     fbd_add_slow_disk_hash_fault device hash FBD_OP_WRITE persistent ms"

definition fbd_add_slow_disk_hash_read_fault ::
    "fbd_device \<Rightarrow> fbd_hash \<Rightarrow> bool \<Rightarrow> u64 \<Rightarrow> (int \<times> fbd_device) res" where
  "fbd_add_slow_disk_hash_read_fault device hash persistent ms =
     fbd_add_slow_disk_hash_fault device hash FBD_OP_READ persistent ms"

definition fbd_add_slow_disk_dedup_write_fault ::
    "fbd_device \<Rightarrow> fbd_hash \<Rightarrow> bool \<Rightarrow> u64 \<Rightarrow> (int \<times> fbd_device) res" where
  "fbd_add_slow_disk_dedup_write_fault device hash persistent ms =
     fbd_add_slow_disk_dedup_fault device hash FBD_OP_WRITE persistent ms"

definition fbd_add_slow_disk_dedup_read_fault ::
    "fbd_device \<Rightarrow> fbd_hash \<Rightarrow> bool \<Rightarrow> u64 \<Rightarrow> (int \<times> fbd_device) res" where
  "fbd_add_slow_disk_dedup_read_fault device hash persistent ms =
     fbd_add_slow_disk_dedup_fault device hash FBD_OP_READ persistent ms"

definition fbd_add_medium_error_block_fault ::
    "fbd_device \<Rightarrow> u32 \<Rightarrow> u64 \<Rightarrow> u8 \<Rightarrow> bool \<Rightarrow> (int \<times> fbd_device) res" where
  "fbd_add_medium_error_block_fault device sz offSet operation persistent =
     (let res_status = check_size_offSet (uint sz) (uint offSet) in
      if res_status \<noteq> FBD_STS_OK then Inr (res_status, device)
      else fbd_add_block_fault_with_operation device sz offSet FBD_FAULT_MEDIUM persistent operation None)"

definition fbd_add_medium_error_hash_fault ::
    "fbd_device \<Rightarrow> fbd_hash \<Rightarrow> u8 \<Rightarrow> bool \<Rightarrow> (int \<times> fbd_device) res" where
  "fbd_add_medium_error_hash_fault device hash operation persistent =
     fbd_add_hash_fault_with_operation device hash FBD_FAULT_MEDIUM persistent operation None"

definition fbd_add_medium_error_dedup_fault ::
    "fbd_device \<Rightarrow> fbd_hash \<Rightarrow> u8 \<Rightarrow> bool \<Rightarrow> (int \<times> fbd_device) res" where
  "fbd_add_medium_error_dedup_fault device hash operation persistent =
     fbd_add_dedup_fault_with_operation device hash FBD_FAULT_MEDIUM persistent operation None"

definition fbd_add_medium_error_block_write_fault ::
    "fbd_device \<Rightarrow> u32 \<Rightarrow> u64 \<Rightarrow> bool \<Rightarrow> (int \<times> fbd_device) res" where
  "fbd_add_medium_error_block_write_fault device sz offSet persistent =
     fbd_add_medium_error_block_fault device sz offSet FBD_OP_WRITE persistent"

definition fbd_add_medium_error_block_read_fault ::
    "fbd_device \<Rightarrow> u32 \<Rightarrow> u64 \<Rightarrow> bool \<Rightarrow> (int \<times> fbd_device) res" where
  "fbd_add_medium_error_block_read_fault device sz offSet persistent =
     fbd_add_medium_error_block_fault device sz offSet FBD_OP_READ persistent"

definition fbd_add_medium_error_hash_write_fault ::
    "fbd_device \<Rightarrow> fbd_hash \<Rightarrow> bool \<Rightarrow> (int \<times> fbd_device) res" where
  "fbd_add_medium_error_hash_write_fault device hash persistent =
     fbd_add_medium_error_hash_fault device hash FBD_OP_WRITE persistent"

definition fbd_add_medium_error_hash_read_fault ::
    "fbd_device \<Rightarrow> fbd_hash \<Rightarrow> bool \<Rightarrow> (int \<times> fbd_device) res" where
  "fbd_add_medium_error_hash_read_fault device hash persistent =
     fbd_add_medium_error_hash_fault device hash FBD_OP_READ persistent"

definition fbd_add_medium_error_dedup_write_fault ::
    "fbd_device \<Rightarrow> fbd_hash \<Rightarrow> bool \<Rightarrow> (int \<times> fbd_device) res" where
  "fbd_add_medium_error_dedup_write_fault device hash persistent =
     fbd_add_medium_error_dedup_fault device hash FBD_OP_WRITE persistent"

definition fbd_add_medium_error_dedup_read_fault ::
    "fbd_device \<Rightarrow> fbd_hash \<Rightarrow> bool \<Rightarrow> (int \<times> fbd_device) res" where
  "fbd_add_medium_error_dedup_read_fault device hash persistent =
     fbd_add_medium_error_dedup_fault device hash FBD_OP_READ persistent"

section \<open>Removers\<close>

definition fbd_remove_all_faults :: "fbd_device \<Rightarrow> int \<times> fbd_device" where
  "fbd_remove_all_faults dev = (FBD_STS_OK, dev\<lparr>d_ranges := []\<rparr>)"

end
