(* ===== verification/Fbd_Registry.thy ===== *)
theory Fbd_Registry
  imports Fbd_Structs
begin

text \<open>
  Correctness of the fault registry of \<^verbatim>\<open>fbdd/fbd_structs.c\<close>. The list
  \<^verbatim>\<open>blocks_with_fault\<close> implements a table from keys to fault lists (\<open>reg_map\<close>); the key of a
  range is its size and offset in block mode and its mode and digest otherwise. The locale
  \<open>fault_table\<close> is the contract the socket server relies on, interpreted for the three
  \<^verbatim>\<open>fbd_add_*_fault_with_operation\<close> functions.
\<close>

section \<open>Keys, the abstraction and the invariant\<close>

definition hash_view :: "u8 \<Rightarrow> fbd_hash \<Rightarrow> bytes \<times> u64 \<times> u64" where
  \<comment> \<open>what \<^verbatim>\<open>fbd_hash_compare\<close> looks at\<close>
  "hash_view ht h =
     (if ht = FBD_HASH_MD5 then (c_string (md5_member h), 0, 0)
      else ([], xxh3_low64 h, xxh3_high64 h))"

datatype rkey = No_Key | Block_Key u32 u64 | Digest_Key u8 "bytes \<times> u64 \<times> u64"

definition range_key :: "u8 \<Rightarrow> fbd_range_fault \<Rightarrow> rkey" where
  "range_key ht r =
     (case rf_ptr r of
        Null_Ptr \<Rightarrow> No_Key
      | Block_Ptr b \<Rightarrow>
          if rf_mode r = FBD_MODE_BLOCK then Block_Key (bf_size b) (bf_offSet b) else No_Key
      | Hash_Ptr h \<Rightarrow>
          if rf_mode r = FBD_MODE_HASH \<or> rf_mode r = FBD_MODE_DEDUP
          then Digest_Key (rf_mode r) (hash_view ht h) else No_Key)"

lemma range_key_update [simp]: "range_key ht (r\<lparr>rf_faults := fs\<rparr>) = range_key ht r"
  by (cases "rf_ptr r") (simp_all add: range_key_def)

definition reg_map :: "fbd_device \<Rightarrow> rkey \<Rightarrow> fbd_fault list option" where
  "reg_map dev = map_of (map (\<lambda>r. (range_key (d_hash_type dev) r, rf_faults r)) (d_ranges dev))"

definition faults_at :: "fbd_device \<Rightarrow> rkey \<Rightarrow> fbd_fault list" where
  "faults_at dev k = (case reg_map dev k of None \<Rightarrow> [] | Some fs \<Rightarrow> fs)"

definition hash_ok :: "fbd_device \<Rightarrow> bool" where
  "hash_ok dev \<longleftrightarrow> d_hash_type dev = FBD_HASH_MD5 \<or> d_hash_type dev = FBD_HASH_XXH3_128"

definition fault_ok :: "fbd_fault \<Rightarrow> bool" where
  "fault_ok f \<longleftrightarrow> (f_fault f = FBD_FAULT_SLOW_DISK \<longrightarrow> f_args f \<noteq> None)"

definition compatible :: "fbd_fault \<Rightarrow> fbd_fault \<Rightarrow> bool" where
  \<comment> \<open>no two faults of a range have the same type and a common operation\<close>
  "compatible f g \<longleftrightarrow> (f_fault f = f_fault g \<longrightarrow> f_operation f AND f_operation g = 0)"

definition faults_ok :: "fbd_fault list \<Rightarrow> bool" where
  "faults_ok fs \<longleftrightarrow> fs \<noteq> [] \<and> length fs \<le> MAX_FAULTS \<and> sorted_wrt compatible fs \<and> list_all fault_ok fs"

definition reg_wf :: "fbd_device \<Rightarrow> bool" where
  "reg_wf dev \<longleftrightarrow>
     (\<forall>r \<in> set (d_ranges dev). range_key (d_hash_type dev) r \<noteq> No_Key \<and> faults_ok (rf_faults r)) \<and>
     distinct (map (range_key (d_hash_type dev)) (d_ranges dev))"

text \<open>\<open>clash fs f\<close>: \<^verbatim>\<open>get_fault\<close> finds a fault of \<open>f\<close>'s type and operation.\<close>

definition clash :: "fbd_fault list \<Rightarrow> fbd_fault \<Rightarrow> bool" where
  "clash fs f \<longleftrightarrow> (\<exists>g \<in> set fs. fault_is (f_fault f) (f_operation f) g)"

lemma clash_Nil [simp]: "\<not> clash [] f"
  by (simp add: clash_def)

lemma get_fault_None_iff:
  "get_fault r (f_fault f) (f_operation f) = None \<longleftrightarrow> \<not> clash (rf_faults r) f"
  by (simp add: get_fault_def clash_def find_pos_None_iff)

lemma not_clash_compatible: "\<not> clash fs f \<longleftrightarrow> (\<forall>g \<in> set fs. compatible g f)"
  by (auto simp: clash_def fault_is_def compatible_def)

lemma faults_ok_snoc:
  assumes "fs = [] \<or> faults_ok fs" and "\<not> clash fs f" and "length fs < MAX_FAULTS" and "fault_ok f"
  shows "faults_ok (fs @ [f])"
  using assms by (auto simp: faults_ok_def sorted_wrt_append not_clash_compatible)

section \<open>The three lookups are one: the first range with the key\<close>

lemma block_range_is_key:
  "block_range_is sz off r \<longleftrightarrow> range_key ht r = Block_Key sz off"
  by (auto simp: block_range_is_def range_key_def split: range_ptr.splits)

lemma get_range_block_key:
  "get_range_block dev sz off = find_pos (\<lambda>r. range_key (d_hash_type dev) r = Block_Key sz off) (d_ranges dev)"
  unfolding get_range_block_def by (rule find_pos_cong) (rule block_range_is_key)

lemma fbd_hash_compare_view:
  "hash_ok dev \<Longrightarrow> fbd_hash_compare dev h1 h2 =
     Inr (hash_view (d_hash_type dev) h1 = hash_view (d_hash_type dev) h2)"
  by (auto simp: hash_ok_def fbd_hash_compare_def hash_view_def strcmp_eq_def)

lemma find_hash_range_key:
  assumes "hash_ok dev" and "m = FBD_MODE_HASH \<or> m = FBD_MODE_DEDUP"
    and "\<forall>r \<in> set rs. range_key (d_hash_type dev) r \<noteq> No_Key"
  shows "find_hash_range dev m h rs =
    Inr (find_pos (\<lambda>r. range_key (d_hash_type dev) r = Digest_Key m (hash_view (d_hash_type dev) h)) rs)"
  using assms(3)
proof (induction rs)
  case Nil
  show ?case by simp
next
  case (Cons r rs)
  then have key: "range_key (d_hash_type dev) r \<noteq> No_Key" by simp
  from Cons show ?case
  proof (cases "rf_mode r = m")
    case True
    with key assms(2) obtain h' where p: "rf_ptr r = Hash_Ptr h'"
      by (auto simp: range_key_def split: range_ptr.splits if_splits)
    have "range_key (d_hash_type dev) r = Digest_Key m (hash_view (d_hash_type dev) h')"
      using True p assms(2) by (auto simp: range_key_def)
    with Cons True p show ?thesis
      by (auto simp: ptr_hash_def fbd_hash_compare_view [OF assms(1)])
  next
    case False
    then have "range_key (d_hash_type dev) r \<noteq> Digest_Key m (hash_view (d_hash_type dev) h)"
      by (auto simp: range_key_def split: range_ptr.splits)
    with Cons False show ?thesis by auto
  qed
qed

lemma get_range_digest_key:
  assumes "reg_wf dev" and "hash_ok dev"
  shows "get_range_hash dev h = Inr (find_pos (\<lambda>r. range_key (d_hash_type dev) r =
           Digest_Key FBD_MODE_HASH (hash_view (d_hash_type dev) h)) (d_ranges dev))"
    and "get_range_dedup dev h = Inr (find_pos (\<lambda>r. range_key (d_hash_type dev) r =
           Digest_Key FBD_MODE_DEDUP (hash_view (d_hash_type dev) h)) (d_ranges dev))"
  using assms by (simp_all add: get_range_hash_def get_range_dedup_def find_hash_range_key reg_wf_def)

section \<open>What one addition does\<close>

definition table_add :: "(rkey \<Rightarrow> fbd_fault list option) \<Rightarrow> rkey \<Rightarrow> fbd_fault
    \<Rightarrow> rkey \<Rightarrow> fbd_fault list option" where
  "table_add t k f = t(k \<mapsto> (case t k of None \<Rightarrow> [] | Some fs \<Rightarrow> fs) @ [f])"

lemma faults_at_find:
  "faults_at dev k =
     (case find_pos (\<lambda>r. range_key (d_hash_type dev) r = k) (d_ranges dev) of
        None \<Rightarrow> [] | Some i \<Rightarrow> rf_faults (d_ranges dev ! i))"
  by (simp add: faults_at_def reg_map_def map_of_find_pos split: option.splits)

lemma reg_map_same_type:
  "d_hash_type dev' = d_hash_type dev \<Longrightarrow>
   reg_map dev' = map_of (map (\<lambda>r. (range_key (d_hash_type dev) r, rf_faults r)) (d_ranges dev'))"
  by (simp add: reg_map_def)

lemma reg_wf_update_at:
  assumes "reg_wf dev" and "i < length (d_ranges dev)"
    and "range_key (d_hash_type dev) r = range_key (d_hash_type dev) (d_ranges dev ! i)"
    and "faults_ok (rf_faults r)"
  shows "reg_wf (dev\<lparr>d_ranges := (d_ranges dev)[i := r]\<rparr>)"
    and "reg_map (dev\<lparr>d_ranges := (d_ranges dev)[i := r]\<rparr>) =
      (reg_map dev)(range_key (d_hash_type dev) r \<mapsto> rf_faults r)"
proof -
  have "map (range_key (d_hash_type dev)) ((d_ranges dev)[i := r]) =
      map (range_key (d_hash_type dev)) (d_ranges dev)"
    using assms(2,3) by (simp add: map_update list_update_same_conv)
  moreover have "range_key (d_hash_type dev) r \<noteq> No_Key"
    using assms(1-3) by (simp add: reg_wf_def)
  moreover have "r' = r \<or> r' \<in> set (d_ranges dev)" if "r' \<in> set ((d_ranges dev)[i := r])" for r'
    using that set_update_subset_insert [of "d_ranges dev" i r] by blast
  ultimately show "reg_wf (dev\<lparr>d_ranges := (d_ranges dev)[i := r]\<rparr>)"
    using assms unfolding reg_wf_def by (simp, blast)
  show "reg_map (dev\<lparr>d_ranges := (d_ranges dev)[i := r]\<rparr>) =
      (reg_map dev)(range_key (d_hash_type dev) r \<mapsto> rf_faults r)"
    using assms by (simp add: reg_map_def map_of_update_at reg_wf_def)
qed

text \<open>
  The shared body, for the range with key \<open>k\<close>: a clash leaves the device as it is and
  reports a duplicate; a full range is written past its end; otherwise the fault is appended
  to the faults of exactly this key, and the invariant is kept.
\<close>

lemma add_fault_with_operation_correct:
  fixes dev f k
  defines "pos \<equiv> find_pos (\<lambda>r. range_key (d_hash_type dev) r = k) (d_ranges dev)"
  assumes wf: "reg_wf dev" and k: "range_key (d_hash_type dev) \<lparr>rf_mode = m, rf_faults = [f], rf_ptr = p\<rparr> = k"
    and "k \<noteq> No_Key" and ok: "fault_ok f"
    and f: "f = fbd_new_fault op fault persistent extra"
  shows "clash (faults_at dev k) f \<Longrightarrow>
      add_fault_with_operation dev pos m p fault persistent op extra = Inr (FBD_STS_DUP_FAULT, dev)"
    and "\<not> clash (faults_at dev k) f \<Longrightarrow> MAX_FAULTS \<le> length (faults_at dev k) \<Longrightarrow>
      add_fault_with_operation dev pos m p fault persistent op extra = Inl Out_Of_Bounds"
    and "\<not> clash (faults_at dev k) f \<Longrightarrow> length (faults_at dev k) < MAX_FAULTS \<Longrightarrow>
      \<exists>rs. add_fault_with_operation dev pos m p fault persistent op extra = Inr (FBD_STS_OK, dev\<lparr>d_ranges := rs\<rparr>)
        \<and> reg_wf (dev\<lparr>d_ranges := rs\<rparr>)
        \<and> reg_map (dev\<lparr>d_ranges := rs\<rparr>) = table_add (reg_map dev) k f"
proof -
  note defs = add_fault_with_operation_def add_fault_def fbd_new_range_fault_def add_range_fault_def
  have ftype: "f_fault f = fault" and fop: "f_operation f = op"
    by (simp_all add: f fbd_new_fault_def)
  have gf: "get_fault r fault op = None \<longleftrightarrow> \<not> clash (rf_faults r) f" for r
    using get_fault_None_iff [of r f] by (simp add: ftype fop)
  have at: "faults_at dev k = (case pos of None \<Rightarrow> [] | Some i \<Rightarrow> rf_faults (d_ranges dev ! i))"
    by (simp add: faults_at_find pos_def)
  show "add_fault_with_operation dev pos m p fault persistent op extra = Inr (FBD_STS_DUP_FAULT, dev)"
    if "clash (faults_at dev k) f"
    using that at gf by (auto simp: defs Let_def split: option.splits)
  show "add_fault_with_operation dev pos m p fault persistent op extra = Inl Out_Of_Bounds"
    if "\<not> clash (faults_at dev k) f" "MAX_FAULTS \<le> length (faults_at dev k)"
    using that at gf by (auto simp: defs Let_def split: option.splits simp flip: not_None_eq)
  show "\<exists>rs. add_fault_with_operation dev pos m p fault persistent op extra = Inr (FBD_STS_OK, dev\<lparr>d_ranges := rs\<rparr>)
        \<and> reg_wf (dev\<lparr>d_ranges := rs\<rparr>)
        \<and> reg_map (dev\<lparr>d_ranges := rs\<rparr>) = table_add (reg_map dev) k f"
    if nc: "\<not> clash (faults_at dev k) f" and len: "length (faults_at dev k) < MAX_FAULTS"
  proof (cases pos)
    case None
    let ?r = "\<lparr>rf_mode = m, rf_faults = [f], rf_ptr = p\<rparr>"
    from None have fresh: "\<forall>r \<in> set (d_ranges dev). range_key (d_hash_type dev) r \<noteq> k"
      by (simp add: pos_def find_pos_None_iff)
    have none: "reg_map dev k = None"
      using None by (simp add: reg_map_def map_of_find_pos pos_def)
    have "reg_wf (dev\<lparr>d_ranges := ?r # d_ranges dev\<rparr>)"
      using wf k fresh \<open>k \<noteq> No_Key\<close> faults_ok_snoc [of "[]" f] ok by (auto simp: reg_wf_def)
    moreover have "reg_map (dev\<lparr>d_ranges := ?r # d_ranges dev\<rparr>) = table_add (reg_map dev) k f"
      using k none by (simp add: reg_map_def table_add_def)
    ultimately show ?thesis
      using None by (auto simp: defs Let_def f)
  next
    case (Some i)
    then have i: "i < length (d_ranges dev)" and ki: "range_key (d_hash_type dev) (d_ranges dev ! i) = k"
      using find_pos_SomeD by (auto simp: pos_def dest: find_pos_SomeD)
    let ?r = "(d_ranges dev ! i)\<lparr>rf_faults := rf_faults (d_ranges dev ! i) @ [f]\<rparr>"
    have kr: "range_key (d_hash_type dev) ?r = k" using ki by simp
    have "faults_ok (rf_faults (d_ranges dev ! i))" using wf i by (auto simp: reg_wf_def)
    then have "faults_ok (rf_faults ?r)"
      using nc len at Some ok by (simp add: faults_ok_snoc)
    from reg_wf_update_at [OF wf i _ this] kr ki
    have "reg_wf (dev\<lparr>d_ranges := (d_ranges dev)[i := ?r]\<rparr>)"
      and "reg_map (dev\<lparr>d_ranges := (d_ranges dev)[i := ?r]\<rparr>) = (reg_map dev)(k \<mapsto> rf_faults ?r)"
      by simp_all
    moreover have "reg_map dev k = Some (rf_faults (d_ranges dev ! i))"
      using Some by (simp add: reg_map_def map_of_find_pos pos_def)
    moreover have "get_fault (d_ranges dev ! i) fault op = None"
      using gf nc at Some by simp
    ultimately show ?thesis
      using Some len at by (auto simp: defs Let_def f table_add_def)
  qed
qed

section \<open>The contract of the registry\<close>

text \<open>
  What the socket server may assume of a registry: a request either clashes with a registered
  fault and changes nothing, or finds the three slots of its key taken and writes past them,
  or is appended to the faults of the keys that denote the same blocks, and of no others.
\<close>

definition new_fault :: "fbd_fault \<Rightarrow> bool" where
  "new_fault f \<longleftrightarrow> f_active f \<and> fault_ok f"

locale fault_table =
  fixes find :: "'d \<Rightarrow> 'k \<Rightarrow> fbd_fault list"
    and add :: "'d \<Rightarrow> 'k \<Rightarrow> fbd_fault \<Rightarrow> (int \<times> 'd) res"
    and same :: "'d \<Rightarrow> 'k \<Rightarrow> 'k \<Rightarrow> bool"
    and inv :: "'d \<Rightarrow> bool"
  assumes same_refl: "same d k k"
    and capacity: "inv d \<Longrightarrow> length (find d k) \<le> MAX_FAULTS"
    and add_dup: "inv d \<Longrightarrow> new_fault f \<Longrightarrow> clash (find d k) f \<Longrightarrow>
      add d k f = Inr (FBD_STS_DUP_FAULT, d)"
    and add_full: "inv d \<Longrightarrow> new_fault f \<Longrightarrow> \<not> clash (find d k) f \<Longrightarrow>
      length (find d k) = MAX_FAULTS \<Longrightarrow> add d k f = Inl Out_Of_Bounds"
    and add_ok: "inv d \<Longrightarrow> new_fault f \<Longrightarrow> \<not> clash (find d k) f \<Longrightarrow>
      length (find d k) < MAX_FAULTS \<Longrightarrow>
      \<exists>d'. add d k f = Inr (FBD_STS_OK, d') \<and> inv d' \<and> same d' = same d \<and>
        (\<forall>k'. find d' k' = (if same d k k' then find d k @ [f] else find d k'))"
begin

lemma add_cases [consumes 2, case_names dup full ok]:
  assumes "inv d" and "new_fault f"
  obtains (dup) "clash (find d k) f" "add d k f = Inr (FBD_STS_DUP_FAULT, d)"
  | (full) "\<not> clash (find d k) f" "length (find d k) = MAX_FAULTS" "add d k f = Inl Out_Of_Bounds"
  | (ok) d' where "\<not> clash (find d k) f" "add d k f = Inr (FBD_STS_OK, d')" "inv d'" "same d' = same d"
      "\<And>k'. find d' k' = (if same d k k' then find d k @ [f] else find d k')"
proof (cases "clash (find d k) f")
  case True
  with assms show ?thesis by (auto intro: dup add_dup)
next
  case nc: False
  show ?thesis
  proof (cases "length (find d k) < MAX_FAULTS")
    case True
    with assms nc add_ok [of d f k] show ?thesis by (auto intro: ok)
  next
    case False
    with capacity [OF assms(1), of k] have "length (find d k) = MAX_FAULTS" by simp
    with assms nc show ?thesis by (auto intro: full add_full)
  qed
qed

lemma add_status:
  assumes "inv d" and "new_fault f" and "add d k f = Inr (s, d')"
  shows "inv d'" and "s = FBD_STS_OK \<or> s = FBD_STS_DUP_FAULT"
    and "s = FBD_STS_DUP_FAULT \<Longrightarrow> d' = d"
proof -
  show "inv d'"
    using assms(1,2) assms by (cases rule: add_cases [where k = k]) simp_all
  show "s = FBD_STS_OK \<or> s = FBD_STS_DUP_FAULT"
    using assms by (cases rule: add_cases [where k = k]) simp_all
  show "d' = d" if "s = FBD_STS_DUP_FAULT"
    using assms(1,2) assms(3) that by (cases rule: add_cases [where k = k]) simp_all
qed

lemma add_twice:
  assumes "inv d" and "new_fault f" and "f_operation f \<noteq> 0" and "add d k f = Inr (s, d')"
  shows "add d' k f = Inr (FBD_STS_DUP_FAULT, d')"
  using assms(1,2)
proof (cases rule: add_cases [where k = k])
  case dup
  with assms(4) show ?thesis by simp
next
  case full
  with assms(4) show ?thesis by simp
next
  case (ok d'')
  with assms(4) have "d'' = d'" by simp
  moreover have "clash (find d' k) f"
    using ok(5) [of k] \<open>d'' = d'\<close> assms(3) by (simp add: same_refl clash_def fault_is_def)
  ultimately show ?thesis using ok(3) assms(2) by (simp add: add_dup)
qed

lemma add_keeps:
  assumes "inv d" and "new_fault f" and "add d k f = Inr (s, d')"
    and "\<not> same d k k' \<or> find d k' = find d k"
  shows "\<exists>gs. find d' k' = find d k' @ gs"
  using assms(1,2) by (cases rule: add_cases [where k = k]) (use assms(3,4) in auto)

end

definition block_add :: "fbd_device \<Rightarrow> u32 \<times> u64 \<Rightarrow> fbd_fault \<Rightarrow> (int \<times> fbd_device) res" where
  "block_add dev k f = fbd_add_block_fault_with_operation dev (fst k) (snd k)
     (f_fault f) (f_persistent f) (f_operation f) (f_args f)"

definition hash_add :: "fbd_device \<Rightarrow> fbd_hash \<Rightarrow> fbd_fault \<Rightarrow> (int \<times> fbd_device) res" where
  "hash_add dev h f = fbd_add_hash_fault_with_operation dev h
     (f_fault f) (f_persistent f) (f_operation f) (f_args f)"

definition dedup_add :: "fbd_device \<Rightarrow> fbd_hash \<Rightarrow> fbd_fault \<Rightarrow> (int \<times> fbd_device) res" where
  "dedup_add dev h f = fbd_add_dedup_fault_with_operation dev h
     (f_fault f) (f_persistent f) (f_operation f) (f_args f)"

abbreviation digest_key :: "fbd_device \<Rightarrow> u8 \<Rightarrow> fbd_hash \<Rightarrow> rkey" where
  "digest_key dev m h \<equiv> Digest_Key m (hash_view (d_hash_type dev) h)"

lemma faults_at_capacity: "reg_wf dev \<Longrightarrow> length (faults_at dev k) \<le> MAX_FAULTS"
  by (auto simp: faults_at_find reg_wf_def faults_ok_def split: option.splits
      dest!: find_pos_SomeD)

lemma fbd_new_fault_self:
  "f_active f \<Longrightarrow> fbd_new_fault (f_operation f) (f_fault f) (f_persistent f) (f_args f) = f"
  by (simp add: fbd_new_fault_def)

lemmas add_body_correct = add_fault_with_operation_correct [OF _ _ _ _ fbd_new_fault_self [symmetric]]

lemma faults_at_table_add:
  assumes "reg_map dev' = table_add (reg_map dev) k f"
  shows "faults_at dev' k' = (if k = k' then faults_at dev k @ [f] else faults_at dev k')"
  using assms by (auto simp: faults_at_def table_add_def)

lemma new_range_key [simp]:
  "range_key ht \<lparr>rf_mode = FBD_MODE_BLOCK, rf_faults = fs, rf_ptr = fbd_new_block_fault sz off\<rparr> = Block_Key sz off"
  "range_key ht \<lparr>rf_mode = FBD_MODE_HASH, rf_faults = fs, rf_ptr = fbd_new_hash_fault h\<rparr> = Digest_Key FBD_MODE_HASH (hash_view ht h)"
  "range_key ht \<lparr>rf_mode = FBD_MODE_DEDUP, rf_faults = fs, rf_ptr = fbd_new_dedup_fault h\<rparr> = Digest_Key FBD_MODE_DEDUP (hash_view ht h)"
  by (simp_all add: range_key_def fbd_new_block_fault_def fbd_new_hash_fault_def fbd_new_dedup_fault_def)

lemmas adder_body = fbd_add_block_fault_with_operation_def fbd_add_hash_fault_with_operation_def
  fbd_add_dedup_fault_with_operation_def get_range_block_key get_range_digest_key
  block_add_def hash_add_def dedup_add_def new_fault_def

lemma hash_ok_ranges [simp]: "hash_ok (dev\<lparr>d_ranges := rs\<rparr>) = hash_ok dev"
  by (simp add: hash_ok_def)

interpretation blk: fault_table
  where find = "\<lambda>dev k. faults_at dev (Block_Key (fst k) (snd k))" and add = block_add
    and same = "\<lambda>_. (=)" and inv = "reg_wf"
proof (unfold_locales, goal_cases)
  case 1
  show ?case by simp
next
  case (2 d k)
  then show ?case by (simp add: faults_at_capacity)
next
  case (3 d f k)
  then show ?case by (simp add: adder_body add_body_correct(1))
next
  case (4 d f k)
  then show ?case by (simp add: adder_body add_body_correct(2))
next
  case (5 d f k)
  then have "reg_wf d" and "f_active f" and "fault_ok f" by (simp_all add: new_fault_def)
  from add_body_correct(3) [OF this(1) new_range_key(1) _ this(3,2)] 5
  obtain rs where "block_add d k f = Inr (FBD_STS_OK, d\<lparr>d_ranges := rs\<rparr>)" "reg_wf (d\<lparr>d_ranges := rs\<rparr>)"
    "reg_map (d\<lparr>d_ranges := rs\<rparr>) = table_add (reg_map d) (Block_Key (fst k) (snd k)) f"
    by (auto simp: adder_body)
  with 5 show ?case
    by (intro exI [of _ "d\<lparr>d_ranges := rs\<rparr>"]) (auto simp: faults_at_table_add prod_eq_iff)
qed

interpretation hsh: fault_table
  where find = "\<lambda>dev k. faults_at dev (digest_key dev FBD_MODE_HASH k)" and add = hash_add
    and same = "\<lambda>dev h h'. hash_view (d_hash_type dev) h = hash_view (d_hash_type dev) h'" and inv = "\<lambda>dev. reg_wf dev \<and> hash_ok dev"
proof (unfold_locales, goal_cases)
  case 1
  show ?case by simp
next
  case (2 d k)
  then show ?case by (simp add: faults_at_capacity)
next
  case (3 d f k)
  then show ?case by (simp add: adder_body add_body_correct(1))
next
  case (4 d f k)
  then show ?case by (simp add: adder_body add_body_correct(2))
next
  case (5 d f k)
  then have "reg_wf d" and "f_active f" and "fault_ok f" by (simp_all add: new_fault_def)
  from add_body_correct(3) [OF this(1) new_range_key(2) _ this(3,2)] 5
  obtain rs where "hash_add d k f = Inr (FBD_STS_OK, d\<lparr>d_ranges := rs\<rparr>)" "reg_wf (d\<lparr>d_ranges := rs\<rparr>)"
    "reg_map (d\<lparr>d_ranges := rs\<rparr>) = table_add (reg_map d) (digest_key d FBD_MODE_HASH k) f"
    by (auto simp: adder_body)
  with 5 show ?case
    by (intro exI [of _ "d\<lparr>d_ranges := rs\<rparr>"]) (auto simp: faults_at_table_add prod_eq_iff)
qed

interpretation ddp: fault_table
  where find = "\<lambda>dev k. faults_at dev (digest_key dev FBD_MODE_DEDUP k)" and add = dedup_add
    and same = "\<lambda>dev h h'. hash_view (d_hash_type dev) h = hash_view (d_hash_type dev) h'" and inv = "\<lambda>dev. reg_wf dev \<and> hash_ok dev"
proof (unfold_locales, goal_cases)
  case 1
  show ?case by simp
next
  case (2 d k)
  then show ?case by (simp add: faults_at_capacity)
next
  case (3 d f k)
  then show ?case by (simp add: adder_body add_body_correct(1))
next
  case (4 d f k)
  then show ?case by (simp add: adder_body add_body_correct(2))
next
  case (5 d f k)
  then have "reg_wf d" and "f_active f" and "fault_ok f" by (simp_all add: new_fault_def)
  from add_body_correct(3) [OF this(1) new_range_key(3) _ this(3,2)] 5
  obtain rs where "dedup_add d k f = Inr (FBD_STS_OK, d\<lparr>d_ranges := rs\<rparr>)" "reg_wf (d\<lparr>d_ranges := rs\<rparr>)"
    "reg_map (d\<lparr>d_ranges := rs\<rparr>) = table_add (reg_map d) (digest_key d FBD_MODE_DEDUP k) f"
    by (auto simp: adder_body)
  with 5 show ?case
    by (intro exI [of _ "d\<lparr>d_ranges := rs\<rparr>"]) (auto simp: faults_at_table_add prod_eq_iff)
qed

section \<open>The registry refines a table of faults\<close>

text \<open>
  The requests a registry serves, and the same requests on the abstract table: a clash reports
  a duplicate, a fourth fault on one key runs past the array, anything else is appended.
\<close>

datatype reg_cmd =
  Add_Block u32 u64 fbd_fault | Add_Hash fbd_hash fbd_fault | Add_Dedup fbd_hash fbd_fault | Reset_All

fun run_cmd :: "fbd_device \<Rightarrow> reg_cmd \<Rightarrow> (int \<times> fbd_device) res" where
  "run_cmd dev (Add_Block sz off f) = block_add dev (sz, off) f"
| "run_cmd dev (Add_Hash h f) = hash_add dev h f"
| "run_cmd dev (Add_Dedup h f) = dedup_add dev h f"
| "run_cmd dev Reset_All = Inr (fbd_remove_all_faults dev)"

fun run_cmds :: "fbd_device \<Rightarrow> reg_cmd list \<Rightarrow> (int list \<times> fbd_device) res" where
  "run_cmds dev [] = Inr ([], dev)"
| "run_cmds dev (c # cs) =
     rbind (run_cmd dev c) (\<lambda>(s, dev').
     rbind (run_cmds dev' cs) (\<lambda>(ss, dev''). Inr (s # ss, dev'')))"

type_synonym fault_spec = "rkey \<Rightarrow> fbd_fault list option"

definition spec_add :: "fault_spec \<Rightarrow> rkey \<Rightarrow> fbd_fault \<Rightarrow> (int \<times> fault_spec) res" where
  "spec_add t k f =
     (let fs = (case t k of None \<Rightarrow> [] | Some fs \<Rightarrow> fs) in
      if clash fs f then Inr (FBD_STS_DUP_FAULT, t)
      else if MAX_FAULTS \<le> length fs then Inl Out_Of_Bounds
      else Inr (FBD_STS_OK, t(k \<mapsto> fs @ [f])))"

fun spec_cmd :: "u8 \<Rightarrow> fault_spec \<Rightarrow> reg_cmd \<Rightarrow> (int \<times> fault_spec) res" where
  "spec_cmd ht t (Add_Block sz off f) = spec_add t (Block_Key sz off) f"
| "spec_cmd ht t (Add_Hash h f) = spec_add t (Digest_Key FBD_MODE_HASH (hash_view ht h)) f"
| "spec_cmd ht t (Add_Dedup h f) = spec_add t (Digest_Key FBD_MODE_DEDUP (hash_view ht h)) f"
| "spec_cmd ht t Reset_All = Inr (FBD_STS_OK, Map.empty)"

fun spec_cmds :: "u8 \<Rightarrow> fault_spec \<Rightarrow> reg_cmd list \<Rightarrow> (int list \<times> fault_spec) res" where
  "spec_cmds ht t [] = Inr ([], t)"
| "spec_cmds ht t (c # cs) =
     rbind (spec_cmd ht t c) (\<lambda>(s, t').
     rbind (spec_cmds ht t' cs) (\<lambda>(ss, t''). Inr (s # ss, t'')))"

definition cmd_ok :: "reg_cmd \<Rightarrow> bool" where
  "cmd_ok c = (case c of Add_Block _ _ f \<Rightarrow> new_fault f | Add_Hash _ f \<Rightarrow> new_fault f
     | Add_Dedup _ f \<Rightarrow> new_fault f | Reset_All \<Rightarrow> True)"

definition abs_result :: "('s \<times> fbd_device) res \<Rightarrow> ('s \<times> fault_spec) res" where
  "abs_result r = (case r of Inl e \<Rightarrow> Inl e | Inr (s, dev) \<Rightarrow> Inr (s, reg_map dev))"

lemma abs_result_simps [simp]:
  "abs_result (Inl e) = Inl e" "abs_result (Inr (s, dev)) = Inr (s, reg_map dev)"
  by (simp_all add: abs_result_def)

definition reg_step_ok :: "fbd_device \<Rightarrow> fbd_device \<Rightarrow> bool" where
  "reg_step_ok dev dev' \<longleftrightarrow> reg_wf dev' \<and> d_hash_type dev' = d_hash_type dev"

lemma add_body_refines:
  assumes "reg_wf dev" and "new_fault f" and "k \<noteq> No_Key"
    and "range_key (d_hash_type dev) \<lparr>rf_mode = m, rf_faults = [f], rf_ptr = p\<rparr> = k"
  defines "r \<equiv> add_fault_with_operation dev
      (find_pos (\<lambda>r. range_key (d_hash_type dev) r = k) (d_ranges dev)) m p
      (f_fault f) (f_persistent f) (f_operation f) (f_args f)"
  shows "abs_result r = spec_add (reg_map dev) k f \<and>
    (\<forall>s dev'. r = Inr (s, dev') \<longrightarrow> reg_step_ok dev dev')"
proof -
  have f: "f_active f" "fault_ok f" using assms(2) by (simp_all add: new_fault_def)
  note body = add_body_correct [OF assms(1,4,3) f(2,1), folded r_def]
  have fs: "(case reg_map dev k of None \<Rightarrow> [] | Some fs \<Rightarrow> fs) = faults_at dev k"
    by (simp add: faults_at_def)
  consider "clash (faults_at dev k) f"
    | "\<not> clash (faults_at dev k) f" "MAX_FAULTS \<le> length (faults_at dev k)"
    | "\<not> clash (faults_at dev k) f" "length (faults_at dev k) < MAX_FAULTS"
    by linarith
  then show ?thesis
  proof cases
    case 1
    with body(1) assms(1) show ?thesis by (auto simp: spec_add_def fs reg_step_ok_def)
  next
    case 2
    with body(2) show ?thesis by (simp add: spec_add_def fs)
  next
    case 3
    from body(3) [OF 3] show ?thesis
      using 3 by (auto simp: spec_add_def fs table_add_def reg_step_ok_def)
  qed
qed

lemma run_cmd_refines:
  assumes "reg_wf dev" and "hash_ok dev" and "cmd_ok c"
  shows "abs_result (run_cmd dev c) = spec_cmd (d_hash_type dev) (reg_map dev) c \<and>
    (\<forall>s dev'. run_cmd dev c = Inr (s, dev') \<longrightarrow> reg_step_ok dev dev')"
proof (cases c)
  case (Add_Block sz off f)
  with assms(3) have "new_fault f" by (simp add: cmd_ok_def)
  from add_body_refines [OF assms(1) this _ new_range_key(1) [of _ _ sz off]] show ?thesis
    by (simp add: Add_Block adder_body)
next
  case (Add_Hash h f)
  with assms(3) have "new_fault f" by (simp add: cmd_ok_def)
  from add_body_refines [OF assms(1) this _ new_range_key(2) [of _ _ h]] assms(1,2) show ?thesis
    by (simp add: Add_Hash adder_body)
next
  case (Add_Dedup h f)
  with assms(3) have "new_fault f" by (simp add: cmd_ok_def)
  from add_body_refines [OF assms(1) this _ new_range_key(3) [of _ _ h]] assms(1,2) show ?thesis
    by (simp add: Add_Dedup adder_body)
next
  case Reset_All
  then show ?thesis
    by (auto simp: fbd_remove_all_faults_def reg_map_def reg_wf_def reg_step_ok_def)
qed


text \<open>A small device for concrete evaluations: MD5 digests, block and dedup mode.\<close>

definition demo_device :: "fbd_range_fault list \<Rightarrow> fbd_device" where
  "demo_device rs =
     \<lparr>d_path = [], d_index = 0, d_fd = 3, d_size = 65536, d_logical_block_size = 4096, d_bdus_started = True,
      d_settings = \<lparr>block_mode = True, hash_mode = False, dedup_mode = False, device_mode = False\<rparr>,
      d_ranges = rs, d_hash_type = FBD_HASH_MD5\<rparr>"

lemma demo_device_simps [simp]:
  "d_ranges (demo_device rs) = rs" "d_hash_type (demo_device rs) = FBD_HASH_MD5"
  "d_settings (demo_device rs) = \<lparr>block_mode = True, hash_mode = False, dedup_mode = False, device_mode = False\<rparr>"
  "(demo_device rs)\<lparr>d_ranges := rs'\<rparr> = demo_device rs'" "hash_ok (demo_device rs)"
  by (simp_all add: demo_device_def hash_ok_def)

abbreviation bit_flip_on :: "u8 \<Rightarrow> bool \<Rightarrow> fbd_fault" where
  "bit_flip_on op persistent \<equiv> fbd_new_fault op FBD_FAULT_BIT_FLIP persistent None"

abbreviation slow_on :: "u8 \<Rightarrow> bool \<Rightarrow> u64 \<Rightarrow> fbd_fault" where
  "slow_on op persistent ms \<equiv> fbd_new_fault op FBD_FAULT_SLOW_DISK persistent (Some ms)"

abbreviation medium_on :: "u8 \<Rightarrow> bool \<Rightarrow> fbd_fault" where
  "medium_on op persistent \<equiv> fbd_new_fault op FBD_FAULT_MEDIUM persistent None"


section \<open>The named adders\<close>

text \<open>
  The requests of the socket server end in these functions. On a well-formed registry each
  of them is a request of the contract above, so it keeps the invariant whenever it returns.
\<close>

lemma named_block_adders:
  "fbd_add_bit_flip_block_fault dev sz off op p = block_add dev (sz, off) (bit_flip_on op p)"
  "fbd_add_slow_disk_block_fault dev sz off op p ms = block_add dev (sz, off) (slow_on op p ms)"
  "fbd_add_medium_error_block_fault dev sz off op p = block_add dev (sz, off) (medium_on op p)"
  by (simp_all add: fbd_add_bit_flip_block_fault_def fbd_add_slow_disk_block_fault_def
      fbd_add_medium_error_block_fault_def check_size_offSet_def block_add_def fbd_new_fault_def)

lemma named_hash_adders:
  "fbd_add_bit_flip_hash_fault dev h op p = hash_add dev h (bit_flip_on op p)"
  "fbd_add_slow_disk_hash_fault dev h op p ms = hash_add dev h (slow_on op p ms)"
  "fbd_add_medium_error_hash_fault dev h op p = hash_add dev h (medium_on op p)"
  by (simp_all add: fbd_add_bit_flip_hash_fault_def fbd_add_slow_disk_hash_fault_def
      fbd_add_medium_error_hash_fault_def hash_add_def fbd_new_fault_def)

lemma named_dedup_adders:
  "fbd_add_bit_flip_dedup_fault dev h op p = dedup_add dev h (bit_flip_on op p)"
  "fbd_add_slow_disk_dedup_fault dev h op p ms = dedup_add dev h (slow_on op p ms)"
  "fbd_add_medium_error_dedup_fault dev h op p = dedup_add dev h (medium_on op p)"
  by (simp_all add: fbd_add_bit_flip_dedup_fault_def fbd_add_slow_disk_dedup_fault_def
      fbd_add_medium_error_dedup_fault_def dedup_add_def fbd_new_fault_def)

lemmas named_adders = named_block_adders named_hash_adders named_dedup_adders

lemma new_fault_named [simp]:
  "new_fault (bit_flip_on op p)" "new_fault (slow_on op p ms)" "new_fault (medium_on op p)"
  by (simp_all add: new_fault_def fault_ok_def fbd_new_fault_def)


end
