(* ===== verification/Fbd_Inject.thy ===== *)
theory Fbd_Inject
  imports Fbd_Registry "HOL-Library.Multiset" "HOL-Library.Sublist"
begin

text \<open>
  \<^verbatim>\<open>fbdd/fault/fault.c\<close> and the injectors of \<^verbatim>\<open>fbdd/fbd_structs.c\<close>: how one 4096-byte
  block of a request meets the registered faults. The C loops are index loops over an array
  that shrinks while it is traversed; \<open>inject_loop\<close> keeps the index and the shifting, and
  \<open>fire\<close> is the structural reading it is proved equal to.
\<close>

section \<open>Sleeping\<close>

text \<open>
  \<open>nanosleep\<close> on a total of \<open>total\<close> nanoseconds: an interruption at \<open>k < total\<close> reports
  \<^verbatim>\<open>EINTR\<close> and leaves the remaining time; seconds or nanoseconds out of range are \<^verbatim>\<open>EINVAL\<close>.
\<close>

type_synonym timespec = "int \<times> int"

definition sys_nanosleep :: "world \<Rightarrow> timespec \<Rightarrow> int \<times> timespec \<times> world" where
  \<comment> \<open>result: 0, or the \<^verbatim>\<open>errno\<close>; the remaining time; the world\<close>
  "sys_nanosleep w ts =
     (if fst ts < 0 \<or> snd ts < 0 \<or> 999999999 < snd ts then (22, ts, w)
      else let total = nat (fst ts * 1000000000 + snd ts) in
        case naps w of
          [] \<Rightarrow> (0, ts, w\<lparr>slept := slept w + total\<rparr>)
        | k # ks \<Rightarrow>
            if k < total
            then (4, (int ((total - k) div 1000000000), int ((total - k) mod 1000000000)),
                  w\<lparr>naps := ks, slept := slept w + k\<rparr>)
            else (0, ts, w\<lparr>naps := ks, slept := slept w + total\<rparr>))"

lemma sys_nanosleep_naps:
  "sys_nanosleep w ts = (4, ts', w') \<Longrightarrow> length (naps w') < length (naps w)"
  by (auto simp: sys_nanosleep_def Let_def split: list.splits if_splits)

function msleep_loop :: "world \<Rightarrow> timespec \<Rightarrow> int \<times> world" where
  "msleep_loop w ts =
     (case sys_nanosleep w ts of (ret, ts', w') \<Rightarrow>
        if ret = 4 then msleep_loop w' ts' else (if ret = 0 then 0 else -1, w'))"
  by auto
termination
  by (relation "measure (\<lambda>(w, ts). length (naps w))") (auto intro: sys_nanosleep_naps [OF sym])

declare msleep_loop.simps [simp del]

definition msleep :: "world \<Rightarrow> u64 \<Rightarrow> int \<times> world" where
  \<comment> \<open>the argument, a \<^verbatim>\<open>uint64_t\<close>, is converted to \<^verbatim>\<open>long\<close>\<close>
  "msleep w ms =
     (let tms = sint ms in msleep_loop w (tms sdiv 1000, (tms smod 1000) * 1000000))"

definition fl_inject_bit_flip_fault_buffer :: "bytes \<Rightarrow> (int \<times> bytes) res" where
  "fl_inject_bit_flip_fault_buffer buffer =
     (if buffer = [] then Inl Out_Of_Bounds
      else Inr (FBD_STS_OK, buffer[0 := buffer ! 0 XOR 1]))"

definition fl_inject_slow_disk_fault :: "world \<Rightarrow> u64 \<Rightarrow> int \<times> world" where
  "fl_inject_slow_disk_fault w ms = (FBD_STS_OK, snd (msleep w ms))"

definition fl_inject_medium_disk_fault :: int where
  "fl_inject_medium_disk_fault = FBD_STS_MEDIUM_ERROR"

section \<open>The exception for deduplicated blocks\<close>

definition fbd_check_dedup_injection_exceptions ::
    "world \<Rightarrow> bytes \<Rightarrow> u32 \<Rightarrow> u64 \<Rightarrow> u8 \<Rightarrow> fbd_range_fault
      \<Rightarrow> (fbd_range_fault \<times> world \<times> bytes) res" where
  "fbd_check_dedup_injection_exceptions w buffer sz offset operation rng =
     (case get_fault_from_mode rng FBD_FAULT_BIT_FLIP FBD_OP_WRITE FBD_MODE_DEDUP of
        None \<Rightarrow> Inr (rng, w, buffer)
      | Some i \<Rightarrow>
          let f = rf_faults rng ! i in
          if f_active f \<and> operation = FBD_OP_READ
          then rbind (fl_inject_bit_flip_fault_buffer buffer) (\<lambda>(_, buffer').
                 if length buffer' < unat sz then Inl Out_Of_Bounds
                 else Inr (rng\<lparr>rf_faults := (rf_faults rng)[i := f\<lparr>f_active := False\<rparr>]\<rparr>,
                           snd (sys_pwrite w (take (unat sz) buffer') (unat offset)), buffer'))
          else Inr (rng, w, buffer))"

section \<open>The faults of the range that is hit\<close>

definition armed :: "u8 \<Rightarrow> fbd_fault \<Rightarrow> bool" where
  "armed operation f \<longleftrightarrow> f_operation f AND operation \<noteq> 0 \<and> f_active f"

definition inject_one :: "fbd_fault \<Rightarrow> int \<Rightarrow> world \<Rightarrow> bytes \<Rightarrow> (int \<times> world \<times> bytes) res" where
  \<comment> \<open>the \<^verbatim>\<open>switch\<close> over \<^verbatim>\<open>cur_fault->fault\<close>\<close>
  "inject_one f status w buffer =
     (if f_fault f = FBD_FAULT_BIT_FLIP
        then rbind (fl_inject_bit_flip_fault_buffer buffer) (\<lambda>(_, b). Inr (status, w, b))
      else if f_fault f = FBD_FAULT_SLOW_DISK
        then (case f_args f of
                None \<Rightarrow> Inl Wild_Pointer
              | Some ms \<Rightarrow> Inr (status, snd (fl_inject_slow_disk_fault w ms), buffer))
      else if f_fault f = FBD_FAULT_MEDIUM
        then Inr (fl_inject_medium_disk_fault, w, buffer)
      else Inr (status, w, buffer))"

function inject_loop ::
    "u8 \<Rightarrow> nat \<Rightarrow> fbd_fault list \<Rightarrow> bool \<Rightarrow> int \<Rightarrow> world \<Rightarrow> bytes
      \<Rightarrow> (fbd_fault list \<times> bool \<times> int \<times> world \<times> bytes) res" where
  \<comment> \<open>the loop over \<open>j\<close>; the flag is \<^verbatim>\<open>range_to_remove != NULL\<close>; removing the fault at \<open>j\<close>
     shifts the later ones down, and \<open>j\<close> is incremented all the same\<close>
  "inject_loop operation j faults rem status w buffer =
     (if j < length faults
      then if armed operation (faults ! j)
        then rbind (inject_one (faults ! j) status w buffer) (\<lambda>(status', w', buffer').
          if (status' \<noteq> 0 \<or> status' = FBD_STS_MEDIUM_ERROR) \<and> \<not> f_persistent (faults ! j)
          then let faults' = take j faults @ drop (Suc j) faults in
            inject_loop operation (Suc j) faults' (rem \<or> faults' = []) status' w' buffer'
          else inject_loop operation (Suc j) faults rem status' w' buffer')
        else inject_loop operation (Suc j) faults rem status w buffer
      else Inr (faults, rem, status, w, buffer))"
  by pat_completeness auto
termination
  by (relation "measure (\<lambda>(operation, j, faults, _). length faults - j)") auto

declare inject_loop.simps [simp del]

section \<open>Meeting the ranges of the registry\<close>

definition range_hit :: "fbd_device \<Rightarrow> fbd_hash option \<Rightarrow> u32 \<Rightarrow> u64 \<Rightarrow> fbd_range_fault \<Rightarrow> (int \<times> bool) res" where
  \<comment> \<open>the status and \<^verbatim>\<open>intersepted\<close> for one range; \<open>hash\<close> is None while the local variable is
     uninitialised\<close>
  "range_hit dev hash sz offset rng =
     (if rf_mode rng = FBD_MODE_BLOCK
      then (case rf_ptr rng of
              Block_Ptr bf \<Rightarrow>
                Inr (FBD_STS_OK, fst (intersept_memory (bf_offSet bf) (bf_offSet bf + ucast (bf_size bf) - 1)
                                        offset (offset + ucast sz - 1)))
            | _ \<Rightarrow> Inl Wild_Pointer)
      else if rf_mode rng = FBD_MODE_HASH \<or> rf_mode rng = FBD_MODE_DEDUP
      then rbind (ptr_hash (rf_ptr rng)) (\<lambda>hf.
           (case hash of
              None \<Rightarrow> Inl Uninitialised
            | Some h \<Rightarrow> rbind (fbd_hash_compare dev h hf) (\<lambda>eq. Inr (FBD_STS_OK, eq))))
      else Inr (FBD_STS_WRONG_MODE, False))"

definition inject_range ::
    "world \<Rightarrow> bytes \<Rightarrow> u32 \<Rightarrow> u64 \<Rightarrow> u8 \<Rightarrow> fbd_range_fault
      \<Rightarrow> (fbd_range_fault list \<times> int \<times> world \<times> bytes) res" where
  \<comment> \<open>the body for the range that is hit; the list is what replaces the range in
     \<^verbatim>\<open>blocks_with_fault\<close>\<close>
  "inject_range w buffer sz offset operation rng =
     rbind (fbd_check_dedup_injection_exceptions w buffer sz offset operation rng) (\<lambda>(rng1, w1, buffer1).
     rbind (inject_loop operation 0 (rf_faults rng1) False FBD_STS_OK w1 buffer1)
       (\<lambda>(faults, rem, status, w2, buffer2).
          Inr (if rem then [] else [rng1\<lparr>rf_faults := faults\<rparr>], status, w2, buffer2)))"

fun inject_ranges ::
    "fbd_device \<Rightarrow> fbd_hash option \<Rightarrow> world \<Rightarrow> bytes \<Rightarrow> u32 \<Rightarrow> u64 \<Rightarrow> u8 \<Rightarrow> fbd_range_fault list
      \<Rightarrow> (fbd_range_fault list \<times> int \<times> world \<times> bytes) res" where
  "inject_ranges dev hash w buffer sz offset operation [] = Inr ([], FBD_STS_OK, w, buffer)"
| "inject_ranges dev hash w buffer sz offset operation (rng # ranges) =
     rbind (range_hit dev hash sz offset rng) (\<lambda>(status, intersepted).
       if status \<noteq> FBD_STS_OK then Inr (rng # ranges, status, w, buffer)
       else if intersepted
       then rbind (inject_range w buffer sz offset operation rng) (\<lambda>(rs, status', w', buffer').
              Inr (rs @ ranges, status', w', buffer'))
       else rbind (inject_ranges dev hash w buffer sz offset operation ranges)
              (\<lambda>(rs, status', w', buffer'). Inr (rng # rs, status', w', buffer')))"

definition block_hash :: "hash_lib \<Rightarrow> fbd_hash \<Rightarrow> fbd_device \<Rightarrow> bytes \<Rightarrow> fbd_hash option res" where
  \<comment> \<open>the digest of the block, when a mode needs it; \<open>junk\<close> is the uninitialised union\<close>
  "block_hash lib junk dev buffer =
     (if hash_mode (d_settings dev) \<or> dedup_mode (d_settings dev)
      then rbind (fbd_string_to_hash lib dev buffer 4096 junk) (\<lambda>h. Inr (Some h))
      else Inr None)"

definition fbd_check_and_inject_fault ::
    "hash_lib \<Rightarrow> fbd_hash \<Rightarrow> fbd_device \<Rightarrow> world \<Rightarrow> bytes \<Rightarrow> u32 \<Rightarrow> u64 \<Rightarrow> u8
      \<Rightarrow> (int \<times> fbd_device \<times> world \<times> bytes) res" where
  \<comment> \<open>\<open>buffer\<close> holds the bytes from the pointer to the end of the request's buffer\<close>
  "fbd_check_and_inject_fault lib junk dev w buffer sz offset operation =
     rbind (block_hash lib junk dev buffer) (\<lambda>hash.
     rbind (inject_ranges dev hash w buffer sz offset operation (d_ranges dev))
       (\<lambda>(ranges, status, w', buffer'). Inr (status, dev\<lparr>d_ranges := ranges\<rparr>, w', buffer')))"

definition fbd_check_and_inject_write_fault ::
    "hash_lib \<Rightarrow> fbd_hash \<Rightarrow> fbd_device \<Rightarrow> world \<Rightarrow> bytes \<Rightarrow> u32 \<Rightarrow> u64
      \<Rightarrow> (int \<times> fbd_device \<times> world \<times> bytes) res" where
  "fbd_check_and_inject_write_fault lib junk dev w buffer sz offset =
     fbd_check_and_inject_fault lib junk dev w buffer sz offset FBD_OP_WRITE"

definition fbd_check_and_inject_read_fault ::
    "hash_lib \<Rightarrow> fbd_hash \<Rightarrow> fbd_device \<Rightarrow> world \<Rightarrow> bytes \<Rightarrow> u32 \<Rightarrow> u64
      \<Rightarrow> (int \<times> fbd_device \<times> world \<times> bytes) res" where
  "fbd_check_and_inject_read_fault lib junk dev w buffer sz offset =
     fbd_check_and_inject_fault lib junk dev w buffer sz offset FBD_OP_READ"

section \<open>Sleeping is exact\<close>

lemma msleep_loop_total:
  assumes "0 \<le> fst ts" and "0 \<le> snd ts" and "snd ts \<le> 999999999"
  shows "fst (msleep_loop w ts) = 0 \<and> disk (snd (msleep_loop w ts)) = disk w \<and>
    script (snd (msleep_loop w ts)) = script w \<and>
    slept (snd (msleep_loop w ts)) = slept w + nat (fst ts * 1000000000 + snd ts)"
  using assms
proof (induction w ts rule: msleep_loop.induct)
  case (1 w ts)
  define total where "total = nat (fst ts * 1000000000 + snd ts)"
  show ?case
  proof (cases "\<exists>k ks. naps w = k # ks \<and> k < total")
    case False
    then have "sys_nanosleep w ts = (0, ts, w\<lparr>naps := tl (naps w), slept := slept w + total\<rparr>)"
      using 1(2-) by (cases "naps w") (auto simp: sys_nanosleep_def total_def Let_def)
    then show ?thesis by (simp add: msleep_loop.simps total_def)
  next
    case True
    then obtain k ks where k: "naps w = k # ks" "k < total" by blast
    let ?ts = "(int ((total - k) div 1000000000), int ((total - k) mod 1000000000))"
    let ?w = "w\<lparr>naps := ks, slept := slept w + k\<rparr>"
    have nap: "sys_nanosleep w ts = (4, ?ts, ?w)"
      using 1(2-) k by (auto simp: sys_nanosleep_def total_def Let_def)
    have rest: "nat (int ((total - k) div 1000000000) * 1000000000 + int ((total - k) mod 1000000000)) = total - k"
      by (simp add: nat_add_distrib nat_mult_distrib)
    have "(total - k) mod 1000000000 < 1000000000" by simp
    then have "int ((total - k) mod 1000000000) \<le> 999999999" by linarith
    with 1(1) [OF nap [symmetric] refl refl] k rest show ?thesis
      by (simp add: msleep_loop.simps [of w ts] nap flip: total_def)
  qed
qed

lemma msleep_correct:
  assumes "ms < 2 ^ 63"
  shows "fst (msleep w ms) = 0" and "disk (snd (msleep w ms)) = disk w"
    and "slept (snd (msleep w ms)) = slept w + unat ms * 1000000"
proof -
  have s: "sint ms = int (unat ms)"
  proof -
    have "uint ms < 2 ^ 63" using assms by (simp add: word_less_def)
    then have "signed_take_bit 63 (uint ms) = uint ms"
      by (intro signed_take_bit_int_eq_self) (simp_all add: order_trans [OF _ uint_nonnegative])
    then show ?thesis by (simp add: sint_uint)
  qed
  have "(int (unat ms) sdiv 1000, int (unat ms) smod 1000 * 1000000) =
     (int (unat ms div 1000), int (unat ms mod 1000 * 1000000))"
    by (simp only: sdiv_nat_numeral smod_nat_numeral of_nat_mult of_nat_numeral)
  moreover have "unat ms mod 1000 * 1000000 \<le> 999999999"
    using mod_less_divisor [of 1000 "unat ms"] by linarith
  moreover have "nat (int (unat ms div 1000) * 1000000000 + int (unat ms mod 1000 * 1000000)) = unat ms * 1000000"
    using div_mult_mod_eq [of "unat ms" 1000] by linarith
  ultimately show "fst (msleep w ms) = 0" "disk (snd (msleep w ms)) = disk w"
    "slept (snd (msleep w ms)) = slept w + unat ms * 1000000"
    using msleep_loop_total [of "(int (unat ms div 1000), int (unat ms mod 1000 * 1000000))" w]
    by (simp_all add: msleep_def s Let_def)
qed

section \<open>The shrinking index loop is a structural traversal\<close>

text \<open>
  \<open>fire operation faults\<close>: the faults that survive a traversal, and those that fire, in
  order. The fault after a transient one that fires is stepped over.
\<close>

fun fire :: "u8 \<Rightarrow> fbd_fault list \<Rightarrow> fbd_fault list \<times> fbd_fault list" where
  "fire operation [] = ([], [])"
| "fire operation (f # fs) =
     (if armed operation f
      then if f_persistent f
        then (f # fst (fire operation fs), f # snd (fire operation fs))
        else (case fs of
                [] \<Rightarrow> ([], [f])
              | g # gs \<Rightarrow> (g # fst (fire operation gs), f # snd (fire operation gs)))
      else (f # fst (fire operation fs), snd (fire operation fs)))"

fun inject_all :: "fbd_fault list \<Rightarrow> int \<Rightarrow> world \<Rightarrow> bytes \<Rightarrow> (int \<times> world \<times> bytes) res" where
  "inject_all [] status w buffer = Inr (status, w, buffer)"
| "inject_all (f # fs) status w buffer =
     rbind (inject_one f status w buffer) (\<lambda>(status', w', buffer'). inject_all fs status' w' buffer')"

lemma inject_one_status:
  "inject_one f status w buffer = Inr (status', w', buffer') \<Longrightarrow> status \<noteq> 0 \<Longrightarrow> status' \<noteq> 0"
  by (auto simp: inject_one_def rbind_Inr_iff fl_inject_medium_disk_fault_def
      split: if_splits option.splits)

lemma inject_loop_fire_at:
  assumes "status \<noteq> 0"
  shows "inject_loop operation (length pre) (pre @ faults) rem status w buffer =
    rbind (inject_all (snd (fire operation faults)) status w buffer) (\<lambda>(status', w', buffer').
      Inr (pre @ fst (fire operation faults),
           rem \<or> faults \<noteq> [] \<and> pre @ fst (fire operation faults) = [], status', w', buffer'))"
  using assms
proof (induction "length faults" arbitrary: faults pre rem status w buffer rule: less_induct)
  case less
  show ?case
  proof (cases faults)
    case Nil
    then show ?thesis by (simp add: inject_loop.simps)
  next
    case (Cons f fs)
    note loop = inject_loop.simps [of operation "length pre" "pre @ f # fs"]
    have step: "inject_loop operation (Suc (length pre)) (pre @ f # fs) rem status' w' buffer' =
        rbind (inject_all (snd (fire operation fs)) status' w' buffer') (\<lambda>(status', w', buffer').
          Inr (pre @ f # fst (fire operation fs), rem, status', w', buffer'))"
      if "status' \<noteq> 0" for status' w' buffer'
      using less(1) [of fs status' "pre @ [f]" rem w' buffer'] that Cons by simp
    have skip: "inject_loop operation (Suc (length pre)) (pre @ fs) (rem \<or> pre @ fs = []) status' w' buffer' =
        rbind (inject_all (snd (fire operation (tl fs))) status' w' buffer') (\<lambda>(status', w', buffer').
          Inr (pre @ take 1 fs @ fst (fire operation (tl fs)), rem \<or> pre @ fs = [], status', w', buffer'))"
      if "status' \<noteq> 0" for status' w' buffer'
    proof (cases fs)
      case Nil
      then show ?thesis by (simp add: inject_loop.simps)
    next
      case (Cons g gs)
      then show ?thesis
        using less(1) [of gs status' "pre @ [g]" rem w' buffer'] that \<open>faults = f # fs\<close> by simp
    qed
    show ?thesis
    proof (cases "armed operation f")
      case False
      then show ?thesis using step [of status w buffer] less(2) by (simp add: Cons loop)
    next
      case True
      show ?thesis
      proof (cases "inject_one f status w buffer")
        case (Inl e)
        then show ?thesis unfolding Cons loop using True by (cases fs) simp_all
      next
        case (Inr r)
        then obtain status' w' buffer' where r: "inject_one f status w buffer = Inr (status', w', buffer')"
          by (cases r) auto
        then have "status' \<noteq> 0" using less(2) by (rule inject_one_status)
        then show ?thesis
          unfolding Cons loop using True r step [of status' w' buffer'] skip [of status' w' buffer']
          by (cases fs) simp_all
      qed
    qed
  qed
qed

lemma inject_loop_fire:
  "inject_loop operation 0 faults rem FBD_STS_OK w buffer =
    rbind (inject_all (snd (fire operation faults)) FBD_STS_OK w buffer) (\<lambda>(status', w', buffer').
      Inr (fst (fire operation faults),
           rem \<or> faults \<noteq> [] \<and> fst (fire operation faults) = [], status', w', buffer'))"
  using inject_loop_fire_at [of FBD_STS_OK operation "[]" faults] by simp

section \<open>What the faults that fire do\<close>

lemma msleep_loop_frame:
  "disk (snd (msleep_loop w ts)) = disk w \<and> script (snd (msleep_loop w ts)) = script w"
proof (induction w ts rule: msleep_loop.induct)
  case (1 w ts)
  obtain r ts' w' where nap: "sys_nanosleep w ts = (r, ts', w')" by (cases "sys_nanosleep w ts")
  then have "disk w' = disk w \<and> script w' = script w"
    by (auto simp: sys_nanosleep_def Let_def split: list.splits if_splits)
  with 1 [OF nap [symmetric] refl] show ?case
    by (cases "r = 4") (simp_all add: msleep_loop.simps [of w ts] nap)
qed

lemma msleep_invalid:
  assumes "2 ^ 63 \<le> ms"
  shows "msleep w ms = (-1, w)"
proof -
  have "sint ms < 0"
  proof -
    have "2 ^ 63 \<le> uint ms" "uint ms < 2 ^ 64"
      using assms uint_bounded [of ms] by (simp_all add: word_le_def)
    then have "uint ms div 2 ^ 63 = 1" 
      by (intro int_div_pos_eq [where r = "uint ms - 2 ^ 63"]) simp_all
    then show ?thesis by (simp add: sint_uint signed_take_bit_negative_iff bit_iff_odd)
  qed
  then obtain n where n: "sint ms = - int n" "0 < n"
    by (metis neg_int_cases)
  have "0 < n div 1000 \<or> 0 < n mod 1000"
    using n(2) div_mult_mod_eq [of n 1000] by linarith
  then have "fst (- int n sdiv 1000, - int n smod 1000 * 1000000) < 0 \<or>
      snd (- int n sdiv 1000, - int n smod 1000 * 1000000) < 0"
    using sdiv_nat_numeral [of n] smod_nat_numeral [of n] by simp
  then show ?thesis
    by (auto simp: msleep_def Let_def n msleep_loop.simps sys_nanosleep_def)
qed

definition flip_first :: "bytes \<Rightarrow> bytes" where
  "flip_first buffer = buffer[0 := buffer ! 0 XOR 1]"

lemma flip_first_simps [simp]:
  "length (flip_first b) = length b" "flip_first b = [] \<longleftrightarrow> b = []"
  by (simp_all add: flip_first_def)

lemma flip_first_flip_first [simp]: "flip_first (flip_first b) = b"
  by (cases b) (simp_all add: flip_first_def xor.assoc)

definition delay :: "fbd_fault \<Rightarrow> nat" where
  \<comment> \<open>nanoseconds a fault sleeps when it fires\<close>
  "delay f = (if f_fault f = FBD_FAULT_SLOW_DISK
     then case f_args f of None \<Rightarrow> 0 | Some ms \<Rightarrow> if ms < 2 ^ 63 then unat ms * 1000000 else 0
     else 0)"

abbreviation flips :: "fbd_fault list \<Rightarrow> nat" where
  "flips fs \<equiv> length (filter (\<lambda>f. f_fault f = FBD_FAULT_BIT_FLIP) fs)"

lemma inject_one_effect:
  assumes "fault_ok f" and "buffer \<noteq> []"
  shows "\<exists>w'. inject_one f status w buffer =
      Inr (if f_fault f = FBD_FAULT_MEDIUM then FBD_STS_MEDIUM_ERROR else status, w',
           if f_fault f = FBD_FAULT_BIT_FLIP then flip_first buffer else buffer) \<and>
    disk w' = disk w \<and> script w' = script w \<and> slept w' = slept w + delay f"
proof -
  have slow: "slept (snd (msleep w ms)) = slept w + (if ms < 2 ^ 63 then unat ms * 1000000 else 0)" for ms
    by (simp add: msleep_correct msleep_invalid)
  have frame: "disk (snd (msleep w ms)) = disk w" "script (snd (msleep w ms)) = script w" for ms
    by (simp_all add: msleep_def Let_def msleep_loop_frame)
  show ?thesis
    using assms slow frame
    by (auto simp: inject_one_def fl_inject_bit_flip_fault_buffer_def fl_inject_slow_disk_fault_def
        fl_inject_medium_disk_fault_def flip_first_def fault_ok_def delay_def)
qed

lemma inject_all_effect:
  assumes "list_all fault_ok fs" and "buffer \<noteq> []"
  shows "\<exists>w'. inject_all fs status w buffer =
      Inr (if \<exists>f \<in> set fs. f_fault f = FBD_FAULT_MEDIUM then FBD_STS_MEDIUM_ERROR else status, w',
           if odd (flips fs) then flip_first buffer else buffer) \<and>
    disk w' = disk w \<and> script w' = script w \<and> slept w' = slept w + sum_list (map delay fs)"
  using assms
proof (induction fs arbitrary: status w buffer)
  case Nil
  then show ?case by simp
next
  case (Cons f fs)
  then have "fault_ok f" by simp
  from inject_one_effect [OF this Cons.prems(2), of status w] obtain w1 s b where
    one: "inject_one f status w buffer = Inr (s, w1, b)"
    "s = (if f_fault f = FBD_FAULT_MEDIUM then FBD_STS_MEDIUM_ERROR else status)"
    "b = (if f_fault f = FBD_FAULT_BIT_FLIP then flip_first buffer else buffer)"
    "disk w1 = disk w" "script w1 = script w" "slept w1 = slept w + delay f" by blast
  have "b \<noteq> []" using one(3) Cons.prems(2) by simp
  with Cons.IH [of b s w1] Cons.prems(1) obtain w2 where
    "inject_all fs s w1 b =
      Inr (if \<exists>f \<in> set fs. f_fault f = FBD_FAULT_MEDIUM then FBD_STS_MEDIUM_ERROR else s, w2,
           if odd (flips fs) then flip_first b else b)"
    "disk w2 = disk w1" "script w2 = script w1" "slept w2 = slept w1 + sum_list (map delay fs)" by auto
  with one show ?case by auto
qed

section \<open>Which faults fire\<close>

lemma fire_Cons:
  "fire operation (f # fs) =
     (if armed operation f
      then if f_persistent f
        then (f # fst (fire operation fs), f # snd (fire operation fs))
        else (take 1 fs @ fst (fire operation (tl fs)), f # snd (fire operation (tl fs)))
      else (f # fst (fire operation fs), snd (fire operation fs)))"
  by (cases fs) simp_all

lemma skip_induct [case_names Nil Cons]:
  assumes "P []" and "\<And>f fs. P fs \<Longrightarrow> P (tl fs) \<Longrightarrow> P (f # fs)"
  shows "P fs"
proof (induction "length fs" arbitrary: fs rule: less_induct)
  case less
  then show ?case using assms by (cases fs) auto
qed

lemma subseq_sorted_wrt: "subseq xs ys \<Longrightarrow> sorted_wrt P ys \<Longrightarrow> sorted_wrt P xs"
  by (induction rule: list_emb.induct) (auto dest: list_emb_set)

lemma subseq_set: "subseq xs ys \<Longrightarrow> set xs \<subseteq> set ys"
  by (auto dest: list_emb_set)

lemma subseq_tl: "subseq xs (tl ys) \<Longrightarrow> subseq xs ys"
  by (cases ys) auto

lemma fire_subseq:
  "subseq (fst (fire operation fs)) fs" "subseq (snd (fire operation fs)) (filter (armed operation) fs)"
proof (induction fs rule: skip_induct)
  case Nil
  { case 1 show ?case by simp }
  { case 2 show ?case by simp }
next
  case (Cons f fs)
  have split: "fs = take 1 fs @ tl fs" by (cases fs) simp_all
  { case 1
    have "subseq (take 1 fs @ fst (fire operation (tl fs))) (take 1 fs @ tl fs)"
      by (simp only: subseq_append' Cons)
    then have "subseq (take 1 fs @ fst (fire operation (tl fs))) (f # fs)"
      using split by (metis list_emb_Cons)
    with Cons show ?case by (simp add: fire_Cons del: fire.simps(2)) }
  { case 2
    have "subseq (filter (armed operation) (tl fs)) (filter (armed operation) fs)"
      by (cases fs) auto
    with Cons show ?case
      by (auto simp: fire_Cons simp del: fire.simps(2) intro: subseq_order.trans) }
qed

lemma fire_mset:
  "mset fs = mset (fst (fire operation fs)) + mset (filter (\<lambda>f. \<not> f_persistent f) (snd (fire operation fs)))"
proof (induction fs rule: skip_induct)
  case Nil
  show ?case by simp
next
  case (Cons f fs)
  have "mset fs = mset (take 1 fs) + mset (tl fs)" by (cases fs) simp_all
  then have "mset fs = mset (take 1 fs) + (mset (fst (fire operation (tl fs))) +
      mset (filter (\<lambda>f. \<not> f_persistent f) (snd (fire operation (tl fs)))))"
    by (simp only: Cons(2) [symmetric])
  then show ?case
    by (cases "f_persistent f") (use Cons(1) in \<open>simp_all add: fire_Cons del: fire.simps(2)\<close>)
qed

lemma fire_persistent:
  "list_all f_persistent fs \<Longrightarrow> fire operation fs = (fs, filter (armed operation) fs)"
  by (induction fs) auto

lemma armed_pair_overlap:
  assumes "armed operation f" and "armed operation g" and "operation = FBD_OP_READ \<or> operation = FBD_OP_WRITE"
  shows "f_operation f AND f_operation g \<noteq> 0"
proof -
  have "bit x (0 :: nat)" if "x AND (1 :: u8) \<noteq> 0" for x
    using that by (auto simp: and_one_eq bit_0 even_iff_mod_2_eq_zero)
  moreover have "bit x (1 :: nat)" if "x AND (2 :: u8) \<noteq> 0" for x
  proof (rule ccontr)
    assume "\<not> bit x 1"
    then have "x AND 2 = 0"
      by (intro bit_word_eqI) (auto simp: bit_simps)
    with that show False by simp
  qed
  ultimately obtain n where "bit (f_operation f) n" "bit (f_operation g) n"
    using assms by (auto simp: armed_def)
  then have "bit (f_operation f AND f_operation g) n" by (simp add: bit_simps)
  then show ?thesis by auto
qed

lemma fire_flips:
  assumes "sorted_wrt compatible fs" and "operation = FBD_OP_READ \<or> operation = FBD_OP_WRITE"
  shows "flips (snd (fire operation fs)) \<le> 1"
proof (rule ccontr)
  let ?xs = "filter (\<lambda>f. f_fault f = FBD_FAULT_BIT_FLIP) (snd (fire operation fs))"
  assume "\<not> ?thesis"
  then obtain f g r where xs: "?xs = f # g # r"
    by (cases ?xs; cases "tl ?xs") auto
  have "subseq ?xs (filter (armed operation) fs)"
    using fire_subseq(2) subseq_order.trans subseq_filter_left by blast
  moreover have "sorted_wrt compatible (filter (armed operation) fs)"
    using assms(1) by (rule sorted_wrt_filter)
  ultimately have "sorted_wrt compatible ?xs" by (rule subseq_sorted_wrt)
  moreover have "set ?xs \<subseteq> {f. armed operation f}"
    using subseq_set [OF fire_subseq(2)] by fastforce
  ultimately have "compatible f g" "armed operation f" "armed operation g"
    by (auto simp: xs)
  moreover have "f \<in> set ?xs" "g \<in> set ?xs" unfolding xs by simp_all
  then have "f_fault f = FBD_FAULT_BIT_FLIP" "f_fault g = FBD_FAULT_BIT_FLIP" by simp_all
  ultimately show False using armed_pair_overlap [of operation f g] assms(2) by (simp add: compatible_def)
qed

section \<open>One block against the registry\<close>

lemma range_hit_well_formed:
  assumes "reg_wf dev" and "hash_ok dev" and "r \<in> set (d_ranges dev)"
    and "hash \<noteq> None \<or> rf_mode r = FBD_MODE_BLOCK"
  shows "\<exists>b. range_hit dev hash sz offset r = Inr (FBD_STS_OK, b)"
proof -
  have "range_key (d_hash_type dev) r \<noteq> No_Key"
    using assms(1,3) by (auto simp: reg_wf_def)
  then show ?thesis
    using assms(2,4)
    by (auto simp: range_key_def range_hit_def ptr_hash_def fbd_hash_compare_view
        split: range_ptr.splits if_splits)
qed

lemma inject_ranges_miss:
  assumes "\<forall>r \<in> set rs. range_hit dev hash sz offset r = Inr (FBD_STS_OK, False)"
  shows "inject_ranges dev hash w buffer sz offset operation (rs @ rest) =
    rbind (inject_ranges dev hash w buffer sz offset operation rest)
      (\<lambda>(rs', status, w', buffer'). Inr (rs @ rs', status, w', buffer'))"
  using assms
proof (induction rs)
  case Nil
  show ?case by (cases "inject_ranges dev hash w buffer sz offset operation rest") auto
next
  case (Cons r rs)
  then show ?case
    by (cases "inject_ranges dev hash w buffer sz offset operation rest") auto
qed

lemma dedup_exception_write:
  assumes "operation \<noteq> FBD_OP_READ \<or> rf_mode rng \<noteq> FBD_MODE_DEDUP"
  shows "fbd_check_dedup_injection_exceptions w buffer sz offset operation rng = Inr (rng, w, buffer)"
  using assms
  by (auto simp: fbd_check_dedup_injection_exceptions_def get_fault_from_mode_def Let_def split: option.splits)

definition survivors :: "u8 \<Rightarrow> fbd_range_fault \<Rightarrow> fbd_range_fault list" where
  \<comment> \<open>what is left of a range after its faults have fired: nothing when no fault is left\<close>
  "survivors operation rng =
     (if fst (fire operation (rf_faults rng)) = [] then []
      else [rng\<lparr>rf_faults := fst (fire operation (rf_faults rng))\<rparr>])"

abbreviation fires :: "u8 \<Rightarrow> fbd_range_fault \<Rightarrow> u8 \<Rightarrow> bool" where
  \<comment> \<open>a fault of the given type fires\<close>
  "fires operation rng t \<equiv> (\<exists>f \<in> set (snd (fire operation (rf_faults rng))). f_fault f = t)"

lemma flips_fires:
  assumes "faults_ok (rf_faults rng)" and "operation = FBD_OP_READ \<or> operation = FBD_OP_WRITE"
  shows "odd (flips (snd (fire operation (rf_faults rng)))) \<longleftrightarrow> fires operation rng FBD_FAULT_BIT_FLIP"
proof -
  have "flips (snd (fire operation (rf_faults rng))) \<le> 1"
    using assms fire_flips by (auto simp: faults_ok_def)
  moreover have "flips (snd (fire operation (rf_faults rng))) \<noteq> 0 \<longleftrightarrow> fires operation rng FBD_FAULT_BIT_FLIP"
    by (auto simp: filter_empty_conv)
  ultimately show ?thesis by (metis dvd_0_right le_neq_implies_less less_one odd_one)
qed

lemma inject_range_effect:
  assumes "faults_ok (rf_faults rng)" and "operation = FBD_OP_READ \<or> operation = FBD_OP_WRITE"
    and "operation = FBD_OP_WRITE \<or> rf_mode rng \<noteq> FBD_MODE_DEDUP" and "buffer \<noteq> []"
  shows "\<exists>w'. inject_range w buffer sz offset operation rng =
      Inr (survivors operation rng,
           if fires operation rng FBD_FAULT_MEDIUM then FBD_STS_MEDIUM_ERROR else FBD_STS_OK, w',
           if fires operation rng FBD_FAULT_BIT_FLIP then flip_first buffer else buffer) \<and>
    disk w' = disk w \<and> script w' = script w \<and>
    slept w' = slept w + sum_list (map delay (snd (fire operation (rf_faults rng))))"
proof -
  let ?fired = "snd (fire operation (rf_faults rng))"
  have "set ?fired \<subseteq> set (rf_faults rng)"
    using subseq_set [OF fire_subseq(2)] by fastforce
  then have "list_all fault_ok ?fired"
    using assms(1) by (auto simp: faults_ok_def list_all_iff)
  from inject_all_effect [OF this assms(4), of FBD_STS_OK w] obtain w' where
    w': "inject_all ?fired FBD_STS_OK w buffer =
      Inr (if fires operation rng FBD_FAULT_MEDIUM then FBD_STS_MEDIUM_ERROR else FBD_STS_OK, w',
           if odd (flips ?fired) then flip_first buffer else buffer)"
    "disk w' = disk w" "script w' = script w" "slept w' = slept w + sum_list (map delay ?fired)" by blast
  have "rf_faults rng \<noteq> []" using assms(1) by (simp add: faults_ok_def)
  then have "inject_range w buffer sz offset operation rng =
      Inr (survivors operation rng,
           if fires operation rng FBD_FAULT_MEDIUM then FBD_STS_MEDIUM_ERROR else FBD_STS_OK, w',
           if fires operation rng FBD_FAULT_BIT_FLIP then flip_first buffer else buffer)"
    using assms(3) w'(1) flips_fires [OF assms(1,2)]
    by (auto simp: inject_range_def dedup_exception_write inject_loop_fire survivors_def)
  with w' show ?thesis by blast
qed

lemma check_and_inject_first_hit:
  assumes "reg_wf dev" and "operation = FBD_OP_READ \<or> operation = FBD_OP_WRITE"
    and "d_ranges dev = pre @ rng # post" and "block_hash lib junk dev buffer = Inr hash"
    and "\<forall>r \<in> set pre. range_hit dev hash sz offset r = Inr (FBD_STS_OK, False)"
    and "range_hit dev hash sz offset rng = Inr (FBD_STS_OK, True)"
    and "operation = FBD_OP_WRITE \<or> rf_mode rng \<noteq> FBD_MODE_DEDUP" and "buffer \<noteq> []"
  shows "\<exists>w'. fbd_check_and_inject_fault lib junk dev w buffer sz offset operation =
      Inr (if fires operation rng FBD_FAULT_MEDIUM then FBD_STS_MEDIUM_ERROR else FBD_STS_OK,
           dev\<lparr>d_ranges := pre @ survivors operation rng @ post\<rparr>, w',
           if fires operation rng FBD_FAULT_BIT_FLIP then flip_first buffer else buffer) \<and>
    disk w' = disk w \<and> slept w' = slept w + sum_list (map delay (snd (fire operation (rf_faults rng))))"
proof -
  have "faults_ok (rf_faults rng)" using assms(1,3) by (simp add: reg_wf_def)
  from inject_range_effect [OF this assms(2,7,8), of w sz offset] obtain w' where
    "inject_range w buffer sz offset operation rng =
      Inr (survivors operation rng,
           if fires operation rng FBD_FAULT_MEDIUM then FBD_STS_MEDIUM_ERROR else FBD_STS_OK, w',
           if fires operation rng FBD_FAULT_BIT_FLIP then flip_first buffer else buffer)"
    "disk w' = disk w" "slept w' = slept w + sum_list (map delay (snd (fire operation (rf_faults rng))))"
    by blast
  then show ?thesis
    using assms(3-6) by (auto simp: fbd_check_and_inject_fault_def inject_ranges_miss)
qed


text \<open>
  A block that meets no range passes through: status OK, and the buffer, the disk, the
  registry and the time slept are what they were.
\<close>

lemma check_and_inject_miss:
  assumes "block_hash lib junk dev buffer = Inr hash"
    and "\<forall>r \<in> set (d_ranges dev). range_hit dev hash sz offset r = Inr (FBD_STS_OK, False)"
  shows "fbd_check_and_inject_fault lib junk dev w buffer sz offset operation = Inr (FBD_STS_OK, dev, w, buffer)"
  using assms inject_ranges_miss [of "d_ranges dev" dev hash sz offset w buffer operation "[]"]
  by (simp add: fbd_check_and_inject_fault_def)

section \<open>Injection is safe and keeps the registry well-formed\<close>

lemma faults_ok_deactivate:
  assumes "faults_ok fs" and "i < length fs"
  shows "faults_ok (fs[i := (fs ! i)\<lparr>f_active := a\<rparr>])"
  using assms
  by (auto simp: faults_ok_def sorted_wrt_iff_nth_less nth_list_update compatible_def list_all_length fault_ok_def)

lemma faults_ok_subseq: "faults_ok fs \<Longrightarrow> subseq gs fs \<Longrightarrow> gs \<noteq> [] \<Longrightarrow> faults_ok gs"
  by (auto simp: faults_ok_def list_all_iff dest: subseq_sorted_wrt subseq_set list_emb_length)

definition at_most_flipped :: "bytes \<Rightarrow> bytes \<Rightarrow> bool" where
  "at_most_flipped b b' \<longleftrightarrow> b' = b \<or> b' = flip_first b"

lemma at_most_flipped_refl [simp]: "at_most_flipped b b"
  by (simp add: at_most_flipped_def)

lemma at_most_flipped_trans: "at_most_flipped b b' \<Longrightarrow> at_most_flipped b' b'' \<Longrightarrow> at_most_flipped b b''"
  by (auto simp: at_most_flipped_def)

lemma at_most_flipped_length: "at_most_flipped b b' \<Longrightarrow> length b' = length b"
  by (auto simp: at_most_flipped_def)

lemma inject_faults_ok:
  assumes "faults_ok fs" and "buffer \<noteq> []"
  shows "\<exists>w' status buffer'. inject_loop operation 0 fs False FBD_STS_OK w buffer =
      Inr (fst (fire operation fs), fst (fire operation fs) = [], status, w', buffer') \<and>
    (status = FBD_STS_OK \<or> status = FBD_STS_MEDIUM_ERROR) \<and> at_most_flipped buffer buffer' \<and> disk w' = disk w \<and> script w' = script w"
proof -
  have "set (snd (fire operation fs)) \<subseteq> set fs"
    using subseq_set [OF fire_subseq(2)] by fastforce
  then have "list_all fault_ok (snd (fire operation fs))"
    using assms(1) by (auto simp: faults_ok_def list_all_iff)
  from inject_all_effect [OF this assms(2), of FBD_STS_OK w] obtain w' where
    "inject_all (snd (fire operation fs)) FBD_STS_OK w buffer =
      Inr (if \<exists>f \<in> set (snd (fire operation fs)). f_fault f = FBD_FAULT_MEDIUM then FBD_STS_MEDIUM_ERROR else FBD_STS_OK, w',
        if odd (flips (snd (fire operation fs))) then flip_first buffer else buffer)"
    "disk w' = disk w" "script w' = script w" by blast
  then show ?thesis using assms(1) by (auto simp: inject_loop_fire faults_ok_def at_most_flipped_def)
qed

text \<open>
  What an access may do to the world: the disk keeps its size, only a read may write to it, and
  the operating system stays calm if it was.
\<close>

definition frame :: "u8 \<Rightarrow> world \<Rightarrow> world \<Rightarrow> bool" where
  "frame operation w w' \<longleftrightarrow> length (disk w') = length (disk w) \<and>
     (operation \<noteq> FBD_OP_READ \<longrightarrow> disk w' = disk w \<and> script w' = script w) \<and> (calm w \<longrightarrow> calm w')"

lemma frame_refl [simp]: "frame operation w w"
  by (simp add: frame_def)

lemma frame_trans: "frame operation w w' \<Longrightarrow> frame operation w' w'' \<Longrightarrow> frame operation w w''"
  by (auto simp: frame_def)

lemma frame_same_disk:
  "disk w' = disk w \<Longrightarrow> script w' = script w \<Longrightarrow> frame operation w w'"
  by (auto simp: frame_def calm_def)

lemma frame_read_pwrite: "frame FBD_OP_READ w (snd (sys_pwrite w bs off))"
proof -
  obtain r w' where p: "sys_pwrite w bs off = (r, w')" by (cases "sys_pwrite w bs off")
  have "length (disk w') = length (disk w)" using p by (rule sys_pwrite_length)
  moreover have "script w' = tl (script w)"
    using p by (auto simp: sys_pwrite_def Let_def split: list.splits outcome.splits)
  then have "calm w \<longrightarrow> calm w'" by (cases "script w") (simp_all add: calm_def)
  ultimately show ?thesis using p by (simp add: frame_def)
qed

lemma dedup_exception_ok:
  assumes "faults_ok (rf_faults rng)" and "unat sz \<le> length buffer" and "buffer \<noteq> []"
  shows "\<exists>fs w' buffer'. fbd_check_dedup_injection_exceptions w buffer sz offset operation rng =
      Inr (rng\<lparr>rf_faults := fs\<rparr>, w', buffer') \<and> faults_ok fs \<and> at_most_flipped buffer buffer' \<and>
      frame operation w w'"
proof (cases "get_fault_from_mode rng FBD_FAULT_BIT_FLIP FBD_OP_WRITE FBD_MODE_DEDUP")
  case None
  with assms(1) show ?thesis
    by (intro exI [of _ "rf_faults rng"]) (auto simp: fbd_check_dedup_injection_exceptions_def at_most_flipped_def)
next
  case (Some i)
  then have "i < length (rf_faults rng)"
    by (auto simp: get_fault_from_mode_def get_fault_def dest: find_pos_SomeD split: if_splits)
  note deact = faults_ok_deactivate [OF assms(1) this, of False]
  show ?thesis
  proof (cases "f_active (rf_faults rng ! i) \<and> operation = FBD_OP_READ")
    case True
    with Some deact assms(2,3) show ?thesis
      by (auto simp: frame_read_pwrite fbd_check_dedup_injection_exceptions_def fl_inject_bit_flip_fault_buffer_def Let_def
          at_most_flipped_def flip_first_def)
  next
    case False
    with Some assms(1) show ?thesis
      by (intro exI [of _ "rf_faults rng"]) (auto simp: fbd_check_dedup_injection_exceptions_def Let_def at_most_flipped_def)
  qed
qed

definition still_range :: "fbd_range_fault \<Rightarrow> fbd_range_fault list \<Rightarrow> bool" where
  "still_range rng rs \<longleftrightarrow> rs = [] \<or> (\<exists>fs. rs = [rng\<lparr>rf_faults := fs\<rparr>] \<and> faults_ok fs)"

lemma inject_range_ok:
  assumes "faults_ok (rf_faults rng)" and "unat sz \<le> length buffer" and "buffer \<noteq> []"
  shows "\<exists>rs status w' buffer'. inject_range w buffer sz offset operation rng = Inr (rs, status, w', buffer') \<and>
    still_range rng rs \<and> (status = FBD_STS_OK \<or> status = FBD_STS_MEDIUM_ERROR) \<and>
    at_most_flipped buffer buffer' \<and> frame operation w w'"
proof -
  from dedup_exception_ok [OF assms, of w offset operation] obtain fs w1 b1 where
    exc: "fbd_check_dedup_injection_exceptions w buffer sz offset operation rng = Inr (rng\<lparr>rf_faults := fs\<rparr>, w1, b1)"
    "faults_ok fs" "at_most_flipped buffer b1" "frame operation w w1" by blast
  then have "b1 \<noteq> []" using assms(3) at_most_flipped_length by fastforce
  from inject_faults_ok [OF exc(2) this, of operation w1] obtain w2 status b2 where
    "inject_loop operation 0 fs False FBD_STS_OK w1 b1 =
      Inr (fst (fire operation fs), fst (fire operation fs) = [], status, w2, b2)"
    "status = FBD_STS_OK \<or> status = FBD_STS_MEDIUM_ERROR" "at_most_flipped b1 b2" "frame operation w1 w2"
    by (blast intro: frame_same_disk)
  with exc show ?thesis
    using faults_ok_subseq [OF exc(2) fire_subseq(1), of operation]
    by (auto simp: inject_range_def still_range_def intro: frame_trans at_most_flipped_trans)
qed

definition keys_ok :: "u8 \<Rightarrow> fbd_range_fault list \<Rightarrow> bool" where
  "keys_ok ht rs \<longleftrightarrow> (\<forall>r \<in> set rs. range_key ht r \<noteq> No_Key \<and> faults_ok (rf_faults r))"

lemma distinct_sorted_wrt: "distinct xs \<longleftrightarrow> sorted_wrt (\<noteq>) xs"
  by (induction xs) auto

lemma inject_ranges_ok:
  assumes "keys_ok (d_hash_type dev) rs" and "unat sz \<le> length buffer" and "buffer \<noteq> []"
    and "\<forall>r \<in> set rs. \<exists>b. range_hit dev hash sz offset r = Inr (FBD_STS_OK, b)"
  shows "\<exists>rs' status w' buffer'. inject_ranges dev hash w buffer sz offset operation rs = Inr (rs', status, w', buffer') \<and>
    keys_ok (d_hash_type dev) rs' \<and> subseq (map (range_key (d_hash_type dev)) rs') (map (range_key (d_hash_type dev)) rs) \<and>
    (status = FBD_STS_OK \<or> status = FBD_STS_MEDIUM_ERROR) \<and>
    at_most_flipped buffer buffer' \<and> frame operation w w'"
  using assms(1,4)
proof (induction rs)
  case Nil
  then show ?case by simp
next
  case (Cons r rs)
  then obtain b where b: "range_hit dev hash sz offset r = Inr (FBD_STS_OK, b)" by auto
  show ?case
  proof (cases b)
    case True
    from Cons.prems have "faults_ok (rf_faults r)" by (simp add: keys_ok_def)
    from inject_range_ok [OF this assms(2,3), of w offset operation] obtain rs1 status w' b' where
      "inject_range w buffer sz offset operation r = Inr (rs1, status, w', b')" "still_range r rs1"
      "status = FBD_STS_OK \<or> status = FBD_STS_MEDIUM_ERROR" "at_most_flipped buffer b'"
      "frame operation w w'" by blast
    with True b Cons.prems show ?thesis
      by (auto simp: still_range_def keys_ok_def)
  next
    case False
    with b Cons show ?thesis by (fastforce simp: keys_ok_def)
  qed
qed

definition modes_ok :: "fbd_device \<Rightarrow> bool" where
  \<comment> \<open>digest ranges are registered only while a digest mode is on\<close>
  "modes_ok dev \<longleftrightarrow> hash_mode (d_settings dev) \<or> dedup_mode (d_settings dev) \<or>
     (\<forall>r \<in> set (d_ranges dev). rf_mode r = FBD_MODE_BLOCK)"

lemma mode_of_key:
  "range_key ht r \<noteq> No_Key \<Longrightarrow> rf_mode r = FBD_MODE_BLOCK \<longleftrightarrow> (\<exists>sz off. range_key ht r = Block_Key sz off)"
  by (auto simp: range_key_def split: range_ptr.splits if_splits)

lemma modes_ok_keys:
  assumes "set (map (range_key (d_hash_type dev)) rs) \<subseteq> set (map (range_key (d_hash_type dev)) (d_ranges dev))"
    and "reg_wf dev" and "modes_ok dev" and "keys_ok (d_hash_type dev) rs"
  shows "modes_ok (dev\<lparr>d_ranges := rs\<rparr>)"
proof -
  have "rf_mode r = FBD_MODE_BLOCK"
    if "r \<in> set rs" and all: "\<forall>r \<in> set (d_ranges dev). rf_mode r = FBD_MODE_BLOCK" for r
  proof -
    from that(1) assms(1) obtain r' where "r' \<in> set (d_ranges dev)"
      "range_key (d_hash_type dev) r = range_key (d_hash_type dev) r'" by auto
    with all assms(2,4) that(1) show ?thesis
      by (metis keys_ok_def mode_of_key reg_wf_def)
  qed
  with assms(3) show ?thesis by (auto simp: modes_ok_def)
qed

lemma block_hash_ok:
  assumes "hash_ok dev" and "4096 \<le> length buffer"
  shows "\<exists>hash. block_hash lib junk dev buffer = Inr hash \<and>
    (hash \<noteq> None \<longleftrightarrow> hash_mode (d_settings dev) \<or> dedup_mode (d_settings dev))"
  using assms
  by (auto simp: block_hash_def fbd_string_to_hash_def hash_ok_def Let_def not_less split: prod.splits)

lemma inject_safe:
  assumes "reg_wf dev" and "hash_ok dev" and "modes_ok dev" and "4096 \<le> length buffer"
  shows "\<exists>status rs w' buffer'.
    fbd_check_and_inject_fault lib junk dev w buffer 4096 offset operation =
      Inr (status, dev\<lparr>d_ranges := rs\<rparr>, w', buffer') \<and>
    reg_wf (dev\<lparr>d_ranges := rs\<rparr>) \<and> modes_ok (dev\<lparr>d_ranges := rs\<rparr>) \<and>
    (status = FBD_STS_OK \<or> status = FBD_STS_MEDIUM_ERROR) \<and>
    at_most_flipped buffer buffer' \<and> frame operation w w'"
proof -
  let ?k = "range_key (d_hash_type dev)"
  from block_hash_ok [OF assms(2,4), of lib junk] obtain hash where
    hash: "block_hash lib junk dev buffer = Inr hash"
      "hash \<noteq> None \<longleftrightarrow> hash_mode (d_settings dev) \<or> dedup_mode (d_settings dev)" by blast
  have "\<forall>r \<in> set (d_ranges dev). \<exists>b. range_hit dev hash 4096 offset r = Inr (FBD_STS_OK, b)"
    using assms(1-3) hash(2) range_hit_well_formed unfolding modes_ok_def by blast
  moreover have "keys_ok (d_hash_type dev) (d_ranges dev)" using assms(1) by (auto simp: reg_wf_def keys_ok_def)
  moreover have "unat (4096 :: u32) \<le> length buffer" "buffer \<noteq> []" using assms(4) by auto
  ultimately obtain rs status w' b' where
    inj: "inject_ranges dev hash w buffer 4096 offset operation (d_ranges dev) = Inr (rs, status, w', b')"
      "keys_ok (d_hash_type dev) rs" "subseq (map ?k rs) (map ?k (d_ranges dev))"
      "status = FBD_STS_OK \<or> status = FBD_STS_MEDIUM_ERROR" "at_most_flipped buffer b'"
      "frame operation w w'"
    using inject_ranges_ok [of dev "d_ranges dev" 4096 buffer hash offset w operation] by blast
  have "distinct (map ?k rs)"
    using inj(3) assms(1) subseq_sorted_wrt by (metis distinct_sorted_wrt reg_wf_def)
  then have "reg_wf (dev\<lparr>d_ranges := rs\<rparr>)" using inj(2) by (simp add: reg_wf_def keys_ok_def)
  moreover have "set (map ?k rs) \<subseteq> set (map ?k (d_ranges dev))"
    using inj(3) by (rule subseq_set)
  then have "modes_ok (dev\<lparr>d_ranges := rs\<rparr>)"
    using assms(1,3) inj(2) by (rule modes_ok_keys)
  ultimately show ?thesis using hash inj by (auto simp: fbd_check_and_inject_fault_def)
qed


section \<open>Which blocks a range meets, and the deduplication exception\<close>

lemma last_byte:
  assumes "0 < sz" and "unat off + unat sz \<le> 2 ^ 64"
  shows "unat (off + ucast (sz :: u32) - 1 :: u64) = unat off + unat sz - 1"
proof -
  have pos: "0 < unat sz" using assms(1) by (simp add: word_less_nat_alt)
  have "off + ucast sz - 1 = (word_of_nat (unat off + unat sz - 1) :: u64)"
    using pos by (simp add: of_nat_diff)
  also have "unat \<dots> = unat off + unat sz - 1"
    using assms(2) pos by (intro unat_of_nat_small) simp
  finally show ?thesis .
qed

lemma intersept_memory_iff:
  "fst (intersept_memory a b c d) \<longleftrightarrow> max (unat a) (unat c) \<le> min (unat b) (unat d)"
  by (auto simp: intersept_memory_def Let_def word_le_nat_alt word_less_nat_alt max_def min_def)

text \<open>
  (C24) A block range is met exactly when the bytes of the request's block and the bytes of the
  range overlap, provided that neither is empty and neither runs past the 64-bit address space.
\<close>

theorem block_range_hit_iff_overlap:
  assumes "rf_mode rng = FBD_MODE_BLOCK" and "rf_ptr rng = Block_Ptr bf"
    and "0 < bf_size bf" and "unat (bf_offSet bf) + unat (bf_size bf) \<le> 2 ^ 64"
    and "0 < sz" and "unat offset + unat sz \<le> 2 ^ 64"
  shows "range_hit dev hash sz offset rng = Inr (FBD_STS_OK,
    {unat (bf_offSet bf) ..< unat (bf_offSet bf) + unat (bf_size bf)} \<inter>
    {unat offset ..< unat offset + unat sz} \<noteq> {})"
proof -
  let ?b = "unat (bf_offSet bf)" and ?o = "unat offset"
  have pos: "0 < unat (bf_size bf)" "0 < unat sz"
    using assms(3,5) by (simp_all add: word_less_nat_alt)
  have "({?b ..< ?b + unat (bf_size bf)} \<inter> {?o ..< ?o + unat sz} \<noteq> {}) \<longleftrightarrow>
      max ?b ?o \<le> min (?b + unat (bf_size bf) - 1) (?o + unat sz - 1)"
    using pos by (auto simp: disjoint_iff)
  then show ?thesis
    using assms(1,2)
    by (simp only: range_hit_def intersept_memory_iff last_byte [OF assms(3,4)] last_byte [OF assms(5,6)]
        simp_thms if_True range_ptr.case)
qed

lemma fire_none: "\<forall>f \<in> set fs. \<not> armed operation f \<Longrightarrow> fire operation fs = (fs, [])"
  by (induction fs) auto

text \<open>
  (C23) Silent corruption under deduplication. Reading a block whose digest carries an active
  bit-flip fault for writes returns the block with bit 0 of its first byte inverted, writes
  the inverted block back to the same place of the disk, and disarms the fault, so that the
  corruption happens once and is durable.
\<close>

theorem dedup_read_corrupts_disk:
  assumes "d_ranges dev = pre @ rng # post" and "block_hash lib junk dev buffer = Inr hash"
    and "\<forall>r \<in> set pre. range_hit dev hash 4096 offset r = Inr (FBD_STS_OK, False)"
    and "range_hit dev hash 4096 offset rng = Inr (FBD_STS_OK, True)"
    and "rf_mode rng = FBD_MODE_DEDUP" and "rf_faults rng = f # fs"
    and "fault_is FBD_FAULT_BIT_FLIP FBD_OP_WRITE f" and "f_active f"
    and "\<forall>g \<in> set fs. \<not> armed FBD_OP_READ g"
    and "4096 \<le> length buffer" and "script w = []" and "unat offset + 4096 \<le> length (disk w)"
  shows "fbd_check_and_inject_read_fault lib junk dev w buffer 4096 offset =
    Inr (FBD_STS_OK, dev\<lparr>d_ranges := pre @ rng\<lparr>rf_faults := f\<lparr>f_active := False\<rparr> # fs\<rparr> # post\<rparr>,
         w\<lparr>disk := blit (unat offset) (take 4096 (flip_first buffer)) (disk w)\<rparr>, flip_first buffer)"
proof -
  have ne: "buffer \<noteq> []" using assms(10) by auto
  have "get_fault_from_mode rng FBD_FAULT_BIT_FLIP FBD_OP_WRITE FBD_MODE_DEDUP = Some 0"
    using assms(5-7) by (simp add: get_fault_from_mode_def get_fault_def)
  then have exc: "fbd_check_dedup_injection_exceptions w buffer 4096 offset FBD_OP_READ rng =
      Inr (rng\<lparr>rf_faults := f\<lparr>f_active := False\<rparr> # fs\<rparr>,
           w\<lparr>disk := blit (unat offset) (take 4096 (flip_first buffer)) (disk w)\<rparr>, flip_first buffer)"
    using assms(6,8,10-12) ne
    by (simp add: fbd_check_dedup_injection_exceptions_def fl_inject_bit_flip_fault_buffer_def Let_def
        sys_pwrite_def transferable_def flip_first_def)
  have "fire FBD_OP_READ (f\<lparr>f_active := False\<rparr> # fs) = (f\<lparr>f_active := False\<rparr> # fs, [])"
    using assms(9) by (intro fire_none) (auto simp: armed_def)
  then have "inject_range w buffer 4096 offset FBD_OP_READ rng =
      Inr ([rng\<lparr>rf_faults := f\<lparr>f_active := False\<rparr> # fs\<rparr>], FBD_STS_OK,
           w\<lparr>disk := blit (unat offset) (take 4096 (flip_first buffer)) (disk w)\<rparr>, flip_first buffer)"
    by (simp add: inject_range_def exc inject_loop_fire del: fire.simps(2))
  then show ?thesis
    using assms(1-4) by (simp add: fbd_check_and_inject_read_fault_def fbd_check_and_inject_fault_def inject_ranges_miss)
qed

section \<open>Transient and persistent faults\<close>

text \<open>
  Persistent faults: when every fault of the range that is met is persistent, all the
  armed ones fire and the registry does not change, so the next access meets the same faults.
\<close>

lemma persistent_faults_all_fire:
  assumes "faults_ok (rf_faults rng)" and "list_all f_persistent (rf_faults rng)"
    and "operation = FBD_OP_WRITE \<or> operation = FBD_OP_READ \<and> rf_mode rng \<noteq> FBD_MODE_DEDUP"
    and "buffer \<noteq> []"
  shows "\<exists>w'. inject_range w buffer sz offset operation rng =
      Inr ([rng],
        if \<exists>f \<in> set (rf_faults rng). armed operation f \<and> f_fault f = FBD_FAULT_MEDIUM
        then FBD_STS_MEDIUM_ERROR else FBD_STS_OK, w',
        if \<exists>f \<in> set (rf_faults rng). armed operation f \<and> f_fault f = FBD_FAULT_BIT_FLIP
        then flip_first buffer else buffer) \<and>
    slept w' = slept w + sum_list (map delay (filter (armed operation) (rf_faults rng)))"
proof -
  have op: "operation = FBD_OP_READ \<or> operation = FBD_OP_WRITE"
    and mode: "operation = FBD_OP_WRITE \<or> rf_mode rng \<noteq> FBD_MODE_DEDUP"
    using assms(3) by auto
  have "survivors operation rng = [rng]"
    using assms(1,2) by (simp add: survivors_def fire_persistent faults_ok_def)
  moreover have "fires operation rng t \<longleftrightarrow> (\<exists>f \<in> set (rf_faults rng). armed operation f \<and> f_fault f = t)" for t
    using assms(2) by (auto simp: fire_persistent)
  ultimately show ?thesis
    using inject_range_effect [OF assms(1) op mode assms(4), of w sz offset] assms(2)
    by (auto simp: fire_persistent)
qed

text \<open>
  (C22) The C loop, an index loop over an array that shrinks while it is traversed, is the
  structural traversal \<open>fire\<close>: the faults that fire are injected in order, and the faults of
  the range before the access are exactly those left after it together with the transient
  faults that fired. Nothing that did not fire is lost, and no transient fault that fired can
  fire again.
\<close>

theorem shrinking_loop_is_fire:
  "inject_loop operation 0 faults rem FBD_STS_OK w buffer =
    rbind (inject_all (snd (fire operation faults)) FBD_STS_OK w buffer) (\<lambda>(status', w', buffer').
      Inr (fst (fire operation faults),
           rem \<or> faults \<noteq> [] \<and> fst (fire operation faults) = [], status', w', buffer')) \<and>
   mset faults = mset (fst (fire operation faults)) +
     mset (filter (\<lambda>f. \<not> f_persistent f) (snd (fire operation faults)))"
  using inject_loop_fire fire_mset by blast

section \<open>Concrete evaluations\<close>

definition demo_range :: "fbd_fault list \<Rightarrow> fbd_range_fault" where
  "demo_range fs = \<lparr>rf_mode = FBD_MODE_BLOCK, rf_faults = fs, rf_ptr = fbd_new_block_fault 4096 8192\<rparr>"

definition demo_world :: "bytes \<Rightarrow> world" where
  "demo_world d = \<lparr>disk = d, script = [], naps = [7], slept = 0\<rparr>"

definition demo_lib :: hash_lib where
  "demo_lib = \<lparr>md5_digest = (\<lambda>_. replicate 16 7), xxh3_digest = (\<lambda>_. (1, 2))\<rparr>"

lemma demo_range_simps [simp]:
  "rf_mode (demo_range fs) = FBD_MODE_BLOCK" "rf_faults (demo_range fs) = fs"
  "range_key ht (demo_range fs) = Block_Key 4096 8192" "(demo_range fs)\<lparr>rf_faults := gs\<rparr> = demo_range gs"
  by (simp_all add: demo_range_def range_key_def fbd_new_block_fault_def)

lemma demo_range_hit:
  "range_hit dev None 4096 8192 (demo_range fs) = Inr (FBD_STS_OK, True)"
  "range_hit dev None 4096 12288 (demo_range fs) = Inr (FBD_STS_OK, False)"
  by (simp_all add: range_hit_def demo_range_def fbd_new_block_fault_def intersept_memory_def)

lemma demo_wf:
  "reg_wf (demo_device [demo_range [bit_flip_on FBD_OP_WRITE False, medium_on FBD_OP_WRITE True]])"
  by (simp add: reg_wf_def faults_ok_def compatible_def fault_ok_def fbd_new_fault_def)

lemma demo_block_hash [simp]: "block_hash lib junk (demo_device rs) buffer = Inr None"
  by (simp add: block_hash_def)


lemma check_and_inject_miss_witness:
  "fbd_check_and_inject_fault demo_lib [] (demo_device [demo_range [medium_on FBD_OP_WRITE True]])
      (demo_world [1, 2]) [65, 66] 4096 12288 FBD_OP_WRITE =
    Inr (FBD_STS_OK, demo_device [demo_range [medium_on FBD_OP_WRITE True]], demo_world [1, 2], [65, 66])"
  using check_and_inject_miss [of demo_lib "[]" "demo_device [demo_range [medium_on FBD_OP_WRITE True]]"
      "[65, 66]" None 4096 12288 "demo_world [1, 2]" FBD_OP_WRITE]
  by (simp add: demo_range_hit)


theorem block_range_hit_iff_overlap_witness:
  "range_hit (demo_device []) None 4096 8192 (demo_range []) = Inr (FBD_STS_OK,
     {unat (8192 :: u64) ..< unat (8192 :: u64) + unat (4096 :: u32)} \<inter>
     {unat (8192 :: u64) ..< unat (8192 :: u64) + unat (4096 :: u32)} \<noteq> {})"
  using block_range_hit_iff_overlap [of "demo_range []" "\<lparr>bf_size = 4096, bf_offSet = 8192\<rparr>" 4096 8192
      "demo_device []" None]
  by (simp add: demo_range_def fbd_new_block_fault_def)

definition demo_dedup :: "fbd_fault list \<Rightarrow> fbd_range_fault" where
  "demo_dedup fs = \<lparr>rf_mode = FBD_MODE_DEDUP, rf_faults = fs, rf_ptr = Hash_Ptr (replicate 16 7 @ [0])\<rparr>"

definition demo_dedup_device :: "fbd_range_fault list \<Rightarrow> fbd_device" where
  "demo_dedup_device rs = (demo_device rs)\<lparr>d_settings :=
     \<lparr>block_mode = True, hash_mode = False, dedup_mode = True, device_mode = False\<rparr>\<rparr>"

lemma demo_dedup_hash:
  "block_hash demo_lib [] (demo_dedup_device rs) (replicate 4096 65) = Inr (Some (replicate 16 7 @ [0]))"
  by (simp add: block_hash_def demo_dedup_device_def fbd_string_to_hash_def demo_device_def demo_lib_def)

theorem dedup_read_corrupts_disk_witness:
  "fbd_check_and_inject_read_fault demo_lib [] (demo_dedup_device [demo_dedup [bit_flip_on FBD_OP_WRITE True]])
     (demo_world (replicate 8192 65)) (replicate 4096 65) 4096 4096 =
   Inr (FBD_STS_OK, demo_dedup_device [demo_dedup [(bit_flip_on FBD_OP_WRITE True)\<lparr>f_active := False\<rparr>]],
     demo_world (replicate 4096 65 @ flip_first (replicate 4096 65)), flip_first (replicate 4096 65))"
proof -
  let ?dev = "demo_dedup_device [demo_dedup [bit_flip_on FBD_OP_WRITE True]]"
  have "range_hit ?dev (Some (replicate 16 7 @ [0])) 4096 4096 (demo_dedup [bit_flip_on FBD_OP_WRITE True]) =
      Inr (FBD_STS_OK, True)"
    by (simp add: range_hit_def demo_dedup_def ptr_hash_def fbd_hash_compare_def demo_dedup_device_def strcmp_eq_def)
  from dedup_read_corrupts_disk [of ?dev "[]" _ "[]", OF _ demo_dedup_hash _ this, of "bit_flip_on FBD_OP_WRITE True" "[]"
      "demo_world (replicate 8192 65)"]
  show ?thesis
    by (simp add: demo_dedup_device_def demo_dedup_def fault_is_def fbd_new_fault_def demo_world_def blit_def demo_device_def)
qed

lemma persistent_faults_all_fire_witness:
  "\<exists>w'. inject_range (demo_world []) [65] 4096 0 FBD_OP_READ
      (demo_range [bit_flip_on FBD_OP_READ True, slow_on FBD_OP_READ True 3, medium_on FBD_OP_WRITE True]) =
    Inr ([demo_range [bit_flip_on FBD_OP_READ True, slow_on FBD_OP_READ True 3, medium_on FBD_OP_WRITE True]],
      FBD_STS_OK, w', [64]) \<and> slept w' = 3000000"
  using persistent_faults_all_fire [of
      "demo_range [bit_flip_on FBD_OP_READ True, slow_on FBD_OP_READ True 3, medium_on FBD_OP_WRITE True]"
      FBD_OP_READ "[65]" "demo_world []" 4096 0]
  by (simp add: faults_ok_def compatible_def fault_ok_def fbd_new_fault_def armed_def flip_first_def
      delay_def demo_world_def)

text \<open>
  The fault after a transient fault is stepped over: with a transient bit flip and a
  transient medium error registered for writes on the same block, a write of the block fires
  the bit flip and is reported as successful.
\<close>

lemma fault_after_transient_skipped:
  "\<exists>w'. fbd_check_and_inject_write_fault lib junk
      (demo_device [demo_range [bit_flip_on FBD_OP_WRITE False, medium_on FBD_OP_WRITE False]]) w (b # bs) 4096 8192 =
    Inr (FBD_STS_OK, demo_device [demo_range [medium_on FBD_OP_WRITE False]], w', flip_first (b # bs))"
proof -
  have "reg_wf (demo_device [demo_range [bit_flip_on FBD_OP_WRITE False, medium_on FBD_OP_WRITE False]])"
    by (simp add: reg_wf_def faults_ok_def compatible_def fault_ok_def fbd_new_fault_def)
  from check_and_inject_first_hit [OF this, of FBD_OP_WRITE "[]" _ "[]" lib junk "b # bs" None 4096 8192 w]
  show ?thesis
    by (auto simp: demo_range_hit survivors_def armed_def fbd_new_fault_def fbd_check_and_inject_write_fault_def)
qed

end
