(* ===== verification/Fbd_Driver.thy ===== *)
theory Fbd_Driver
  imports Fbd_Inject
begin

text \<open>
  \<^verbatim>\<open>fbdd/fbdd.c\<close>: the BDUS driver of the faulty block device. Reads and writes go through
  the injector block by block; the other callbacks forward an \<^verbatim>\<open>ioctl\<close>. The system calls
  \<^verbatim>\<open>ioctl\<close>, \<^verbatim>\<open>fdatasync\<close> and \<^verbatim>\<open>open\<close> and the library call \<^verbatim>\<open>bdus_run\<close> are parameters.

  A loop over the blocks of a request counts in a \<^verbatim>\<open>uint32_t\<close> that can wrap around, so it is a
  \<open>partial_function\<close> whose value None means that the call does not return. Offsets are
  positions of the disk, which is shorter than \<open>2 ^ 63\<close> bytes.
\<close>

abbreviation EINTR :: int where "EINTR \<equiv> 4"
abbreviation EIO :: int where "EIO \<equiv> 5"
abbreviation EINVAL :: int where "EINVAL \<equiv> 22"
abbreviation EOPNOTSUPP :: int where "EOPNOTSUPP \<equiv> 95"
abbreviation ENOMEDIUM :: int where "ENOMEDIUM \<equiv> 123"

section \<open>Attributes and initialisation\<close>

record bdus_attrs =
  at_size :: u64
  at_logical_block_size :: u32
  at_physical_block_size :: u32
  at_max_concurrent_callbacks :: u32
  at_dont_daemonize :: bool

record bdus_ops =
  op_discard :: bool
  op_secure_erase :: bool

definition device_initalize :: "fbd_device \<Rightarrow> string \<Rightarrow> int \<Rightarrow> bdus_attrs \<Rightarrow> int \<times> fbd_device" where
  \<comment> \<open>the lock is taken and released around the flag the server thread waits for\<close>
  "device_initalize device path index attrs =
     (0, device\<lparr>d_path := path, d_index := index, d_size := at_size attrs,
                d_logical_block_size := at_logical_block_size attrs, d_bdus_started := True\<rparr>)"

section \<open>Reading\<close>

function read_loop :: "world \<Rightarrow> bytes \<Rightarrow> nat \<Rightarrow> u64 \<Rightarrow> u32 \<Rightarrow> int \<times> world \<times> bytes" where
  \<comment> \<open>\<open>pos\<close> is how far the pointer \<open>buffer\<close> has moved\<close>
  "read_loop w buffer pos offset sz =
     (if sz > 0
      then (case sys_pread w (unat sz) (unat offset) of
          (Inl e, w') \<Rightarrow> if e \<noteq> EINTR then (e, w', buffer) else read_loop w' buffer pos offset sz
        | (Inr bs, w') \<Rightarrow>
            if length bs = 0 then (EIO, w', buffer)
            else read_loop w' (blit pos bs buffer) (pos + length bs)
                   (offset + word_of_nat (length bs)) (sz - word_of_nat (length bs)))
      else (0, w, buffer))"
  by pat_completeness auto

lemma sys_pread_shape:
  assumes "sys_pread w n off = (r, w')"
  shows "length (script w') \<le> length (script w)"
    and "r = Inl e \<Longrightarrow> length (script w') < length (script w)"
    and "r = Inr bs \<Longrightarrow> length bs \<le> n"
  using assms
  by (auto simp: sys_pread_def transferable_def split: list.splits outcome.splits)

termination read_loop
proof (relation "measure (\<lambda>(w, buffer, pos, offset, sz). length (script w) + unat sz)", goal_cases)
  case 1
  show ?case by simp
next
  case (2 w buffer pos offset sz x w' e)
  then show ?case using sys_pread_shape(2) [of w _ _ x w'] by simp
next
  case (3 w buffer pos offset sz x w' bs)
  then have "length bs \<le> unat sz" "length (script w') \<le> length (script w)"
    using sys_pread_shape(1,3) [of w _ _ x w'] by simp_all
  moreover have "0 < length bs" using 3 by simp
  ultimately show ?case by (simp add: unat_sub_of_nat del: length_greater_0_conv)
qed

declare read_loop.simps [simp del]

partial_function (option) read_inject ::
    "hash_lib \<Rightarrow> fbd_hash \<Rightarrow> fbd_device \<Rightarrow> world \<Rightarrow> bytes \<Rightarrow> nat \<Rightarrow> u32 \<Rightarrow> u32 \<Rightarrow> u64
      \<Rightarrow> (int \<times> fbd_device \<times> world \<times> bytes) res option" where
  \<comment> \<open>\<^verbatim>\<open>current_OffSet\<close> is a \<^verbatim>\<open>uint32_t\<close>\<close>
  "read_inject lib junk device w buffer rd_buf read_index size_aux offset_aux =
     (if read_index < size_aux
      then let current_OffSet = (ucast (offset_aux + ucast read_index) :: u32) in
        (case fbd_check_and_inject_read_fault lib junk device w (drop rd_buf buffer) 4096 (ucast current_OffSet) of
           Inl e \<Rightarrow> Some (Inl e)
         | Inr (status, device', w', block) \<Rightarrow>
             if status = FBD_STS_MEDIUM_ERROR
             then Some (Inr (ENOMEDIUM, device', w', take rd_buf buffer @ block))
             else read_inject lib junk device' w' (take rd_buf buffer @ block) (rd_buf + 4096)
                    (read_index + 4096) size_aux offset_aux)
      else Some (Inr (0, device, w, buffer)))"

definition device_read ::
    "hash_lib \<Rightarrow> fbd_hash \<Rightarrow> fbd_device \<Rightarrow> world \<Rightarrow> bytes \<Rightarrow> u64 \<Rightarrow> u32
      \<Rightarrow> (int \<times> fbd_device \<times> world \<times> bytes) res option" where
  "device_read lib junk device w buffer offset sz =
     (case read_loop w buffer 0 offset sz of (errno, w', buffer') \<Rightarrow>
        if errno \<noteq> 0 then Some (Inr (errno, device, w', buffer'))
        else read_inject lib junk device w' buffer' 0 0 sz offset)"

section \<open>Writing\<close>

partial_function (option) write_inject ::
    "hash_lib \<Rightarrow> fbd_hash \<Rightarrow> fbd_device \<Rightarrow> world \<Rightarrow> bytes \<Rightarrow> nat \<Rightarrow> u32 \<Rightarrow> u32 \<Rightarrow> u64
      \<Rightarrow> (int \<times> fbd_device \<times> world \<times> bytes) res option" where
  "write_inject lib junk device w buffer wr_buf write_index sz offset =
     (if write_index < sz
      then let current_OffSet = ucast write_index + offset in
        (case fbd_check_and_inject_write_fault lib junk device w (drop wr_buf buffer) 4096 current_OffSet of
           Inl e \<Rightarrow> Some (Inl e)
         | Inr (status, device', w', block) \<Rightarrow>
             if status = FBD_STS_MEDIUM_ERROR
             then Some (Inr (ENOMEDIUM, device', w', take wr_buf buffer @ block))
             else write_inject lib junk device' w' (take wr_buf buffer @ block) (wr_buf + 4096)
                    (write_index + 4096) sz offset)
      else Some (Inr (0, device, w, buffer)))"

function write_loop :: "world \<Rightarrow> bytes \<Rightarrow> nat \<Rightarrow> u64 \<Rightarrow> u32 \<Rightarrow> int \<times> world" where
  "write_loop w buffer pos offset sz =
     (if sz > 0
      then (case sys_pwrite w (take (unat sz) (drop pos buffer)) (unat offset) of
          (Inl e, w') \<Rightarrow> if e \<noteq> EINTR then (e, w') else write_loop w' buffer pos offset sz
        | (Inr n, w') \<Rightarrow>
            if n = 0 then (EIO, w')
            else write_loop w' buffer (pos + n) (offset + word_of_nat n) (sz - word_of_nat n))
      else (0, w))"
  by pat_completeness auto

lemma sys_pwrite_shape:
  assumes "sys_pwrite w bs off = (r, w')"
  shows "length (script w') \<le> length (script w)"
    and "r = Inl e \<Longrightarrow> length (script w') < length (script w)"
    and "r = Inr n \<Longrightarrow> n \<le> length bs"
  using assms
  by (auto simp: sys_pwrite_def transferable_def Let_def split: list.splits outcome.splits)

termination write_loop
proof (relation "measure (\<lambda>(w, buffer, pos, offset, sz). length (script w) + unat sz)", goal_cases)
  case 1
  show ?case by simp
next
  case (2 w buffer pos offset sz x w' e)
  then show ?case using sys_pwrite_shape(2) [of w _ _ x w'] by simp
next
  case (3 w buffer pos offset sz x w' n)
  then have "n \<le> unat sz" "length (script w') \<le> length (script w)"
    using sys_pwrite_shape(1,3) [of w "take (unat sz) (drop pos buffer)" _ x w'] by fastforce+
  with 3 show ?case by (simp add: unat_sub_of_nat)
qed

declare write_loop.simps [simp del]

definition device_write ::
    "hash_lib \<Rightarrow> fbd_hash \<Rightarrow> fbd_device \<Rightarrow> world \<Rightarrow> bytes \<Rightarrow> u64 \<Rightarrow> u32
      \<Rightarrow> (int \<times> fbd_device \<times> world \<times> bytes) res option" where
  "device_write lib junk device w buffer offset sz =
     (case write_inject lib junk device w buffer 0 0 sz offset of
        Some (Inr (status, device', w', buffer')) \<Rightarrow>
          if status \<noteq> 0 then Some (Inr (status, device', w', buffer'))
          else (case write_loop w' buffer' 0 offset sz of (errno, w'') \<Rightarrow>
                  Some (Inr (errno, device', w'', buffer')))
      | r \<Rightarrow> r)"

section \<open>The forwarded operations\<close>

text \<open>
  The kernel's \<^verbatim>\<open>ioctl\<close> on the underlying device: the command and its argument give the return
  value, the \<^verbatim>\<open>errno\<close>, the numbers it stores through the argument and the next world.
\<close>

type_synonym ioctl_fn = "world \<Rightarrow> string \<Rightarrow> u64 list \<Rightarrow> int \<times> int \<times> u64 \<times> world"

definition forward_range :: "ioctl_fn \<Rightarrow> string \<Rightarrow> world \<Rightarrow> u64 \<Rightarrow> u32 \<Rightarrow> int \<times> world" where
  "forward_range ioctl command w offset sz =
     (case ioctl w command [offset, ucast sz] of (ret, errno, _, w') \<Rightarrow>
        (if ret \<noteq> 0 then errno else 0, w'))"

definition device_write_zeros :: "ioctl_fn \<Rightarrow> world \<Rightarrow> u64 \<Rightarrow> u32 \<Rightarrow> bool \<Rightarrow> int \<times> world" where
  "device_write_zeros ioctl w offset sz may_unmap = forward_range ioctl ''BLKZEROOUT'' w offset sz"

definition device_flush :: "(world \<Rightarrow> int \<times> int \<times> world) \<Rightarrow> world \<Rightarrow> int \<times> world" where
  "device_flush fdatasync w =
     (case fdatasync w of (ret, errno, w') \<Rightarrow> (if ret \<noteq> 0 then errno else 0, w'))"

definition device_discard :: "ioctl_fn \<Rightarrow> world \<Rightarrow> u64 \<Rightarrow> u32 \<Rightarrow> int \<times> world" where
  "device_discard ioctl w offset sz = forward_range ioctl ''BLKDISCARD'' w offset sz"

definition device_secure_erase :: "ioctl_fn \<Rightarrow> world \<Rightarrow> u64 \<Rightarrow> u32 \<Rightarrow> int \<times> world" where
  "device_secure_erase ioctl w offset sz = forward_range ioctl ''BLKSECDISCARD'' w offset sz"

definition device_ioctl :: "ioctl_fn \<Rightarrow> world \<Rightarrow> string \<Rightarrow> u64 list \<Rightarrow> int \<times> u64 \<times> world" where
  "device_ioctl ioctl w command argument =
     (case ioctl w command argument of (result, errno, out, w') \<Rightarrow>
        (if result = -1 then errno else 0, out, w'))"

definition get_device_attrs :: "bool \<Rightarrow> bdus_attrs" where
  "get_device_attrs dont_deomon =
     \<lparr>at_size = 0, at_logical_block_size = 0, at_physical_block_size = 0,
      at_max_concurrent_callbacks = 1, at_dont_daemonize = dont_deomon\<rparr>"

section \<open>Configuration\<close>

definition probe :: "ioctl_fn \<Rightarrow> string \<Rightarrow> world \<Rightarrow> bool option \<times> world" where
  \<comment> \<open>an empty request: supported, not supported, or an unexpected error\<close>
  "probe ioctl command w =
     (case ioctl w command [0, 0] of (ret, errno, _, w') \<Rightarrow>
        (if ret = 0 \<or> errno = EINVAL then Some True
         else if errno = EOPNOTSUPP then Some False else None, w'))"

definition configure_device_discard :: "ioctl_fn \<Rightarrow> world \<Rightarrow> bdus_ops \<Rightarrow> bool \<times> world \<times> bdus_ops" where
  "configure_device_discard ioctl w ops =
     (case probe ioctl ''BLKDISCARD'' w of
        (Some b, w') \<Rightarrow> (True, w', ops\<lparr>op_discard := b\<rparr>)
      | (None, w') \<Rightarrow> (False, w', ops))"

definition configure_device_secure_erase :: "ioctl_fn \<Rightarrow> world \<Rightarrow> bdus_ops \<Rightarrow> bool \<times> world \<times> bdus_ops" where
  "configure_device_secure_erase ioctl w ops =
     (case probe ioctl ''BLKSECDISCARD'' w of
        (Some b, w') \<Rightarrow> (True, w', ops\<lparr>op_secure_erase := b\<rparr>)
      | (None, w') \<Rightarrow> (False, w', ops))"

definition configure_device ::
    "ioctl_fn \<Rightarrow> world \<Rightarrow> bdus_ops \<Rightarrow> bdus_attrs \<Rightarrow> bool \<times> world \<times> bdus_ops \<times> bdus_attrs" where
  "configure_device ioctl w ops attrs =
     (case configure_device_discard ioctl w ops of (ok, w, ops) \<Rightarrow>
      if \<not> ok then (False, w, ops, attrs)
      else case configure_device_secure_erase ioctl w ops of (ok, w, ops) \<Rightarrow>
      if \<not> ok then (False, w, ops, attrs)
      else case ioctl w ''BLKGETSIZE64'' [] of (ret, _, v, w) \<Rightarrow>
      if ret \<noteq> 0 then (False, w, ops, attrs)
      else let attrs = attrs\<lparr>at_size := v\<rparr> in
      case ioctl w ''BLKSSZGET'' [] of (ret, _, v, w) \<Rightarrow>
      if ret \<noteq> 0 then (False, w, ops, attrs)
      else let attrs = attrs\<lparr>at_logical_block_size := ucast v\<rparr> in
      case ioctl w ''BLKPBSZGET'' [] of (ret, _, v, w) \<Rightarrow>
      if ret \<noteq> 0 then (False, w, ops, attrs)
      else (True, w, ops, attrs\<lparr>at_physical_block_size := ucast v\<rparr>))"

section \<open>Command line\<close>

definition fbd_device_set_hash_type :: "fbd_device \<Rightarrow> string \<Rightarrow> bool \<Rightarrow> fbd_device \<times> bool" where
  \<comment> \<open>\<open>optarg\<close> is getopt's global variable; the flag is \<^verbatim>\<open>invalid_opts\<close>; the third \<^verbatim>\<open>strcmp\<close> is
     not compared with 0\<close>
  "fbd_device_set_hash_type device optarg invalid_opts =
     (if optarg = ''MD5'' then (device\<lparr>d_hash_type := FBD_HASH_MD5\<rparr>, invalid_opts)
      else if optarg = ''XXH3_128'' then (device\<lparr>d_hash_type := FBD_HASH_XXH3_128\<rparr>, invalid_opts)
      else if optarg \<noteq> ''MURMUR_x86_128''
        then (device\<lparr>d_hash_type := FBD_HASH_MURMUR_x86_128\<rparr>, invalid_opts)
      else (device, True))"

text \<open>What \<^verbatim>\<open>getopt\<close> returns, one by one: a letter of \<^verbatim>\<open>"u:bh:d:DP"\<close> with \<^verbatim>\<open>optarg\<close>, or \<^verbatim>\<open>'?'\<close>.\<close>

datatype getopt = Opt char string

record fbd_opts =
  o_device :: fbd_device
  o_underlying :: "string option"
  o_dont_daemon :: bool
  o_invalid :: bool

fun main_options :: "fbd_opts \<Rightarrow> getopt list \<Rightarrow> int + fbd_opts" where
  "main_options st [] = Inr st"
| "main_options st (Opt c optarg # rest) =
     (let dev = o_device st; us = d_settings dev in
      if c = CHR ''u'' then main_options (st\<lparr>o_underlying := Some optarg\<rparr>) rest
      else if c = CHR ''b'' then
        main_options (st\<lparr>o_device := dev\<lparr>d_settings := us\<lparr>block_mode := True\<rparr>\<rparr>\<rparr>) rest
      else if c = CHR ''h'' then
        (case fbd_device_set_hash_type (dev\<lparr>d_settings := us\<lparr>hash_mode := True\<rparr>\<rparr>) optarg (o_invalid st) of
           (dev', invalid) \<Rightarrow> main_options (st\<lparr>o_device := dev', o_invalid := invalid\<rparr>) rest)
      else if c = CHR ''d'' then
        (case fbd_device_set_hash_type (dev\<lparr>d_settings := us\<lparr>dedup_mode := True\<rparr>\<rparr>) optarg (o_invalid st) of
           (dev', invalid) \<Rightarrow> main_options (st\<lparr>o_device := dev', o_invalid := invalid\<rparr>) rest)
      else if c = CHR ''D'' then
        main_options (st\<lparr>o_device := dev\<lparr>d_settings := us\<lparr>device_mode := True\<rparr>\<rparr>\<rparr>) rest
      else if c = CHR ''P'' then main_options (st\<lparr>o_dont_daemon := False\<rparr>) rest
      else Inl 2)"

definition fbdd_main ::
    "(string \<Rightarrow> int) \<Rightarrow> ioctl_fn \<Rightarrow> (fbd_device \<Rightarrow> bdus_ops \<Rightarrow> bdus_attrs \<Rightarrow> bool) \<Rightarrow> fbd_device
      \<Rightarrow> world \<Rightarrow> getopt list \<Rightarrow> int" where
  \<comment> \<open>the exit code; \<open>fresh\<close> is the memory of the device before the constructor runs\<close>
  "fbdd_main open ioctl bdus_run fresh w opts =
     (case main_options \<lparr>o_device = fbd_new_device fresh (-1), o_underlying = None,
                         o_dont_daemon = True, o_invalid = False\<rparr> opts of
        Inl code \<Rightarrow> code
      | Inr st \<Rightarrow>
          if o_invalid st then 0
          else let dev = o_device st in
          if dedup_mode (d_settings dev) \<and> hash_mode (d_settings dev) then 3
          else (case o_underlying st of
             None \<Rightarrow> 2
           | Some path \<Rightarrow>
               if open path < 0 then 1
               else (case configure_device ioctl w \<lparr>op_discard = False, op_secure_erase = False\<rparr>
                            (get_device_attrs (o_dont_daemon st)) of
                 (ok, _, ops, attrs) \<Rightarrow>
                   if \<not> ok then 1
                   else if bdus_run (dev\<lparr>d_fd := open path\<rparr>) ops attrs then 0 else 1)))"

section \<open>The transfer loops\<close>

lemma read_loop_calm:
  assumes "calm w" and "unat offset + unat sz \<le> length (disk w)" and "length (disk w) < 2 ^ 64"
    and "pos + unat sz \<le> length buffer"
  shows "\<exists>w'. read_loop w buffer pos offset sz = (0, w', blit pos (slice (unat offset) (unat sz) (disk w)) buffer) \<and>
    calm w' \<and> disk w' = disk w \<and> slept w' = slept w"
  using assms
proof (induction w buffer pos offset sz rule: read_loop.induct)
  case (1 w buffer pos offset sz)
  show ?case
  proof (cases "sz > 0")
    case False
    then have "sz = 0" by (simp add: word_gt_0)
    then show ?thesis using 1 by (simp add: read_loop.simps slice_def)
  next
    case True
    then have "0 < unat sz" by (simp add: word_less_nat_alt)
    from \<open>calm w\<close> this 1(4) show ?thesis
    proof (cases rule: calm_pread)
      case (interrupted w')
      from "1.IH"(1) [OF True interrupted(1) [symmetric] refl] interrupted 1 True show ?thesis
        by (simp add: read_loop.simps [of w])
    next
      case (some m w')
      let ?bs = "slice (unat offset) m (disk w)"
      have len: "length ?bs = m" using some 1(4) by simp
      have off: "unat (offset + word_of_nat m) = unat offset + m"
        using some 1(4,5) by (intro unat_add_of_nat) simp
      have sz: "unat (sz - word_of_nat m) = unat sz - m" using some by (intro unat_sub_of_nat)
      have IH: "\<exists>w''. read_loop w' (blit pos ?bs buffer) (pos + m) (offset + word_of_nat m) (sz - word_of_nat m) =
          (0, w'', blit (pos + m) (slice (unat offset + m) (unat sz - m) (disk w)) (blit pos ?bs buffer)) \<and>
          calm w'' \<and> disk w'' = disk w \<and> slept w'' = slept w"
        using "1.IH"(2) [OF True some(1) [symmetric] refl] some 1(4-) by (simp add: len off sz)
      have "blit (pos + m) (slice (unat offset + m) (unat sz - m) (disk w)) (blit pos ?bs buffer) =
          blit pos (?bs @ slice (unat offset + m) (unat sz - m) (disk w)) buffer"
        using blit_append [of pos ?bs _ buffer] some 1(4,6) len by simp
      also have "?bs @ slice (unat offset + m) (unat sz - m) (disk w) = slice (unat offset) (unat sz) (disk w)"
        using slice_split [of "unat offset" m "unat sz - m" "disk w"] some by simp
      finally show ?thesis
        using IH some True len by (simp add: read_loop.simps [of w])
    qed
  qed
qed

lemma write_loop_calm:
  assumes "calm w" and "unat offset + unat sz \<le> length (disk w)" and "length (disk w) < 2 ^ 64"
    and "pos + unat sz \<le> length buffer"
  shows "\<exists>w'. write_loop w buffer pos offset sz = (0, w') \<and> calm w' \<and>
    disk w' = blit (unat offset) (slice pos (unat sz) buffer) (disk w) \<and> slept w' = slept w"
  using assms
proof (induction w buffer pos offset sz rule: write_loop.induct)
  case (1 w buffer pos offset sz)
  show ?case
  proof (cases "sz > 0")
    case False
    then have "sz = 0" by (simp add: word_gt_0)
    then show ?thesis using 1 by (simp add: write_loop.simps slice_def)
  next
    case True
    let ?bs = "take (unat sz) (drop pos buffer)"
    have "0 < unat sz" using True by (simp add: word_less_nat_alt)
    then have len: "length ?bs = unat sz" and "?bs \<noteq> []" using 1(6) by auto
    have fits: "unat offset + length ?bs \<le> length (disk w)" using len 1(4) by simp
    from \<open>calm w\<close> \<open>?bs \<noteq> []\<close> fits show ?thesis
    proof (cases rule: calm_pwrite)
      case (interrupted w')
      from "1.IH"(1) [OF True interrupted(1) [symmetric] refl] interrupted 1 True show ?thesis
        by (simp add: write_loop.simps [of w])
    next
      case (some m w')
      have m: "m \<le> unat sz" using some len by simp
      have off: "unat (offset + word_of_nat m) = unat offset + m"
        using m 1(4,5) by (intro unat_add_of_nat) simp
      have sz: "unat (sz - word_of_nat m) = unat sz - m" using m by (rule unat_sub_of_nat)
      have ld: "length (disk w') = length (disk w)" using some m 1(4) by simp
      have IH: "\<exists>w''. write_loop w' buffer (pos + m) (offset + word_of_nat m) (sz - word_of_nat m) = (0, w'') \<and>
          calm w'' \<and> disk w'' = blit (unat offset + m) (slice (pos + m) (unat sz - m) buffer) (disk w') \<and> slept w'' = slept w"
        using "1.IH"(2) [OF True some(1) [symmetric] refl] some 1(4-) m by (simp add: off sz ld)
      have "take m ?bs = slice pos m buffer" using m by (simp add: slice_def min_def)
      moreover have "blit (unat offset + m) (slice (pos + m) (unat sz - m) buffer) (blit (unat offset) (slice pos m buffer) (disk w)) =
          blit (unat offset) (slice pos m buffer @ slice (pos + m) (unat sz - m) buffer) (disk w)"
        using blit_append [of "unat offset" "slice pos m buffer" _ "disk w"] m 1(4,6) by simp
      moreover have "slice pos m buffer @ slice (pos + m) (unat sz - m) buffer = slice pos (unat sz) buffer"
        using slice_split [of pos m "unat sz - m" buffer] m by simp
      ultimately show ?thesis
        using IH some True by (simp add: write_loop.simps [of w])
    qed
  qed
qed

section \<open>The block loops\<close>

definition device_ok :: "fbd_device \<Rightarrow> bool" where
  "device_ok dev \<longleftrightarrow> reg_wf dev \<and> hash_ok dev \<and> modes_ok dev"

definition block_flips :: "bytes \<Rightarrow> bytes \<Rightarrow> bool" where
  \<comment> \<open>the buffers differ at most in bit 0 of first bytes of blocks\<close>
  "block_flips b b' \<longleftrightarrow> length b' = length b \<and>
     (\<forall>i < length b. b' ! i = b ! i \<or> 4096 dvd i \<and> b' ! i = b ! i XOR 1)"

lemma block_flips_refl [simp]: "block_flips b b"
  by (simp add: block_flips_def)

lemma block_flips_step:
  assumes "at_most_flipped (drop (4096 * k) b) c" and "4096 * k < length b"
    and "block_flips (take (4096 * k) b @ c) b'" and "b' ! (4096 * k) = (take (4096 * k) b @ c) ! (4096 * k)"
  shows "block_flips b b'"
proof -
  have len: "length c = length b - 4096 * k" using at_most_flipped_length [OF assms(1)] by simp
  have "(take (4096 * k) b @ c) ! i = b ! i" if "i < length b" "i \<noteq> 4096 * k" for i
    using that assms(1,2) by (auto simp: nth_append at_most_flipped_def flip_first_def nth_list_update)
  moreover have "(take (4096 * k) b @ c) ! (4096 * k) = b ! (4096 * k) \<or>
      (take (4096 * k) b @ c) ! (4096 * k) = b ! (4096 * k) XOR 1"
    using assms(1,2) by (auto simp: nth_append at_most_flipped_def flip_first_def)
  ultimately show ?thesis
    using assms(2-4) len unfolding block_flips_def by (metis (no_types, lifting) dvd_triv_left le_add_diff_inverse length_append length_take less_imp_le min.absorb4)
qed

text \<open>
  Both loops visit the blocks of a request whose size is a multiple of the block size. The
  counter does not wrap, because the largest such size is \<open>2 ^ 32 - 4096\<close>.
\<close>

lemma block_index:
  assumes "unat (sz :: u32) = 4096 * n" and "unat i = 4096 * k" and "k < n"
  shows "i < sz" and "unat (i + 4096) = 4096 * Suc k"
proof -
  show "i < sz" using assms by (simp add: word_less_nat_alt)
  have "unat sz < 2 ^ 32" using unat_less [of sz] by simp
  then have "unat i + 4096 < 2 ^ 32" using assms by linarith
  then have "unat (i + word_of_nat 4096) = unat i + 4096" by (intro unat_add_of_nat) simp
  then show "unat (i + 4096) = 4096 * Suc k" using assms(2) by simp
qed

definition blocks_result :: "u8 \<Rightarrow> nat \<Rightarrow> fbd_device \<Rightarrow> world \<Rightarrow> bytes
    \<Rightarrow> (int \<times> fbd_device \<times> world \<times> bytes) res option \<Rightarrow> bool" where
  "blocks_result operation pos dev w buffer r \<longleftrightarrow>
     (\<exists>status rs w' buffer'. r = Some (Inr (status, dev\<lparr>d_ranges := rs\<rparr>, w', buffer')) \<and>
        (status = 0 \<or> status = ENOMEDIUM) \<and> device_ok (dev\<lparr>d_ranges := rs\<rparr>) \<and> frame operation w w' \<and>
        block_flips buffer buffer' \<and> take pos buffer' = take pos buffer)"

lemma device_inject:
  assumes "device_ok dev" and "4096 * k < length buffer" and "4096 dvd length buffer"
  obtains status rs w' block where
    "fbd_check_and_inject_fault lib junk dev w (drop (4096 * k) buffer) 4096 offset operation =
       Inr (status, dev\<lparr>d_ranges := rs\<rparr>, w', block)"
    "device_ok (dev\<lparr>d_ranges := rs\<rparr>)" "status = FBD_STS_OK \<or> status = FBD_STS_MEDIUM_ERROR"
    "at_most_flipped (drop (4096 * k) buffer) block" "frame operation w w'"
proof -
  have "4096 \<le> length (drop (4096 * k) buffer)"
    using assms(2,3) by (auto simp: dvd_def)
  with inject_safe [of dev "drop (4096 * k) buffer" lib junk w offset operation] assms(1) that
  show ?thesis by (auto simp: device_ok_def)
qed

lemma blocks_result_done:
  assumes "device_ok (dev\<lparr>d_ranges := rs\<rparr>)" and "at_most_flipped (drop (4096 * k) buffer) block"
    and "frame operation w w'" and "4096 * k < length buffer"
  shows "blocks_result operation (4096 * k) dev w buffer
    (Some (Inr (ENOMEDIUM, dev\<lparr>d_ranges := rs\<rparr>, w', take (4096 * k) buffer @ block)))"
  using assms block_flips_step [OF assms(2,4) block_flips_refl refl]
  by (auto simp: blocks_result_def)

lemma blocks_result_step:
  assumes "at_most_flipped (drop (4096 * k) buffer) block" and "frame operation w w'"
    and "4096 * k < length buffer"
    and "blocks_result operation (4096 * Suc k) (dev\<lparr>d_ranges := rs\<rparr>) w' (take (4096 * k) buffer @ block) r"
  shows "blocks_result operation (4096 * k) dev w buffer r"
proof -
  let ?b = "take (4096 * k) buffer @ block"
  from assms(4) obtain status rs' w'' b' where
    r: "r = Some (Inr (status, dev\<lparr>d_ranges := rs'\<rparr>, w'', b'))" "status = 0 \<or> status = ENOMEDIUM"
      "device_ok (dev\<lparr>d_ranges := rs'\<rparr>)" "frame operation w' w''"
      "block_flips ?b b'" "take (4096 * Suc k) b' = take (4096 * Suc k) ?b"
    by (auto simp: blocks_result_def)
  have "4096 * k < 4096 * Suc k" by simp
  then have "b' ! (4096 * k) = ?b ! (4096 * k)"
    using r(6) by (metis nth_take)
  then have "block_flips buffer b'" using block_flips_step [OF assms(1,3) r(5)] by simp
  moreover have "take (4096 * k) b' = take (4096 * k) buffer"
    using arg_cong [OF r(6), of "take (4096 * k)"] assms(3) by (simp add: min_def)
  ultimately show ?thesis
    using r assms(2) by (auto simp: blocks_result_def intro: frame_trans)
qed

lemma write_inject_blocks:
  assumes "device_ok dev" and "unat sz = 4096 * n" and "length buffer = unat sz"
    and "unat i = 4096 * k" and "k \<le> n"
  shows "blocks_result FBD_OP_WRITE (4096 * k) dev w buffer
    (write_inject lib junk dev w buffer (4096 * k) i sz offset)"
  using assms
proof (induction "n - k" arbitrary: dev w buffer i k)
  case 0
  then have "\<not> i < sz" by (simp add: word_less_nat_alt)
  then have "write_inject lib junk dev w buffer (4096 * k) i sz offset = Some (Inr (0, dev, w, buffer))"
    by (subst write_inject.simps) simp
  then show ?case
    using "0.prems"(1) by (auto simp: blocks_result_def intro: exI [of _ "d_ranges dev"])
next
  case (Suc m)
  then have k: "k < n" and lt: "4096 * k < length buffer" and dvd: "4096 dvd length buffer" by simp_all
  note ix = block_index [OF Suc.prems(2,4) k]
  from Suc.prems(1) lt dvd show ?case
  proof (rule device_inject [where lib = lib and junk = junk and w = w
        and offset = "ucast i + offset" and operation = FBD_OP_WRITE])
    fix status rs w' block
    assume inj: "fbd_check_and_inject_fault lib junk dev w (drop (4096 * k) buffer) 4096 (ucast i + offset) FBD_OP_WRITE =
        Inr (status, dev\<lparr>d_ranges := rs\<rparr>, w', block)"
      and ok: "device_ok (dev\<lparr>d_ranges := rs\<rparr>)"
      and status: "status = FBD_STS_OK \<or> status = FBD_STS_MEDIUM_ERROR"
      and flip: "at_most_flipped (drop (4096 * k) buffer) block" and frame: "frame FBD_OP_WRITE w w'"
    let ?b = "take (4096 * k) buffer @ block"
    have "length ?b = unat sz"
      using at_most_flipped_length [OF flip] lt Suc.prems(3) by simp
    with Suc.hyps(1) [of "Suc k" "dev\<lparr>d_ranges := rs\<rparr>" ?b "i + 4096" w'] Suc.hyps(2) ok ix Suc.prems(2) k
    have "blocks_result FBD_OP_WRITE (4096 * Suc k) (dev\<lparr>d_ranges := rs\<rparr>) w' ?b
        (write_inject lib junk (dev\<lparr>d_ranges := rs\<rparr>) w' ?b (4096 * Suc k) (i + 4096) sz offset)" by simp
    note next_block = blocks_result_step [OF flip frame lt this]
    show ?thesis
      using status next_block blocks_result_done [OF ok flip frame lt] ix(1) inj
      by (subst write_inject.simps) (auto simp: fbd_check_and_inject_write_fault_def add.commute)
  qed
qed

lemma read_inject_blocks:
  assumes "device_ok dev" and "unat sz = 4096 * n" and "length buffer = unat sz"
    and "unat i = 4096 * k" and "k \<le> n"
  shows "blocks_result FBD_OP_READ (4096 * k) dev w buffer
    (read_inject lib junk dev w buffer (4096 * k) i sz offset)"
  using assms
proof (induction "n - k" arbitrary: dev w buffer i k)
  case 0
  then have "\<not> i < sz" by (simp add: word_less_nat_alt)
  then have "read_inject lib junk dev w buffer (4096 * k) i sz offset = Some (Inr (0, dev, w, buffer))"
    by (subst read_inject.simps) simp
  then show ?case
    using "0.prems"(1) by (auto simp: blocks_result_def intro: exI [of _ "d_ranges dev"])
next
  case (Suc m)
  then have k: "k < n" and lt: "4096 * k < length buffer" and dvd: "4096 dvd length buffer" by simp_all
  note ix = block_index [OF Suc.prems(2,4) k]
  from Suc.prems(1) lt dvd show ?case
  proof (rule device_inject [where lib = lib and junk = junk and w = w
        and offset = "ucast (ucast (offset + ucast i) :: u32)" and operation = FBD_OP_READ])
    fix status rs w' block
    assume inj: "fbd_check_and_inject_fault lib junk dev w (drop (4096 * k) buffer) 4096
          (ucast (ucast (offset + ucast i) :: u32)) FBD_OP_READ =
        Inr (status, dev\<lparr>d_ranges := rs\<rparr>, w', block)"
      and ok: "device_ok (dev\<lparr>d_ranges := rs\<rparr>)"
      and status: "status = FBD_STS_OK \<or> status = FBD_STS_MEDIUM_ERROR"
      and flip: "at_most_flipped (drop (4096 * k) buffer) block" and frame: "frame FBD_OP_READ w w'"
    let ?b = "take (4096 * k) buffer @ block"
    have "length ?b = unat sz"
      using at_most_flipped_length [OF flip] lt Suc.prems(3) by simp
    with Suc.hyps(1) [of "Suc k" "dev\<lparr>d_ranges := rs\<rparr>" ?b "i + 4096" w'] Suc.hyps(2) ok ix Suc.prems(2) k
    have "blocks_result FBD_OP_READ (4096 * Suc k) (dev\<lparr>d_ranges := rs\<rparr>) w' ?b
        (read_inject lib junk (dev\<lparr>d_ranges := rs\<rparr>) w' ?b (4096 * Suc k) (i + 4096) sz offset)" by simp
    note next_block = blocks_result_step [OF flip frame lt this]
    show ?thesis
      using status next_block blocks_result_done [OF ok flip frame lt] ix(1) inj
      by (subst read_inject.simps) (auto simp: fbd_check_and_inject_read_fault_def Let_def add.commute)
  qed
qed

section \<open>Reads and writes through the driver\<close>

lemma frame_calm: "frame operation w w' \<Longrightarrow> calm w \<Longrightarrow> calm w'"
  by (simp add: frame_def)

lemma write_loop_world:
  assumes "write_loop w buffer pos offset sz = (e, w')"
  shows "length (disk w') = length (disk w)"
  using assms
proof (induction w buffer pos offset sz rule: write_loop.induct)
  case (1 w buffer pos offset sz)
  let ?bs = "take (unat sz) (drop pos buffer)"
  obtain r w1 where p: "sys_pwrite w ?bs (unat offset) = (r, w1)" by (cases "sys_pwrite w ?bs (unat offset)")
  then have "length (disk w1) = length (disk w)" by (rule sys_pwrite_length)
  with 1 p show ?case
    by (cases r) (auto simp: write_loop.simps [of w] split: if_splits)
qed

text \<open>
  (C10) Writes are all or nothing. For a device with well-formed faults, a block-aligned
  request inside the disk and an operating system that may interrupt and shorten transfers, the
  write callback returns; either it reports success and the disk holds exactly the request's
  bytes, up to injected flips of bit 0 of first bytes of blocks, and nothing else has changed,
  or it reports \<^verbatim>\<open>ENOMEDIUM\<close> and the disk is untouched. It reports \<^verbatim>\<open>ENOMEDIUM\<close> exactly when the injector has
  met a medium error in one of the blocks.
\<close>

theorem device_write_all_or_nothing:
  assumes "device_ok dev" and "length buffer = unat sz" and "4096 dvd unat sz"
    and "calm w" and "unat offset + unat sz \<le> length (disk w)" and "length (disk w) < 2 ^ 64"
  shows "\<exists>status rs w' buffer'.
    device_write lib junk dev w buffer offset sz = Some (Inr (status, dev\<lparr>d_ranges := rs\<rparr>, w', buffer')) \<and>
    device_ok (dev\<lparr>d_ranges := rs\<rparr>) \<and> calm w' \<and> block_flips buffer buffer' \<and>
    (status = 0 \<and> disk w' = blit (unat offset) buffer' (disk w) \<or>
     status = ENOMEDIUM \<and> disk w' = disk w) \<and>
    (status = ENOMEDIUM \<longleftrightarrow> (\<exists>d w1 b. write_inject lib junk dev w buffer 0 0 sz offset = Some (Inr (ENOMEDIUM, d, w1, b))))"
proof -
  from assms(3) obtain n where n: "unat sz = 4096 * n" by (auto simp: dvd_def)
  from write_inject_blocks [OF assms(1) n assms(2), of 0 0 w lib junk offset]
  obtain status rs w1 b where
    inj: "write_inject lib junk dev w buffer 0 0 sz offset = Some (Inr (status, dev\<lparr>d_ranges := rs\<rparr>, w1, b))"
      "status = 0 \<or> status = ENOMEDIUM" "device_ok (dev\<lparr>d_ranges := rs\<rparr>)" "frame FBD_OP_WRITE w w1" "block_flips buffer b"
    by (auto simp: blocks_result_def)
  then have w1: "disk w1 = disk w" "calm w1" and lb: "length b = unat sz"
    using assms(2,4) by (auto simp: frame_def block_flips_def)
  with write_loop_calm [of w1 offset sz 0 b] assms(5,6) obtain w2 where
    "write_loop w1 b 0 offset sz = (0, w2)" "calm w2" "disk w2 = blit (unat offset) b (disk w)"
    by (auto simp: slice_def)
  with inj w1 show ?thesis by (auto simp: device_write_def)
qed

text \<open>
  (C11) Reads see the disk. Under the same conditions the read callback returns; it reports
  success or \<^verbatim>\<open>ENOMEDIUM\<close>, and what it returns is the contents of the disk at the offset of the
  request, up to injected flips of bit 0 of first bytes of blocks.
\<close>

theorem device_read_returns_disk:
  assumes "device_ok dev" and "length buffer = unat sz" and "4096 dvd unat sz"
    and "calm w" and "unat offset + unat sz \<le> length (disk w)" and "length (disk w) < 2 ^ 64"
  shows "\<exists>status rs w' buffer'.
    device_read lib junk dev w buffer offset sz = Some (Inr (status, dev\<lparr>d_ranges := rs\<rparr>, w', buffer')) \<and>
    (status = 0 \<or> status = ENOMEDIUM) \<and> device_ok (dev\<lparr>d_ranges := rs\<rparr>) \<and> calm w' \<and>
    block_flips (slice (unat offset) (unat sz) (disk w)) buffer' \<and> length (disk w') = length (disk w)"
proof -
  from assms(3) obtain n where n: "unat sz = 4096 * n" by (auto simp: dvd_def)
  let ?b = "slice (unat offset) (unat sz) (disk w)"
  have len: "length ?b = unat sz" using assms(5) by simp
  have "blit 0 ?b buffer = ?b" using assms(2) len by (simp add: blit_def)
  with read_loop_calm [OF assms(4-6), of 0 buffer] assms(2) obtain w1 where
    w1: "read_loop w buffer 0 offset sz = (0, w1, ?b)" "calm w1" "disk w1 = disk w" by auto
  from read_inject_blocks [OF assms(1) n len, of 0 0 w1 lib junk offset] w1
  show ?thesis by (auto simp: blocks_result_def device_read_def frame_def)
qed

lemma inject_no_ranges:
  assumes "hash_ok dev" and "d_ranges dev = []" and "4096 * k < length buffer" and "4096 dvd length buffer"
  shows "fbd_check_and_inject_fault lib junk dev w (drop (4096 * k) buffer) 4096 offset operation =
    Inr (FBD_STS_OK, dev, w, drop (4096 * k) buffer)"
proof -
  have "4096 \<le> length (drop (4096 * k) buffer)" using assms(3,4) by (auto simp: dvd_def)
  from block_hash_ok [OF assms(1) this, of lib junk] assms(2) show ?thesis
    by (auto simp: fbd_check_and_inject_fault_def)
qed

lemma write_inject_no_ranges:
  assumes "hash_ok dev" and "d_ranges dev = []" and "unat sz = 4096 * n" and "length buffer = unat sz"
    and "unat i = 4096 * k" and "k \<le> n"
  shows "write_inject lib junk dev w buffer (4096 * k) i sz offset = Some (Inr (0, dev, w, buffer))"
  using assms(5,6)
proof (induction "n - k" arbitrary: i k)
  case 0
  then have "\<not> i < sz" using assms(3) by (simp add: word_less_nat_alt)
  then show ?case by (subst write_inject.simps) simp
next
  case (Suc m)
  then have k: "k < n" by simp
  note ix = block_index [OF assms(3) Suc.prems(1) k]
  have "4096 * k < length buffer" "4096 dvd length buffer" using k assms(3,4) by simp_all
  from inject_no_ranges [OF assms(1,2) this, of lib junk w "ucast i + offset" FBD_OP_WRITE]
    Suc.hyps(1) [of "Suc k" "i + 4096"] Suc.hyps(2) ix k
  show ?case by (subst write_inject.simps) (simp add: fbd_check_and_inject_write_fault_def add.commute)
qed

lemma read_inject_no_ranges:
  assumes "hash_ok dev" and "d_ranges dev = []" and "unat sz = 4096 * n" and "length buffer = unat sz"
    and "unat i = 4096 * k" and "k \<le> n"
  shows "read_inject lib junk dev w buffer (4096 * k) i sz offset = Some (Inr (0, dev, w, buffer))"
  using assms(5,6)
proof (induction "n - k" arbitrary: i k)
  case 0
  then have "\<not> i < sz" using assms(3) by (simp add: word_less_nat_alt)
  then show ?case by (subst read_inject.simps) simp
next
  case (Suc m)
  then have k: "k < n" by simp
  note ix = block_index [OF assms(3) Suc.prems(1) k]
  have "4096 * k < length buffer" "4096 dvd length buffer" using k assms(3,4) by simp_all
  from inject_no_ranges [OF assms(1,2) this, of lib junk w "ucast (ucast (offset + ucast i) :: u32)" FBD_OP_READ]
    Suc.hyps(1) [of "Suc k" "i + 4096"] Suc.hyps(2) ix k
  show ?case by (subst read_inject.simps) (simp add: fbd_check_and_inject_read_fault_def add.commute)
qed

lemma transparent_write:
  assumes "hash_ok dev" and "d_ranges dev = []" and "length buffer = unat sz" and "4096 dvd unat sz"
    and "calm w" and "unat offset + unat sz \<le> length (disk w)" and "length (disk w) < 2 ^ 64"
  obtains w' where "device_write lib junk dev w buffer offset sz = Some (Inr (0, dev, w', buffer))" "calm w'"
    "disk w' = blit (unat offset) buffer (disk w)"
proof -
  from assms(4) obtain n where n: "unat sz = 4096 * n" by (auto simp: dvd_def)
  from write_loop_calm [OF assms(5-7), of 0 buffer] assms(3) obtain w' where
    w': "write_loop w buffer 0 offset sz = (0, w')" "calm w'" "disk w' = blit (unat offset) buffer (disk w)"
    by (auto simp: slice_def)
  with write_inject_no_ranges [OF assms(1,2) n assms(3), of 0 0 lib junk w offset]
  have "device_write lib junk dev w buffer offset sz = Some (Inr (0, dev, w', buffer))" by (simp add: device_write_def)
  with w'(2,3) show ?thesis by (rule that [rotated])
qed

lemma transparent_read:
  assumes "hash_ok dev" and "d_ranges dev = []" and "length buffer = unat sz" and "4096 dvd unat sz"
    and "calm w" and "unat offset + unat sz \<le> length (disk w)" and "length (disk w) < 2 ^ 64"
  obtains w' where "device_read lib junk dev w buffer offset sz = Some (Inr (0, dev, w', slice (unat offset) (unat sz) (disk w)))"
    "calm w'" "disk w' = disk w"
proof -
  from assms(4) obtain n where n: "unat sz = 4096 * n" by (auto simp: dvd_def)
  let ?b = "slice (unat offset) (unat sz) (disk w)"
  have len: "length ?b = unat sz" using assms(6) by simp
  have "blit 0 ?b buffer = ?b" using assms(3) len by (simp add: blit_def)
  with read_loop_calm [OF assms(5-7), of 0 buffer] assms(3) obtain w' where
    w': "read_loop w buffer 0 offset sz = (0, w', ?b)" "calm w'" "disk w' = disk w" by auto
  with read_inject_no_ranges [OF assms(1,2) n len, of 0 0 lib junk w' offset]
  have "device_read lib junk dev w buffer offset sz = Some (Inr (0, dev, w', ?b))" by (simp add: device_read_def)
  with w'(2,3) show ?thesis by (rule that [rotated])
qed

text \<open>
  (C20) Without registered faults the device is transparent: a block-aligned write followed by
  a read of the same range returns exactly the bytes written, and the disk is the old disk with
  these bytes in place, however often the system calls are interrupted or cut short.
\<close>

theorem write_read_roundtrip:
  assumes "hash_ok dev" and "d_ranges dev = []" and "length buffer = unat sz" and "length buffer' = unat sz"
    and "4096 dvd unat sz" and "calm w" and "unat offset + unat sz \<le> length (disk w)"
    and "length (disk w) < 2 ^ 64"
  shows "\<exists>w1 w2. device_write lib junk dev w buffer offset sz = Some (Inr (0, dev, w1, buffer)) \<and>
    disk w1 = blit (unat offset) buffer (disk w) \<and>
    device_read lib junk dev w1 buffer' offset sz = Some (Inr (0, dev, w2, buffer)) \<and> disk w2 = disk w1"
proof -
  obtain w1 where w1: "device_write lib junk dev w buffer offset sz = Some (Inr (0, dev, w1, buffer))" "calm w1"
    "disk w1 = blit (unat offset) buffer (disk w)"
    by (rule transparent_write [OF assms(1-3,5-8)])
  have len: "unat offset + unat sz \<le> length (disk w1)" "length (disk w1) < 2 ^ 64" using w1(3) assms(3,7,8) by simp_all
  obtain w2 where "device_read lib junk dev w1 buffer' offset sz = Some (Inr (0, dev, w2, slice (unat offset) (unat sz) (disk w1)))"
    "disk w2 = disk w1"
    by (rule transparent_read [OF assms(1,2,4,5) w1(2) len])
  moreover have "slice (unat offset) (unat sz) (disk w1) = buffer"
    using slice_blit_same [of "unat offset" buffer "disk w"] w1(3) assms(3,7) by simp
  ultimately show ?thesis using w1 by auto
qed

section \<open>Two deviations\<close>

definition medium_range :: "u64 \<Rightarrow> fbd_range_fault" where
  "medium_range off = \<lparr>rf_mode = FBD_MODE_BLOCK, rf_faults = [medium_on FBD_OP_READ True],
     rf_ptr = fbd_new_block_fault 4096 off\<rparr>"

lemma medium_range_wf: "reg_wf (demo_device [medium_range off])"
  by (simp add: reg_wf_def medium_range_def faults_ok_def fault_ok_def fbd_new_fault_def)

lemma medium_range_hit:
  "range_hit dev None 4096 0 (medium_range 0) = Inr (FBD_STS_OK, True)"
  "range_hit dev None 4096 0 (medium_range (2 ^ 32)) = Inr (FBD_STS_OK, False)"
  by (simp_all add: range_hit_def medium_range_def fbd_new_block_fault_def intersept_memory_def)

lemma medium_range_fires:
  "rf_mode (medium_range off) = FBD_MODE_BLOCK" "survivors FBD_OP_READ (medium_range off) = [medium_range off]"
  "snd (fire FBD_OP_READ (rf_faults (medium_range off))) = [medium_on FBD_OP_READ True]"
  by (simp_all add: medium_range_def survivors_def armed_def fbd_new_fault_def)

lemma read_inject_truncated:
  "(read_inject lib junk dev w buffer 0 0 4096 (2 ^ 32)) =
     (case fbd_check_and_inject_fault lib junk dev w buffer 4096 0 FBD_OP_READ of
        Inl e \<Rightarrow> Some (Inl e)
      | Inr (status, dev', w', b) \<Rightarrow>
          Some (Inr (if status = FBD_STS_MEDIUM_ERROR then ENOMEDIUM else 0, dev', w', b)))"
proof -
  have "read_inject lib junk dev w b n 4096 4096 off = Some (Inr (0, dev, w, b))" for dev w b n off
    by (subst read_inject.simps) simp
  then show ?thesis
    by (subst read_inject.simps)
      (auto simp: Let_def fbd_check_and_inject_read_fault_def split: sum.splits prod.splits)
qed


text \<open>
  The option \<^verbatim>\<open>-h\<close> takes the name of a digest. The name \<^verbatim>\<open>MURMUR_x86_128\<close> is rejected
  as invalid, every unknown name is accepted as if it were that one, and then the first block
  that is read or written aborts the driver.
\<close>

lemma unknown_hash_accepted:
  assumes "name \<noteq> ''MD5''" and "name \<noteq> ''XXH3_128''"
  shows "(case fbd_device_set_hash_type dev name False of (dev', invalid) \<Rightarrow>
    if name = ''MURMUR_x86_128'' then invalid
    else \<not> invalid \<and> (hash_mode (d_settings dev) \<longrightarrow> 4096 \<le> length buffer \<longrightarrow>
      fbd_check_and_inject_fault lib junk dev' w buffer sz offset operation = Inl Abort))"
  using assms
  by (simp add: fbd_device_set_hash_type_def fbd_check_and_inject_fault_def block_hash_def fbd_string_to_hash_def)

lemma unknown_hash_accepted_witness:
  "(case fbd_device_set_hash_type (demo_device []) ''SHA1'' False of (dev', invalid) \<Rightarrow>
    \<not> invalid \<and> d_hash_type dev' = FBD_HASH_MURMUR_x86_128)"
  using unknown_hash_accepted [of "''SHA1''" "demo_device []" "[]" demo_lib "[]" "demo_world []" 0 0 0]
  by (simp add: fbd_device_set_hash_type_def)

section \<open>Concrete evaluations\<close>

lemma demo_device_ok:
  "device_ok (demo_device [demo_range [bit_flip_on FBD_OP_WRITE False, medium_on FBD_OP_WRITE True]])"
  using demo_wf by (simp add: device_ok_def modes_ok_def)

definition busy_world :: world where
  "busy_world = \<lparr>disk = replicate 16384 0, script = [Fail 4, Upto 100, Fail 4, Upto 4000, Upto 7], naps = [], slept = 0\<rparr>"

lemma busy_world_simps [simp]: "calm busy_world" "length (disk busy_world) = 16384"
  by (simp_all add: busy_world_def calm_def)

theorem device_write_all_or_nothing_witness:
  "\<exists>status rs w' buffer'.
    device_write demo_lib [] (demo_device [demo_range [bit_flip_on FBD_OP_WRITE False, medium_on FBD_OP_WRITE True]])
      busy_world (replicate 8192 65) 8192 8192 = Some (Inr (status, demo_device rs, w', buffer')) \<and>
    (status = 0 \<and> disk w' = blit 8192 buffer' (disk busy_world) \<or> status = ENOMEDIUM \<and> disk w' = disk busy_world)"
  using device_write_all_or_nothing [OF demo_device_ok, of "replicate 8192 65" 8192 busy_world 8192 demo_lib "[]"]
  by auto

theorem device_read_returns_disk_witness:
  "\<exists>status rs w' buffer'.
    device_read demo_lib [] (demo_device [demo_range [bit_flip_on FBD_OP_WRITE False, medium_on FBD_OP_WRITE True]])
      busy_world (replicate 8192 65) 8192 8192 = Some (Inr (status, demo_device rs, w', buffer')) \<and>
    block_flips (slice 8192 8192 (disk busy_world)) buffer'"
  using device_read_returns_disk [OF demo_device_ok, of "replicate 8192 65" 8192 busy_world 8192 demo_lib "[]"]
  by auto

theorem write_read_roundtrip_witness:
  "\<exists>w1 w2. device_write demo_lib [] (demo_device []) busy_world (replicate 4096 65) 4096 4096 =
      Some (Inr (0, demo_device [], w1, replicate 4096 65)) \<and>
    device_read demo_lib [] (demo_device []) w1 (replicate 4096 0) 4096 4096 =
      Some (Inr (0, demo_device [], w2, replicate 4096 65))"
  using write_read_roundtrip [of "demo_device []" "replicate 4096 65" 4096 "replicate 4096 0" busy_world 4096 demo_lib "[]"]
  by auto


end
