(* ===== verification/Fsp_Protocol.thy ===== *)
theory Fsp_Protocol
  imports Fbd_Driver
begin

text \<open>
  \<^verbatim>\<open>fbdd/fsocket\<close>: the protocol with which a benchmark asks the running driver for faults. A
  request is a C structure sent as it is in memory; \<open>to_image\<close> and \<open>of_image\<close> give its layout
  (64-bit ABI: 112 bytes, padding at 4 to 7 and 108 to 111). The sections follow
  \<^verbatim>\<open>fsp_structs.c\<close>, \<^verbatim>\<open>fsp_server.c\<close> and \<^verbatim>\<open>fsp_client.c\<close>. Memory that the code allocates and
  does not initialise is the argument \<open>fresh\<close>.
\<close>

section \<open>Requests\<close>

text \<open>
  \<open>rq_union\<close> is the union \<^verbatim>\<open>request_mode\<close>: the size of a block request in bytes 0 to 3 and
  its offset in bytes 8 to 15, or the hash type in byte 0 and the digest in bytes 8 to 31.
\<close>

record fsp_request =
  rq_operation :: u8
  rq_fault :: u8
  rq_mode :: u8
  rq_persistent :: bool
  rq_pad :: bytes
  rq_union :: bytes
  rq_args_size :: u32
  rq_args :: bytes

definition rq_ok :: "fsp_request \<Rightarrow> bool" where
  "rq_ok r \<longleftrightarrow> length (rq_pad r) = 8 \<and> length (rq_union r) = 32 \<and> length (rq_args r) = 64"

definition to_image :: "fsp_request \<Rightarrow> bytes" where
  "to_image r = [rq_operation r, rq_fault r, rq_mode r, if rq_persistent r then 1 else 0]
     @ take 4 (rq_pad r) @ rq_union r @ to_le 4 (ucast (rq_args_size r)) @ rq_args r @ drop 4 (rq_pad r)"

definition of_image :: "bytes \<Rightarrow> fsp_request" where
  "of_image img =
     \<lparr>rq_operation = img ! 0, rq_fault = img ! 1, rq_mode = img ! 2, rq_persistent = (img ! 3 \<noteq> 0),
      rq_pad = slice 4 4 img @ slice 108 4 img, rq_union = slice 8 32 img,
      rq_args_size = ucast (of_le (slice 40 4 img)), rq_args = slice 44 64 img\<rparr>"

definition rb_size :: "fsp_request \<Rightarrow> u32" where
  "rb_size r = ucast (of_le (take 4 (rq_union r)))"

definition rb_offSet :: "fsp_request \<Rightarrow> u64" where
  "rb_offSet r = of_le (slice 8 8 (rq_union r))"

definition rh_hash_type :: "fsp_request \<Rightarrow> u8" where
  "rh_hash_type r = rq_union r ! 0"

definition rh_hash :: "fsp_request \<Rightarrow> bytes" where
  "rh_hash r = slice 8 24 (rq_union r)"

section \<open>\<^verbatim>\<open>fsp_structs.c\<close>\<close>

definition fsp_string_to_hash :: "hash_lib \<Rightarrow> bytes \<Rightarrow> u32 \<Rightarrow> bytes res" where
  \<comment> \<open>the 16 bytes stored at \<^verbatim>\<open>hash_out\<close>\<close>
  "fsp_string_to_hash lib string string_size =
     (if length string < unat string_size then Inl Out_Of_Bounds
      else Inr (md5_digest lib (take (unat string_size) string)))"

definition fsp_set_request_args :: "fsp_request \<Rightarrow> bytes \<Rightarrow> fsp_request res" where
  \<comment> \<open>\<open>args\<close> are the \<^verbatim>\<open>args_size\<close> bytes at the pointer\<close>
  "fsp_set_request_args r args =
     (let r1 = r\<lparr>rq_args_size := word_of_nat (length args)\<rparr>;
          r2 = (if length args < 64 then r1\<lparr>rq_args := (rq_args r1)[length args := 0]\<rparr> else r1) in
      if length args \<le> 64 then Inr (r2\<lparr>rq_args := blit 0 args (rq_args r2)\<rparr>) else Inl Out_Of_Bounds)"

definition fsp_new_request :: "fsp_request \<Rightarrow> u8 \<Rightarrow> u8 \<Rightarrow> bool \<Rightarrow> fsp_request" where
  "fsp_new_request fresh operation fault persistent =
     fresh\<lparr>rq_operation := operation, rq_fault := fault, rq_persistent := persistent,
           rq_union := replicate 32 0\<rparr>"

definition fsp_new_request_hash_ptr ::
    "hash_lib \<Rightarrow> bytes \<Rightarrow> fsp_request \<Rightarrow> u32 \<Rightarrow> bytes \<Rightarrow> u8 \<Rightarrow> fsp_request res" where
  \<comment> \<open>for MD5 the code copies \<^verbatim>\<open>sizeof(union fsp_hash)\<close> = 24 bytes from a local array of 17:
     \<open>stack\<close> are the 7 bytes that follow the array\<close>
  "fsp_new_request_hash_ptr lib stack req content_size content hash_type =
     (let req1 = req\<lparr>rq_union := (rq_union req)[0 := hash_type]\<rparr> in
      if hash_type = FBD_HASH_MD5
      then rbind (fsp_string_to_hash lib content content_size) (\<lambda>hash.
             Inr (req1\<lparr>rq_union := blit 8 (hash @ [0] @ stack) (rq_union req1)\<rparr>))
      else if hash_type = FBD_HASH_XXH3_128
      then if length content < unat content_size then Inl Out_Of_Bounds
        else (case xxh3_digest lib (take (unat content_size) content) of (lo, hi) \<Rightarrow>
          Inr (req1\<lparr>rq_union := blit 8 (to_le 8 lo @ to_le 8 hi) (rq_union req1)\<rparr>))
      else Inr req1)"

definition fsp_new_request_hash ::
    "hash_lib \<Rightarrow> bytes \<Rightarrow> fsp_request \<Rightarrow> u8 \<Rightarrow> u8 \<Rightarrow> u32 \<Rightarrow> bytes \<Rightarrow> bool \<Rightarrow> u8 \<Rightarrow> bytes \<Rightarrow> fsp_request res" where
  "fsp_new_request_hash lib stack fresh operation fault content_size content persistent hash_type args =
     rbind (fsp_new_request_hash_ptr lib stack ((fsp_new_request fresh operation fault persistent)\<lparr>rq_mode := FBD_MODE_HASH\<rparr>)
              content_size content hash_type) (\<lambda>request.
       fsp_set_request_args request args)"

definition fsp_new_request_block_ptr :: "fsp_request \<Rightarrow> u32 \<Rightarrow> u64 \<Rightarrow> fsp_request" where
  "fsp_new_request_block_ptr request sz offSet =
     request\<lparr>rq_mode := FBD_MODE_BLOCK,
       rq_union := blit 8 (to_le 8 offSet) (blit 0 (to_le 4 (ucast sz)) (rq_union request))\<rparr>"

definition fsp_new_request_dedup ::
    "hash_lib \<Rightarrow> bytes \<Rightarrow> fsp_request \<Rightarrow> u8 \<Rightarrow> u8 \<Rightarrow> u32 \<Rightarrow> bytes \<Rightarrow> bool \<Rightarrow> u8 \<Rightarrow> bytes \<Rightarrow> fsp_request res" where
  "fsp_new_request_dedup lib stack fresh operation fault content_size content persistent hash_type args =
     rbind (fsp_new_request_hash_ptr lib stack ((fsp_new_request fresh operation fault persistent)\<lparr>rq_mode := FBD_MODE_DEDUP\<rparr>)
              content_size content hash_type) (\<lambda>request.
       fsp_set_request_args request args)"

definition fsp_new_request_block ::
    "fsp_request \<Rightarrow> u8 \<Rightarrow> u8 \<Rightarrow> u32 \<Rightarrow> u64 \<Rightarrow> bool \<Rightarrow> bytes \<Rightarrow> fsp_request res" where
  "fsp_new_request_block fresh operation fault sz offSet persistent args =
     fsp_set_request_args (fsp_new_request_block_ptr (fsp_new_request fresh operation fault persistent) sz offSet) args"

definition fsp_new_request_device :: "fsp_request \<Rightarrow> u8 \<Rightarrow> u8 \<Rightarrow> bool \<Rightarrow> bytes \<Rightarrow> fsp_request res" where
  "fsp_new_request_device fresh operation fault persistent args =
     fsp_set_request_args ((fsp_new_request fresh operation fault persistent)\<lparr>rq_mode := FBD_MODE_DEVICE\<rparr>) args"

section \<open>\<^verbatim>\<open>fsp_server.c\<close>\<close>

definition fsp_hash_to_fbd_hash :: "fsp_request \<Rightarrow> fbd_hash \<Rightarrow> int \<times> fbd_hash" where
  "fsp_hash_to_fbd_hash fsp fbd =
     (if rh_hash_type fsp = FBD_HASH_MD5 then (FBD_STS_OK, take 17 (rh_hash fsp) @ drop 17 fbd)
      else if rh_hash_type fsp = FBD_HASH_XXH3_128
        then (FBD_STS_OK, store_xxh3 (of_le (take 8 (rh_hash fsp))) (of_le (slice 8 8 (rh_hash fsp))) fbd)
      else (FBD_STS_INVALID_HASH_TYPE, fbd))"

definition arg_ms :: "fsp_request \<Rightarrow> u64" where
  \<comment> \<open>\<^verbatim>\<open>((uint64_t *) req->args)[0]\<close>\<close>
  "arg_ms req = of_le (take 8 (rq_args req))"

definition handle_block_requests :: "fbd_device \<Rightarrow> fsp_request \<Rightarrow> (int \<times> fbd_device) res" where
  "handle_block_requests dev req =
     (if rq_fault req = FBD_FAULT_BIT_FLIP
        then fbd_add_bit_flip_block_fault dev (rb_size req) (rb_offSet req) (rq_operation req) (rq_persistent req)
      else if rq_fault req = FBD_FAULT_SLOW_DISK
        then fbd_add_slow_disk_block_fault dev (rb_size req) (rb_offSet req) (rq_operation req) (rq_persistent req) (arg_ms req)
      else if rq_fault req = FBD_FAULT_MEDIUM
        then fbd_add_medium_error_block_fault dev (rb_size req) (rb_offSet req) (rq_operation req) (rq_persistent req)
      else Inr (FBD_STS_NOT_FOUND, dev))"

definition handle_hash_requests :: "fbd_hash \<Rightarrow> fbd_device \<Rightarrow> fsp_request \<Rightarrow> (int \<times> fbd_device) res" where
  "handle_hash_requests junk dev req =
     (case fsp_hash_to_fbd_hash req junk of (res, fbd_hash) \<Rightarrow>
      if res < 0 then Inr (res, dev)
      else if rq_fault req = FBD_FAULT_BIT_FLIP
        then fbd_add_bit_flip_hash_fault dev fbd_hash (rq_operation req) (rq_persistent req)
      else if rq_fault req = FBD_FAULT_SLOW_DISK
        then fbd_add_slow_disk_hash_fault dev fbd_hash (rq_operation req) (rq_persistent req) (arg_ms req)
      else if rq_fault req = FBD_FAULT_MEDIUM
        then fbd_add_medium_error_hash_fault dev fbd_hash (rq_operation req) (rq_persistent req)
      else Inr (FBD_STS_NOT_FOUND, dev))"

definition handle_dedup_requests :: "fbd_hash \<Rightarrow> fbd_device \<Rightarrow> fsp_request \<Rightarrow> (int \<times> fbd_device) res" where
  "handle_dedup_requests junk dev req =
     (case fsp_hash_to_fbd_hash req junk of (res, fbd_hash) \<Rightarrow>
      if res < 0 then Inr (res, dev)
      else if rq_fault req = FBD_FAULT_BIT_FLIP
        then fbd_add_bit_flip_dedup_fault dev fbd_hash (rq_operation req) (rq_persistent req)
      else if rq_fault req = FBD_FAULT_SLOW_DISK
        then fbd_add_slow_disk_dedup_fault dev fbd_hash (rq_operation req) (rq_persistent req) (arg_ms req)
      else if rq_fault req = FBD_FAULT_MEDIUM
        then fbd_add_medium_error_dedup_fault dev fbd_hash (rq_operation req) (rq_persistent req)
      else Inr (FBD_STS_NOT_FOUND, dev))"

definition handle_device_requests :: "fbd_device \<Rightarrow> fsp_request \<Rightarrow> (int \<times> fbd_device) res" where
  \<comment> \<open>\<^verbatim>\<open>dev->size\<close>, a \<^verbatim>\<open>uint64_t\<close>, is passed as a \<^verbatim>\<open>uint32_t\<close>\<close>
  "handle_device_requests dev req =
     (if rq_fault req = FBD_FAULT_BIT_FLIP
        then fbd_add_bit_flip_block_fault dev (ucast (d_size dev)) 0 (rq_operation req) (rq_persistent req)
      else if rq_fault req = FBD_FAULT_SLOW_DISK
        then fbd_add_slow_disk_block_fault dev (ucast (d_size dev)) 0 (rq_operation req) (rq_persistent req) (arg_ms req)
      else if rq_fault req = FBD_FAULT_MEDIUM
        then fbd_add_medium_error_block_fault dev (ucast (d_size dev)) 0 (rq_operation req) (rq_persistent req)
      else Inr (FBD_STS_NOT_FOUND, dev))"

definition handle_request :: "fbd_hash \<Rightarrow> fbd_device \<Rightarrow> fsp_request \<Rightarrow> (int \<times> fbd_device) res" where
  "handle_request junk dev req =
     (let us = d_settings dev in
      if rq_mode req = FBD_MODE_BLOCK
        then if block_mode us then handle_block_requests dev req else Inr (FBD_STS_INVALID_MODE, dev)
      else if rq_mode req = FBD_MODE_HASH
        then if hash_mode us then handle_hash_requests junk dev req else Inr (FBD_STS_INVALID_MODE, dev)
      else if rq_mode req = FBD_MODE_DEDUP
        then if dedup_mode us then handle_dedup_requests junk dev req else Inr (FBD_STS_INVALID_MODE, dev)
      else if rq_mode req = FBD_MODE_DEVICE
        then if device_mode us then handle_device_requests dev req else Inr (FBD_STS_INVALID_MODE, dev)
      else if rq_mode req = FBD_MODE_RESET_ALL then Inr (fbd_remove_all_faults dev)
      else Inr (FBD_STS_INVALID_MODE, dev))"

text \<open>
  The inner loop of \<^verbatim>\<open>fsp_startServer\<close>: every \<^verbatim>\<open>recv\<close> that returns something overwrites the
  beginning of the variable \<^verbatim>\<open>request\<close>, which is then handled and answered. The list holds
  what successive calls return; the loop ends at the first that returns nothing.
\<close>

fun fsp_serve :: "fbd_hash \<Rightarrow> fbd_device \<Rightarrow> bytes \<Rightarrow> bytes list \<Rightarrow> (int list \<times> fbd_device \<times> bytes) res" where
  "fsp_serve junk dev request [] = Inr ([], dev, request)"
| "fsp_serve junk dev request (chunk # chunks) =
     (let n = length chunk in
      if 0 < n
      then let request' = blit 0 chunk request in
        rbind (handle_request junk dev (of_image request')) (\<lambda>(response, dev').
        rbind (fsp_serve junk dev' request' chunks) (\<lambda>(responses, dev'', request'').
          Inr (response # responses, dev'', request'')))
      else Inr ([], dev, request))"

section \<open>\<^verbatim>\<open>fsp_client.c\<close>\<close>

text \<open>
  A connected socket as the client sees it: sending returns the value of \<^verbatim>\<open>send\<close>, receiving
  returns a response or, when \<^verbatim>\<open>recv\<close> stores nothing, None.
\<close>

record 's fsp_sock =
  sock_send :: "'s \<Rightarrow> bytes \<Rightarrow> int \<times> 's"
  sock_recv :: "'s \<Rightarrow> int option \<times> 's"

definition fsp_send_request :: "'s fsp_sock \<Rightarrow> 's \<Rightarrow> fsp_request \<Rightarrow> int \<times> 's" where
  "fsp_send_request socket s request = sock_send socket s (to_image request)"

definition fsp_recv_response :: "'s fsp_sock \<Rightarrow> 's \<Rightarrow> (int \<times> 's) res" where
  \<comment> \<open>the return value of \<^verbatim>\<open>recv\<close> is not looked at\<close>
  "fsp_recv_response socket s =
     (case sock_recv socket s of
        (Some response, s') \<Rightarrow> Inr (response, s')
      | (None, s') \<Rightarrow> Inl Uninitialised)"

definition fsp_handle_send_request :: "'s fsp_sock \<Rightarrow> 's \<Rightarrow> fsp_request \<Rightarrow> (int \<times> 's) res" where
  "fsp_handle_send_request socket s request =
     (case fsp_send_request socket s request of (n, s') \<Rightarrow>
        if n = -1 then Inr (FBD_STS_SEND_FAILED, s')
        else fsp_recv_response socket s')"

definition fsp_add_generic_block ::
    "fsp_request \<Rightarrow> 's fsp_sock \<Rightarrow> 's \<Rightarrow> u32 \<Rightarrow> u64 \<Rightarrow> u8 \<Rightarrow> u8 \<Rightarrow> bool \<Rightarrow> bytes \<Rightarrow> (int \<times> 's) res" where
  "fsp_add_generic_block fresh socket s sz offSet operation fault persistent extra =
     rbind (fsp_new_request_block fresh operation fault sz offSet persistent extra) (\<lambda>r.
       fsp_handle_send_request socket s r)"

definition fsp_add_generic_hash ::
    "hash_lib \<Rightarrow> bytes \<Rightarrow> fsp_request \<Rightarrow> 's fsp_sock \<Rightarrow> 's \<Rightarrow> u32 \<Rightarrow> bytes \<Rightarrow> u8 \<Rightarrow> u8 \<Rightarrow> bool \<Rightarrow> u8 \<Rightarrow> bytes
      \<Rightarrow> (int \<times> 's) res" where
  "fsp_add_generic_hash lib stack fresh socket s sz content operation fault persistent hash_type extra =
     rbind (fsp_new_request_hash lib stack fresh operation fault sz content persistent hash_type extra) (\<lambda>r.
       fsp_handle_send_request socket s r)"

definition fsp_add_generic_dedup ::
    "hash_lib \<Rightarrow> bytes \<Rightarrow> fsp_request \<Rightarrow> 's fsp_sock \<Rightarrow> 's \<Rightarrow> u32 \<Rightarrow> bytes \<Rightarrow> u8 \<Rightarrow> u8 \<Rightarrow> bool \<Rightarrow> u8 \<Rightarrow> bytes
      \<Rightarrow> (int \<times> 's) res" where
  "fsp_add_generic_dedup lib stack fresh socket s sz content operation fault persistent hash_type extra =
     rbind (fsp_new_request_dedup lib stack fresh operation fault sz content persistent hash_type extra) (\<lambda>r.
       fsp_handle_send_request socket s r)"

subsection \<open>Bit flip\<close>

definition fsp_add_bit_flip_block ::
    "fsp_request \<Rightarrow> 's fsp_sock \<Rightarrow> 's \<Rightarrow> u32 \<Rightarrow> u64 \<Rightarrow> u8 \<Rightarrow> bool \<Rightarrow> (int \<times> 's) res" where
  "fsp_add_bit_flip_block fresh socket s sz offSet operation persistent =
     rbind (fsp_new_request_block fresh operation FBD_FAULT_BIT_FLIP sz offSet persistent []) (\<lambda>r.
       fsp_handle_send_request socket s r)"

definition fsp_add_bit_flip_hash ::
    "hash_lib \<Rightarrow> bytes \<Rightarrow> fsp_request \<Rightarrow> 's fsp_sock \<Rightarrow> 's \<Rightarrow> u32 \<Rightarrow> bytes \<Rightarrow> u8 \<Rightarrow> bool \<Rightarrow> (int \<times> 's) res" where
  "fsp_add_bit_flip_hash lib stack fresh socket s content_size content operation persistent =
     rbind (fsp_new_request_hash lib stack fresh operation FBD_FAULT_BIT_FLIP content_size content persistent
              FBD_HASH_XXH3_128 []) (\<lambda>r.
       fsp_handle_send_request socket s r)"

definition fsp_add_bit_flip_dedup ::
    "hash_lib \<Rightarrow> bytes \<Rightarrow> fsp_request \<Rightarrow> 's fsp_sock \<Rightarrow> 's \<Rightarrow> u32 \<Rightarrow> bytes \<Rightarrow> u8 \<Rightarrow> bool \<Rightarrow> (int \<times> 's) res" where
  "fsp_add_bit_flip_dedup lib stack fresh socket s content_size content operation persistent =
     rbind (fsp_new_request_dedup lib stack fresh operation FBD_FAULT_BIT_FLIP content_size content persistent
              FBD_HASH_XXH3_128 []) (\<lambda>r.
       fsp_handle_send_request socket s r)"

definition fsp_add_bit_flip_device ::
    "fsp_request \<Rightarrow> 's fsp_sock \<Rightarrow> 's \<Rightarrow> u8 \<Rightarrow> bool \<Rightarrow> (int \<times> 's) res" where
  "fsp_add_bit_flip_device fresh socket s operation persistent =
     rbind (fsp_new_request_device fresh operation FBD_FAULT_BIT_FLIP persistent []) (\<lambda>r.
       fsp_handle_send_request socket s r)"

definition fsp_add_bit_flip_block_write ::
    "fsp_request \<Rightarrow> 's fsp_sock \<Rightarrow> 's \<Rightarrow> u32 \<Rightarrow> u64 \<Rightarrow> bool \<Rightarrow> (int \<times> 's) res" where
  "fsp_add_bit_flip_block_write fresh socket s sz offSet persistent =
     fsp_add_bit_flip_block fresh socket s sz offSet FBD_OP_WRITE persistent"

definition fsp_add_bit_flip_block_read ::
    "fsp_request \<Rightarrow> 's fsp_sock \<Rightarrow> 's \<Rightarrow> u32 \<Rightarrow> u64 \<Rightarrow> bool \<Rightarrow> (int \<times> 's) res" where
  "fsp_add_bit_flip_block_read fresh socket s sz offSet persistent =
     fsp_add_bit_flip_block fresh socket s sz offSet FBD_OP_READ persistent"

definition fsp_add_bit_flip_block_WR ::
    "fsp_request \<Rightarrow> 's fsp_sock \<Rightarrow> 's \<Rightarrow> u32 \<Rightarrow> u64 \<Rightarrow> bool \<Rightarrow> (int \<times> 's) res" where
  "fsp_add_bit_flip_block_WR fresh socket s sz offSet persistent =
     fsp_add_bit_flip_block fresh socket s sz offSet FBD_OP_WRITE_READ persistent"

definition fsp_add_bit_flip_hash_write ::
    "hash_lib \<Rightarrow> bytes \<Rightarrow> fsp_request \<Rightarrow> 's fsp_sock \<Rightarrow> 's \<Rightarrow> u32 \<Rightarrow> bytes \<Rightarrow> bool \<Rightarrow> (int \<times> 's) res" where
  "fsp_add_bit_flip_hash_write lib stack fresh socket s content_size content persistent =
     fsp_add_bit_flip_hash lib stack fresh socket s content_size content FBD_OP_WRITE persistent"

definition fsp_add_bit_flip_hash_read ::
    "hash_lib \<Rightarrow> bytes \<Rightarrow> fsp_request \<Rightarrow> 's fsp_sock \<Rightarrow> 's \<Rightarrow> u32 \<Rightarrow> bytes \<Rightarrow> bool \<Rightarrow> (int \<times> 's) res" where
  "fsp_add_bit_flip_hash_read lib stack fresh socket s content_size content persistent =
     fsp_add_bit_flip_hash lib stack fresh socket s content_size content FBD_OP_READ persistent"

definition fsp_add_bit_flip_hash_WR ::
    "hash_lib \<Rightarrow> bytes \<Rightarrow> fsp_request \<Rightarrow> 's fsp_sock \<Rightarrow> 's \<Rightarrow> u32 \<Rightarrow> bytes \<Rightarrow> bool \<Rightarrow> (int \<times> 's) res" where
  "fsp_add_bit_flip_hash_WR lib stack fresh socket s content_size content persistent =
     fsp_add_bit_flip_hash lib stack fresh socket s content_size content FBD_OP_WRITE_READ persistent"

definition fsp_add_bit_flip_dedup_write ::
    "hash_lib \<Rightarrow> bytes \<Rightarrow> fsp_request \<Rightarrow> 's fsp_sock \<Rightarrow> 's \<Rightarrow> u32 \<Rightarrow> bytes \<Rightarrow> bool \<Rightarrow> (int \<times> 's) res" where
  "fsp_add_bit_flip_dedup_write lib stack fresh socket s content_size content persistent =
     fsp_add_bit_flip_dedup lib stack fresh socket s content_size content FBD_OP_WRITE persistent"

definition fsp_add_bit_flip_dedup_read ::
    "hash_lib \<Rightarrow> bytes \<Rightarrow> fsp_request \<Rightarrow> 's fsp_sock \<Rightarrow> 's \<Rightarrow> u32 \<Rightarrow> bytes \<Rightarrow> bool \<Rightarrow> (int \<times> 's) res" where
  "fsp_add_bit_flip_dedup_read lib stack fresh socket s content_size content persistent =
     fsp_add_bit_flip_dedup lib stack fresh socket s content_size content FBD_OP_READ persistent"

definition fsp_add_bit_flip_dedup_WR ::
    "hash_lib \<Rightarrow> bytes \<Rightarrow> fsp_request \<Rightarrow> 's fsp_sock \<Rightarrow> 's \<Rightarrow> u32 \<Rightarrow> bytes \<Rightarrow> bool \<Rightarrow> (int \<times> 's) res" where
  \<comment> \<open>the arguments \<^verbatim>\<open>operation\<close> and \<^verbatim>\<open>persistent\<close> are exchanged\<close>
  "fsp_add_bit_flip_dedup_WR lib stack fresh socket s content_size content persistent =
     fsp_add_bit_flip_dedup lib stack fresh socket s content_size content (if persistent then 1 else 0) (FBD_OP_WRITE_READ \<noteq> 0)"

definition fsp_add_bit_flip_device_write ::
    "fsp_request \<Rightarrow> 's fsp_sock \<Rightarrow> 's \<Rightarrow> bool \<Rightarrow> (int \<times> 's) res" where
  "fsp_add_bit_flip_device_write fresh socket s persistent =
     fsp_add_bit_flip_device fresh socket s FBD_OP_WRITE persistent"

definition fsp_add_bit_flip_device_read ::
    "fsp_request \<Rightarrow> 's fsp_sock \<Rightarrow> 's \<Rightarrow> bool \<Rightarrow> (int \<times> 's) res" where
  "fsp_add_bit_flip_device_read fresh socket s persistent =
     fsp_add_bit_flip_device fresh socket s FBD_OP_READ persistent"

definition fsp_add_bit_flip_device_WR ::
    "fsp_request \<Rightarrow> 's fsp_sock \<Rightarrow> 's \<Rightarrow> bool \<Rightarrow> (int \<times> 's) res" where
  "fsp_add_bit_flip_device_WR fresh socket s persistent =
     fsp_add_bit_flip_device fresh socket s FBD_OP_WRITE_READ persistent"

subsection \<open>Slow disk\<close>

definition fsp_add_slow_disk_block ::
    "fsp_request \<Rightarrow> 's fsp_sock \<Rightarrow> 's \<Rightarrow> u32 \<Rightarrow> u64 \<Rightarrow> u8 \<Rightarrow> bool \<Rightarrow> u64 \<Rightarrow> (int \<times> 's) res" where
  "fsp_add_slow_disk_block fresh socket s sz offSet operation persistent time_ms =
     rbind (fsp_new_request_block fresh operation FBD_FAULT_SLOW_DISK sz offSet persistent (to_le 8 time_ms)) (\<lambda>r.
       fsp_handle_send_request socket s r)"

definition fsp_add_slow_disk_hash ::
    "hash_lib \<Rightarrow> bytes \<Rightarrow> fsp_request \<Rightarrow> 's fsp_sock \<Rightarrow> 's \<Rightarrow> u32 \<Rightarrow> bytes \<Rightarrow> u8 \<Rightarrow> bool \<Rightarrow> u64 \<Rightarrow> (int \<times> 's) res" where
  "fsp_add_slow_disk_hash lib stack fresh socket s content_size content operation persistent time_ms =
     rbind (fsp_new_request_hash lib stack fresh operation FBD_FAULT_SLOW_DISK content_size content persistent
              FBD_HASH_XXH3_128 (to_le 8 time_ms)) (\<lambda>r.
       fsp_handle_send_request socket s r)"

definition fsp_add_slow_disk_dedup ::
    "hash_lib \<Rightarrow> bytes \<Rightarrow> fsp_request \<Rightarrow> 's fsp_sock \<Rightarrow> 's \<Rightarrow> u32 \<Rightarrow> bytes \<Rightarrow> u8 \<Rightarrow> bool \<Rightarrow> u64 \<Rightarrow> (int \<times> 's) res" where
  "fsp_add_slow_disk_dedup lib stack fresh socket s content_size content operation persistent time_ms =
     rbind (fsp_new_request_dedup lib stack fresh operation FBD_FAULT_SLOW_DISK content_size content persistent
              FBD_HASH_XXH3_128 (to_le 8 time_ms)) (\<lambda>r.
       fsp_handle_send_request socket s r)"

definition fsp_add_slow_disk_device ::
    "fsp_request \<Rightarrow> 's fsp_sock \<Rightarrow> 's \<Rightarrow> u8 \<Rightarrow> bool \<Rightarrow> u64 \<Rightarrow> (int \<times> 's) res" where
  "fsp_add_slow_disk_device fresh socket s operation persistent time_ms =
     rbind (fsp_new_request_device fresh operation FBD_FAULT_SLOW_DISK persistent (to_le 8 time_ms)) (\<lambda>r.
       fsp_handle_send_request socket s r)"

definition fsp_add_slow_disk_block_write ::
    "fsp_request \<Rightarrow> 's fsp_sock \<Rightarrow> 's \<Rightarrow> u32 \<Rightarrow> u64 \<Rightarrow> bool \<Rightarrow> u64 \<Rightarrow> (int \<times> 's) res" where
  "fsp_add_slow_disk_block_write fresh socket s sz offSet persistent time_ms =
     fsp_add_slow_disk_block fresh socket s sz offSet FBD_OP_WRITE persistent time_ms"

definition fsp_add_slow_disk_block_read ::
    "fsp_request \<Rightarrow> 's fsp_sock \<Rightarrow> 's \<Rightarrow> u32 \<Rightarrow> u64 \<Rightarrow> bool \<Rightarrow> u64 \<Rightarrow> (int \<times> 's) res" where
  "fsp_add_slow_disk_block_read fresh socket s sz offSet persistent time_ms =
     fsp_add_slow_disk_block fresh socket s sz offSet FBD_OP_READ persistent time_ms"

definition fsp_add_slow_disk_block_WR ::
    "fsp_request \<Rightarrow> 's fsp_sock \<Rightarrow> 's \<Rightarrow> u32 \<Rightarrow> u64 \<Rightarrow> bool \<Rightarrow> u64 \<Rightarrow> (int \<times> 's) res" where
  "fsp_add_slow_disk_block_WR fresh socket s sz offSet persistent time_ms =
     fsp_add_slow_disk_block fresh socket s sz offSet FBD_OP_WRITE_READ persistent time_ms"

definition fsp_add_slow_disk_hash_write ::
    "hash_lib \<Rightarrow> bytes \<Rightarrow> fsp_request \<Rightarrow> 's fsp_sock \<Rightarrow> 's \<Rightarrow> u32 \<Rightarrow> bytes \<Rightarrow> bool \<Rightarrow> u64 \<Rightarrow> (int \<times> 's) res" where
  "fsp_add_slow_disk_hash_write lib stack fresh socket s content_size content persistent time_ms =
     fsp_add_slow_disk_hash lib stack fresh socket s content_size content FBD_OP_WRITE persistent time_ms"

definition fsp_add_slow_disk_hash_read ::
    "hash_lib \<Rightarrow> bytes \<Rightarrow> fsp_request \<Rightarrow> 's fsp_sock \<Rightarrow> 's \<Rightarrow> u32 \<Rightarrow> bytes \<Rightarrow> bool \<Rightarrow> u64 \<Rightarrow> (int \<times> 's) res" where
  "fsp_add_slow_disk_hash_read lib stack fresh socket s content_size content persistent time_ms =
     fsp_add_slow_disk_hash lib stack fresh socket s content_size content FBD_OP_READ persistent time_ms"

definition fsp_add_slow_disk_hash_WR ::
    "hash_lib \<Rightarrow> bytes \<Rightarrow> fsp_request \<Rightarrow> 's fsp_sock \<Rightarrow> 's \<Rightarrow> u32 \<Rightarrow> bytes \<Rightarrow> bool \<Rightarrow> u64 \<Rightarrow> (int \<times> 's) res" where
  "fsp_add_slow_disk_hash_WR lib stack fresh socket s content_size content persistent time_ms =
     fsp_add_slow_disk_hash lib stack fresh socket s content_size content FBD_OP_WRITE_READ persistent time_ms"

definition fsp_add_slow_disk_dedup_write ::
    "hash_lib \<Rightarrow> bytes \<Rightarrow> fsp_request \<Rightarrow> 's fsp_sock \<Rightarrow> 's \<Rightarrow> u32 \<Rightarrow> bytes \<Rightarrow> bool \<Rightarrow> u64 \<Rightarrow> (int \<times> 's) res" where
  "fsp_add_slow_disk_dedup_write lib stack fresh socket s content_size content persistent time_ms =
     fsp_add_slow_disk_dedup lib stack fresh socket s content_size content FBD_OP_WRITE persistent time_ms"

definition fsp_add_slow_disk_dedup_read ::
    "hash_lib \<Rightarrow> bytes \<Rightarrow> fsp_request \<Rightarrow> 's fsp_sock \<Rightarrow> 's \<Rightarrow> u32 \<Rightarrow> bytes \<Rightarrow> bool \<Rightarrow> u64 \<Rightarrow> (int \<times> 's) res" where
  "fsp_add_slow_disk_dedup_read lib stack fresh socket s content_size content persistent time_ms =
     fsp_add_slow_disk_dedup lib stack fresh socket s content_size content FBD_OP_READ persistent time_ms"

definition fsp_add_slow_disk_dedup_WR ::
    "hash_lib \<Rightarrow> bytes \<Rightarrow> fsp_request \<Rightarrow> 's fsp_sock \<Rightarrow> 's \<Rightarrow> u32 \<Rightarrow> bytes \<Rightarrow> bool \<Rightarrow> u64 \<Rightarrow> (int \<times> 's) res" where
  "fsp_add_slow_disk_dedup_WR lib stack fresh socket s content_size content persistent time_ms =
     fsp_add_slow_disk_dedup lib stack fresh socket s content_size content FBD_OP_WRITE_READ persistent time_ms"

definition fsp_add_slow_disk_device_write ::
    "fsp_request \<Rightarrow> 's fsp_sock \<Rightarrow> 's \<Rightarrow> bool \<Rightarrow> u32 \<Rightarrow> (int \<times> 's) res" where
  "fsp_add_slow_disk_device_write fresh socket s persistent time_ms =
     fsp_add_slow_disk_device fresh socket s FBD_OP_WRITE persistent (ucast time_ms)"

definition fsp_add_slow_disk_device_read ::
    "fsp_request \<Rightarrow> 's fsp_sock \<Rightarrow> 's \<Rightarrow> bool \<Rightarrow> u32 \<Rightarrow> (int \<times> 's) res" where
  "fsp_add_slow_disk_device_read fresh socket s persistent time_ms =
     fsp_add_slow_disk_device fresh socket s FBD_OP_READ persistent (ucast time_ms)"

definition fsp_add_slow_disk_device_WR ::
    "fsp_request \<Rightarrow> 's fsp_sock \<Rightarrow> 's \<Rightarrow> bool \<Rightarrow> u32 \<Rightarrow> (int \<times> 's) res" where
  "fsp_add_slow_disk_device_WR fresh socket s persistent time_ms =
     fsp_add_slow_disk_device fresh socket s FBD_OP_WRITE_READ persistent (ucast time_ms)"

subsection \<open>Medium error\<close>

definition fsp_add_medium_error_block ::
    "fsp_request \<Rightarrow> 's fsp_sock \<Rightarrow> 's \<Rightarrow> u32 \<Rightarrow> u64 \<Rightarrow> u8 \<Rightarrow> bool \<Rightarrow> (int \<times> 's) res" where
  "fsp_add_medium_error_block fresh socket s sz offSet operation persistent =
     rbind (fsp_new_request_block fresh operation FBD_FAULT_MEDIUM sz offSet persistent []) (\<lambda>r.
       fsp_handle_send_request socket s r)"

definition fsp_add_medium_error_hash ::
    "hash_lib \<Rightarrow> bytes \<Rightarrow> fsp_request \<Rightarrow> 's fsp_sock \<Rightarrow> 's \<Rightarrow> u32 \<Rightarrow> bytes \<Rightarrow> u8 \<Rightarrow> bool \<Rightarrow> (int \<times> 's) res" where
  "fsp_add_medium_error_hash lib stack fresh socket s content_size content operation persistent =
     rbind (fsp_new_request_hash lib stack fresh operation FBD_FAULT_MEDIUM content_size content persistent
              FBD_HASH_XXH3_128 []) (\<lambda>r.
       fsp_handle_send_request socket s r)"

definition fsp_add_medium_error_dedup ::
    "hash_lib \<Rightarrow> bytes \<Rightarrow> fsp_request \<Rightarrow> 's fsp_sock \<Rightarrow> 's \<Rightarrow> u32 \<Rightarrow> bytes \<Rightarrow> u8 \<Rightarrow> bool \<Rightarrow> (int \<times> 's) res" where
  "fsp_add_medium_error_dedup lib stack fresh socket s content_size content operation persistent =
     rbind (fsp_new_request_dedup lib stack fresh operation FBD_FAULT_MEDIUM content_size content persistent
              FBD_HASH_XXH3_128 []) (\<lambda>r.
       fsp_handle_send_request socket s r)"

definition fsp_add_medium_error_device ::
    "fsp_request \<Rightarrow> 's fsp_sock \<Rightarrow> 's \<Rightarrow> u8 \<Rightarrow> bool \<Rightarrow> (int \<times> 's) res" where
  "fsp_add_medium_error_device fresh socket s operation persistent =
     rbind (fsp_new_request_device fresh operation FBD_FAULT_MEDIUM persistent []) (\<lambda>r.
       fsp_handle_send_request socket s r)"

definition fsp_add_medium_error_block_write ::
    "fsp_request \<Rightarrow> 's fsp_sock \<Rightarrow> 's \<Rightarrow> u32 \<Rightarrow> u64 \<Rightarrow> bool \<Rightarrow> (int \<times> 's) res" where
  "fsp_add_medium_error_block_write fresh socket s sz offSet persistent =
     fsp_add_medium_error_block fresh socket s sz offSet FBD_OP_WRITE persistent"

definition fsp_add_medium_error_block_read ::
    "fsp_request \<Rightarrow> 's fsp_sock \<Rightarrow> 's \<Rightarrow> u32 \<Rightarrow> u64 \<Rightarrow> bool \<Rightarrow> (int \<times> 's) res" where
  "fsp_add_medium_error_block_read fresh socket s sz offSet persistent =
     fsp_add_medium_error_block fresh socket s sz offSet FBD_OP_READ persistent"

definition fsp_add_medium_error_block_WR ::
    "fsp_request \<Rightarrow> 's fsp_sock \<Rightarrow> 's \<Rightarrow> u32 \<Rightarrow> u64 \<Rightarrow> bool \<Rightarrow> (int \<times> 's) res" where
  "fsp_add_medium_error_block_WR fresh socket s sz offSet persistent =
     fsp_add_medium_error_block fresh socket s sz offSet FBD_OP_WRITE_READ persistent"

definition fsp_add_medium_error_hash_write ::
    "hash_lib \<Rightarrow> bytes \<Rightarrow> fsp_request \<Rightarrow> 's fsp_sock \<Rightarrow> 's \<Rightarrow> u32 \<Rightarrow> bytes \<Rightarrow> bool \<Rightarrow> (int \<times> 's) res" where
  "fsp_add_medium_error_hash_write lib stack fresh socket s content_size content persistent =
     fsp_add_medium_error_hash lib stack fresh socket s content_size content FBD_OP_WRITE persistent"

definition fsp_add_medium_error_hash_read ::
    "hash_lib \<Rightarrow> bytes \<Rightarrow> fsp_request \<Rightarrow> 's fsp_sock \<Rightarrow> 's \<Rightarrow> u32 \<Rightarrow> bytes \<Rightarrow> bool \<Rightarrow> (int \<times> 's) res" where
  "fsp_add_medium_error_hash_read lib stack fresh socket s content_size content persistent =
     fsp_add_medium_error_hash lib stack fresh socket s content_size content FBD_OP_READ persistent"

definition fsp_add_medium_error_hash_WR ::
    "hash_lib \<Rightarrow> bytes \<Rightarrow> fsp_request \<Rightarrow> 's fsp_sock \<Rightarrow> 's \<Rightarrow> u32 \<Rightarrow> bytes \<Rightarrow> bool \<Rightarrow> (int \<times> 's) res" where
  "fsp_add_medium_error_hash_WR lib stack fresh socket s content_size content persistent =
     fsp_add_medium_error_hash lib stack fresh socket s content_size content FBD_OP_WRITE_READ persistent"

definition fsp_add_medium_error_dedup_write ::
    "hash_lib \<Rightarrow> bytes \<Rightarrow> fsp_request \<Rightarrow> 's fsp_sock \<Rightarrow> 's \<Rightarrow> u32 \<Rightarrow> bytes \<Rightarrow> bool \<Rightarrow> (int \<times> 's) res" where
  "fsp_add_medium_error_dedup_write lib stack fresh socket s content_size content persistent =
     fsp_add_medium_error_dedup lib stack fresh socket s content_size content FBD_OP_WRITE persistent"

definition fsp_add_medium_error_dedup_read ::
    "hash_lib \<Rightarrow> bytes \<Rightarrow> fsp_request \<Rightarrow> 's fsp_sock \<Rightarrow> 's \<Rightarrow> u32 \<Rightarrow> bytes \<Rightarrow> bool \<Rightarrow> (int \<times> 's) res" where
  "fsp_add_medium_error_dedup_read lib stack fresh socket s content_size content persistent =
     fsp_add_medium_error_dedup lib stack fresh socket s content_size content FBD_OP_READ persistent"

definition fsp_add_medium_error_dedup_WR ::
    "hash_lib \<Rightarrow> bytes \<Rightarrow> fsp_request \<Rightarrow> 's fsp_sock \<Rightarrow> 's \<Rightarrow> u32 \<Rightarrow> bytes \<Rightarrow> bool \<Rightarrow> (int \<times> 's) res" where
  "fsp_add_medium_error_dedup_WR lib stack fresh socket s content_size content persistent =
     fsp_add_medium_error_dedup lib stack fresh socket s content_size content FBD_OP_WRITE_READ persistent"

definition fsp_add_medium_error_device_write ::
    "fsp_request \<Rightarrow> 's fsp_sock \<Rightarrow> 's \<Rightarrow> bool \<Rightarrow> (int \<times> 's) res" where
  "fsp_add_medium_error_device_write fresh socket s persistent =
     fsp_add_medium_error_device fresh socket s FBD_OP_WRITE persistent"

definition fsp_add_medium_error_device_read ::
    "fsp_request \<Rightarrow> 's fsp_sock \<Rightarrow> 's \<Rightarrow> bool \<Rightarrow> (int \<times> 's) res" where
  "fsp_add_medium_error_device_read fresh socket s persistent =
     fsp_add_medium_error_device fresh socket s FBD_OP_READ persistent"

definition fsp_add_medium_error_device_WR ::
    "fsp_request \<Rightarrow> 's fsp_sock \<Rightarrow> 's \<Rightarrow> bool \<Rightarrow> (int \<times> 's) res" where
  "fsp_add_medium_error_device_WR fresh socket s persistent =
     fsp_add_medium_error_device fresh socket s FBD_OP_WRITE_READ persistent"

definition fsp_remove_all_faults :: "fsp_request \<Rightarrow> 's fsp_sock \<Rightarrow> 's \<Rightarrow> (int \<times> 's) res" where
  "fsp_remove_all_faults fresh socket s =
     fsp_handle_send_request socket s
       (fresh\<lparr>rq_mode := FBD_MODE_RESET_ALL, rq_operation := 0, rq_fault := 0, rq_args_size := 0\<rparr>)"

end
