(* ===== verification/Dedis_Faults.thy ===== *)
theory Dedis_Faults
  imports Dedis_Faultconf Dedis_Degree Fsp_Protocol
begin

text \<open>
  \<^verbatim>\<open>dedisbench/benchcore/faults/fault.c\<close>: choosing the block that a fault hits and asking the driver for
  the fault. Blocks are identified by pointers, into the content tracker or into the two blocks
  that are kept for every process; \<open>fault_mem\<close> reads through them.
\<close>

section \<open>Pointers to blocks\<close>

datatype block_ptr = Tracker nat nat | Last_Block nat | Next_Block nat

definition fault_mem :: "duplicates_info \<Rightarrow> fault_runtime \<Rightarrow> block_ptr \<Rightarrow> block_info" where
  "fault_mem info fr p =
     (case p of
        Tracker pos i \<Rightarrow> content_tracker info ! pos ! i
      | Last_Block q \<Rightarrow> last_block fr ! q
      | Next_Block q \<Rightarrow> next_block fr ! q)"

definition finfo_set_block_info :: "fault_runtime option \<Rightarrow> block_info \<Rightarrow> nat \<Rightarrow> fault_runtime option res" where
  "finfo_set_block_info fi bi p =
     (case fi of
        None \<Rightarrow> Inr None
      | Some fr \<Rightarrow>
          if p < length (last_block fr) \<and> p < length (next_block fr)
          then Inr (Some (fr\<lparr>last_block := (last_block fr)[p := next_block fr ! p], next_block := (next_block fr)[p := bi]\<rparr>))
          else Inl Out_Of_Bounds)"

definition finfo_get_next_block :: "fault_runtime option \<Rightarrow> nat \<Rightarrow> block_ptr option" where
  "finfo_get_next_block fi p = (case fi of None \<Rightarrow> None | Some fr \<Rightarrow> Some (Next_Block p))"

definition finfo_get_last_block :: "fault_runtime option \<Rightarrow> nat \<Rightarrow> block_ptr option" where
  "finfo_get_last_block fi p = (case fi of None \<Rightarrow> None | Some fr \<Rightarrow> Some (Last_Block p))"

section \<open>Statistics of faults\<close>

text \<open>
  The table of injected faults is a GLib hash table whose keys are pointers to content
  identifiers. An entry remembers the hash of the identifier at the time it was added; a lookup
  compares hashes first and then the identifier the pointer points to now. \<open>ghash\<close> is GLib's
  hash function.
\<close>

record faults_statistics =
  tot_faults_injected :: u32
  tot_faults_dup :: u32
  tot_failures :: u32
  injected_faults :: "(u32 \<times> block_ptr) list"

definition init_fault_statistics :: "faults_statistics \<Rightarrow> faults_statistics" where
  "init_fault_statistics fs = fs\<lparr>injected_faults := []\<rparr>"

definition same_entry :: "(u64 \<Rightarrow> u32) \<Rightarrow> (block_ptr \<Rightarrow> block_info) \<Rightarrow> u64 \<Rightarrow> u32 \<times> block_ptr \<Rightarrow> bool" where
  "same_entry ghash mem c e \<longleftrightarrow> fst e = ghash c \<and> cont_id (mem (snd e)) = c"

definition injected_contains :: "(u64 \<Rightarrow> u32) \<Rightarrow> (block_ptr \<Rightarrow> block_info) \<Rightarrow> faults_statistics \<Rightarrow> u64 \<Rightarrow> bool" where
  "injected_contains ghash mem fs c \<longleftrightarrow> (\<exists>e \<in> set (injected_faults fs). same_entry ghash mem c e)"

definition injected_add :: "(u64 \<Rightarrow> u32) \<Rightarrow> (block_ptr \<Rightarrow> block_info) \<Rightarrow> faults_statistics \<Rightarrow> block_ptr \<Rightarrow> faults_statistics" where
  \<comment> \<open>\<^verbatim>\<open>g_hash_table_add\<close>: an entry with an equal key gets the new pointer\<close>
  "injected_add ghash mem fs p =
     (let c = cont_id (mem p) in
      fs\<lparr>injected_faults :=
        (case find_pos (same_entry ghash mem c) (injected_faults fs) of
           Some i \<Rightarrow> (injected_faults fs)[i := (fst (injected_faults fs ! i), p)]
         | None \<Rightarrow> injected_faults fs @ [(ghash c, p)])\<rparr>)"

section \<open>The block to hit\<close>

definition fault_block :: "block_info \<Rightarrow> u32 \<Rightarrow> string res" where
  \<comment> \<open>the contents of a block, generated into the array \<^verbatim>\<open>char block[4096]\<close>\<close>
  "fault_block b bsize =
     (if 4096 < unat bsize then Inl Out_Of_Bounds
      else map_sum id (take (unat bsize))
             (sprintf_at (blit 0 (replicate (unat bsize) (CHR ''a'')) (CHR ''a'' # replicate 4095 NUL)) (block_header b)))"

function skip_injected ::
    "(u64 \<Rightarrow> bool) \<Rightarrow> (block_ptr \<Rightarrow> block_info) \<Rightarrow> block_ptr dedup_degree \<Rightarrow> nat \<Rightarrow> block_ptr \<Rightarrow> block_ptr res" where
  \<comment> \<open>the loop that looks for a duplicated block without a fault; \<open>found\<close> tells whether a content has one\<close>
  "skip_injected found mem dd ix bl =
     (if found (cont_id (mem bl)) \<and> ix < length (sorted_array (dedup_writes dd))
      then rbind (get_nth_more_duplicate (Some dd) (word_of_nat (Suc ix))) (\<lambda>p.
           case p of None \<Rightarrow> Inl Wild_Pointer | Some bl' \<Rightarrow> skip_injected found mem dd (Suc ix) bl')
      else Inr bl)"
  by pat_completeness auto
termination
  by (relation "measure (\<lambda>(found, mem, dd, ix, bl). length (sorted_array (dedup_writes dd)) - ix)") auto

declare skip_injected.simps [simp del]

definition select_block ::
    "(u64 \<Rightarrow> u32) \<Rightarrow> (block_ptr \<Rightarrow> block_info) \<Rightarrow> int \<Rightarrow> block_ptr dedup_degree option \<Rightarrow> fault_runtime option
      \<Rightarrow> faults_statistics \<Rightarrow> nat \<Rightarrow> (block_ptr \<times> fault_runtime option) res" where
  \<comment> \<open>the pointer that \<^verbatim>\<open>next_failure\<close> stores in \<^verbatim>\<open>*bl\<close>; it is dereferenced afterwards\<close>
  "select_block ghash mem dist dd fi fs p =
     (let use = (\<lambda>r. rbind r (\<lambda>b. case b of None \<Rightarrow> Inl Wild_Pointer | Some bl \<Rightarrow> Inr (bl, fi))) in
      if dist = DIST_GEN then use (Inr (finfo_get_last_block fi p))
      else if dist = NEXT_GEN then use (Inr (finfo_get_next_block fi p))
      else if dist = TOP_DUP
      then (case fi of
              None \<Rightarrow> Inl Wild_Pointer
            | Some fr \<Rightarrow>
                if \<not> avoid_repeat_faults fr then use (get_nth_more_duplicate dd 0)
                else rbind (get_nth_more_duplicate dd 0) (\<lambda>b.
                  case (b, dd) of
                    (Some bl, Some d) \<Rightarrow> use (rbind (skip_injected (injected_contains ghash mem fs) mem d 0 bl) (\<lambda>bl'. Inr (Some bl')))
                  | _ \<Rightarrow> Inl Wild_Pointer))
      else if dist = BOT_DUP then use (get_nth_least_duplicate dd)
      else if dist = UNIQUE_DIST
      then (case (dd, fi) of
              (Some d, Some fr) \<Rightarrow>
                let len = word_of_nat (length (unique_blocks_writes d)) :: u32; n = word_of_int (nunique_injected fr);
                    ix = (if len \<ge> n then n else 0)
                in rbind (get_nth_unique dd ix) (\<lambda>bl. Inr (bl, Some (fr\<lparr>nunique_injected := nunique_injected fr + 1\<rparr>)))
            | _ \<Rightarrow> Inl Wild_Pointer)
      else Inl (Exit 0))"

definition next_failure ::
    "(u64 \<Rightarrow> u32) \<Rightarrow> (block_ptr \<Rightarrow> block_info) \<Rightarrow> int \<Rightarrow> block_ptr dedup_degree option \<Rightarrow> u32 \<Rightarrow> fault_runtime option
      \<Rightarrow> faults_statistics \<Rightarrow> nat \<Rightarrow> (string \<times> block_ptr \<times> fault_runtime option) res" where
  "next_failure ghash mem dist dd bsize fi fs p =
     rbind (select_block ghash mem dist dd fi fs p) (\<lambda>(bl, fi').
     rbind (fault_block (mem bl) bsize) (\<lambda>content. Inr (content, bl, fi')))"

section \<open>Injection\<close>

record 's fault_env =
  env_ghash :: "u64 \<Rightarrow> u32"
  env_lib :: hash_lib
  env_stack :: bytes
  env_fresh :: fsp_request
  env_sock :: "'s fsp_sock"

definition bytes_of :: "string \<Rightarrow> bytes" where
  "bytes_of s = map of_char s"

definition fault_extra :: "fault_conf \<Rightarrow> bytes res" where
  \<comment> \<open>the argument of the request: the 4 bytes of the delay\<close>
  "fault_extra fc =
     (if fc_type fc = 2
      then case fc_extra fc of None \<Rightarrow> Inl Wild_Pointer | Some ms \<Rightarrow> Inr (to_le 4 (ucast ms))
      else Inr [])"

definition inject_fault ::
    "'s fault_env \<Rightarrow> 's \<Rightarrow> (block_ptr \<Rightarrow> block_info) \<Rightarrow> fault_conf \<Rightarrow> block_ptr dedup_degree option \<Rightarrow> u32 \<Rightarrow> fault_runtime option
      \<Rightarrow> faults_statistics \<Rightarrow> nat \<Rightarrow> u64 \<Rightarrow> (faults_statistics \<times> fault_runtime option \<times> 's) res" where
  "inject_fault env s mem fc dd bsize fi fs p offset =
     rbind (next_failure (env_ghash env) mem (fc_dist fc) dd bsize fi fs p) (\<lambda>(content, bl, fi').
     rbind (fault_extra fc) (\<lambda>extra.
     let op = word_of_int (fc_operation fc); kind = word_of_int (fc_type fc) in
     rbind (if fc_mode fc = 1
            then fsp_add_generic_hash (env_lib env) (env_stack env) (env_fresh env) (env_sock env) s bsize (bytes_of content)
                   op kind (fc_persistent fc) FBD_HASH_XXH3_128 extra
            else if fc_mode fc = 0
            then fsp_add_generic_block (env_fresh env) (env_sock env) s bsize offset op kind (fc_persistent fc) extra
            else if fc_mode fc = 2
            then fsp_add_generic_dedup (env_lib env) (env_stack env) (env_fresh env) (env_sock env) s bsize (bytes_of content)
                   op kind (fc_persistent fc) FBD_HASH_XXH3_128 extra
            else Inr (FBD_STS_ERROR, s)) (\<lambda>(res, s').
       let fs1 = (if res > 0 \<and> res \<noteq> FBD_STS_DUP_FAULT
                  then (injected_add (env_ghash env) mem fs bl)\<lparr>tot_faults_injected := tot_faults_injected fs + 1\<rparr> else fs);
           fs2 = (if res > 0 \<and> res = FBD_STS_DUP_FAULT then fs1\<lparr>tot_faults_dup := tot_faults_dup fs1 + 1\<rparr> else fs1)
       in Inr (fs2, fi', s'))))"

section \<open>Faults of the configuration file\<close>

record split_state =
  sp_sep :: nat
  sp_iter :: nat
  sp_type :: string  \<comment> \<open>arrays of 20 characters that are not initialised\<close>
  sp_when :: string
  sp_dist :: string

definition put :: "nat \<Rightarrow> char \<Rightarrow> string \<Rightarrow> string res" where
  "put i c buf = (if i < length buf then Inr (buf[i := c]) else Inl Out_Of_Bounds)"

fun split_chars :: "string \<Rightarrow> split_state \<Rightarrow> split_state res" where
  \<comment> \<open>the loop \<^verbatim>\<open>while(*info)\<close>; the second field has no \<^verbatim>\<open>break\<close> and is stored in both arrays\<close>
  "split_chars [] st = Inr st"
| "split_chars (c # cs) st =
     (if c = CHR '':'' then split_chars cs (st\<lparr>sp_sep := sp_sep st + 1, sp_iter := 0\<rparr>)
      else rbind (if sp_sep st = 0 then rbind (put (sp_iter st) c (sp_type st)) (\<lambda>b. Inr (st\<lparr>sp_type := b\<rparr>))
                  else rbind (if sp_sep st = 1 then rbind (put (sp_iter st) c (sp_dist st)) (\<lambda>b. Inr (st\<lparr>sp_dist := b\<rparr>)) else Inr st) (\<lambda>st1.
                       rbind (put (sp_iter st1) c (sp_when st1)) (\<lambda>b. Inr (st1\<lparr>sp_when := b\<rparr>)))) (\<lambda>st2.
           split_chars cs (st2\<lparr>sp_iter := sp_iter st2 + 1\<rparr>)))"

definition atoi_buffer :: "string \<Rightarrow> int res" where
  \<comment> \<open>\<^verbatim>\<open>atoi\<close> on an array: some character that ends the number must be inside\<close>
  "atoi_buffer buf =
     (case dropWhile is_space buf of
        [] \<Rightarrow> Inl Out_Of_Bounds
      | c # cs \<Rightarrow> if (is_digit c \<or> c = CHR ''-'' \<or> c = CHR ''+'') \<and> (\<forall>d \<in> set cs. is_digit d) then Inl Out_Of_Bounds
                  else Inr (atoi buf))"

fun split_tokens ::
    "string \<times> string \<times> string \<Rightarrow> int \<Rightarrow> string list \<Rightarrow> nat \<Rightarrow> fault_conf list \<Rightarrow> (bool \<times> fault_conf list) res" where
  \<comment> \<open>the loop over the tokens; False: a token was refused\<close>
  "split_tokens junk io [] i confs = Inr (True, confs)"
| "split_tokens junk io (tok # toks) i confs =
     (case junk of (jt, jw, jd) \<Rightarrow>
      rbind (split_chars tok \<lparr>sp_sep = 0, sp_iter = 0, sp_type = jt, sp_when = jw, sp_dist = jd\<rparr>) (\<lambda>st.
      rbind (atoi_buffer (sp_when st)) (\<lambda>w.
        if w = 0 then Inr (False, confs)
        else rbind (atoi_buffer (sp_dist st)) (\<lambda>d.
          if d = DIST_GEN \<and> io = IO_READ then Inr (False, confs)
          else rbind (atoi_buffer (sp_type st)) (\<lambda>ty.
            if i < length confs
            then split_tokens junk io toks (Suc i)
                   (confs[i := (confs ! i)\<lparr>fc_type := ty, fc_dist := d, fc_when := word_of_int w\<rparr>])
            else Inl Out_Of_Bounds)))))"

definition fault_split ::
    "string \<times> string \<times> string \<Rightarrow> fault_conf \<Rightarrow> string \<Rightarrow> user_confs \<Rightarrow> (int \<times> user_confs) res" where
  \<comment> \<open>the return value and the configuration; \<open>junk\<close> and \<open>fresh\<close>: memory that is not initialised\<close>
  "fault_split junk fresh a_str conf =
     (let n = length (filter (\<lambda>c. c = CHR '','') a_str) + 1 in
      rbind (split_tokens junk (iotype conf) (strtok_on (CHR '','') a_str) 0 (replicate n fresh)) (\<lambda>(ok, confs).
        Inr (if ok then int n else -1, conf\<lparr>fconf := confs\<rparr>)))"

fun draw_processes :: "'s rng \<Rightarrow> u64 \<Rightarrow> nat \<Rightarrow> nat \<Rightarrow> fault_conf list \<Rightarrow> 's \<Rightarrow> (fault_conf list \<times> 's) res option" where
  \<comment> \<open>\<open>n\<close> more faults from index \<open>i\<close> on\<close>
  "draw_processes g mx 0 i confs s = Some (Inr (confs, s))"
| "draw_processes g mx (Suc n) i confs s =
     obind (genrand g s mx) (\<lambda>(r, s').
       if i < length confs
       then draw_processes g mx n (Suc i) (confs[i := (confs ! i)\<lparr>fc_proc_id := sint (ucast r :: 32 word)\<rparr>]) s'
       else Some (Inl Out_Of_Bounds))"

definition define_failure_per_process :: "'s rng \<Rightarrow> 's \<Rightarrow> user_confs \<Rightarrow> (user_confs \<times> 's) res option" where
  "define_failure_per_process g s conf =
     obind (draw_processes g (nr_proc_w conf) (nat (nr_faults conf)) 0 (fconf conf) s) (\<lambda>(confs, s').
       Some (Inr (conf\<lparr>fconf := confs\<rparr>, s')))"

end
