(* ===== verification/Dedis_Run.thy ===== *)
theory Dedis_Run
  imports Dedis_Plot Dedis_Faults
begin

text \<open>
  \<^verbatim>\<open>dedisbench/DEDISbench.c\<close>: one process of the benchmark (\<^verbatim>\<open>process_run\<close>) and the processes together
  (\<^verbatim>\<open>launch_benchmark\<close>). The time of day is a parameter: \<open>tick\<close> holds the microseconds that the calls
  of \<^verbatim>\<open>gettimeofday\<close> in one round of the loop return. Elapsed time and rates are compared as exact
  numbers where the code compares rounded quotients. The averages that are computed from the sums at
  the end are printed only and have no counterpart here.
\<close>

section \<open>State\<close>

record tick =
  tk_unique :: u64  \<comment> \<open>in \<^verbatim>\<open>get_writecontent\<close>\<close>
  tk_t1 :: u64  \<comment> \<open>before the system call\<close>
  tk_t2 :: u64  \<comment> \<open>after it\<close>
  tk_lap :: u64  \<comment> \<open>in \<^verbatim>\<open>lap_time\<close>\<close>
  tk_end :: u64  \<comment> \<open>at the end of the round\<close>

record ('s, 'f, 'n) run_env =
  re_rng :: "'s rng"
  re_io :: "'f file_io"
  re_fault :: "'n fault_env"
  re_conf :: user_confs
  re_nurand :: nurand
  re_fd :: int
  re_idproc :: int
  re_nproc :: int
  re_ratio :: int  \<comment> \<open>operations per second\<close>
  re_iotype :: int
  re_end_time :: u64
  re_end_size :: u64
  re_ru_begin :: u64
  re_log_open :: bool  \<comment> \<open>the log file could be opened\<close>
  re_clock :: "nat \<Rightarrow> tick"
  re_junk :: "nat \<Rightarrow> char"  \<comment> \<open>what a fresh buffer holds\<close>

record snapshot =
  sn_ops :: u64
  sn_lat :: u64
  sn_length :: u64
  sn_time :: u64

record ('s, 'f, 'n) run_state =
  rs_stat :: stats
  rs_snaps :: "(int \<times> snapshot) list"  \<comment> \<open>the four arrays, the last entry first\<close>
  rs_info :: duplicates_info
  rs_faults :: "fault_runtime option"
  rs_fstats :: faults_statistics
  rs_degree :: "block_ptr dedup_degree option"
  rs_accesses :: "u64 list"
  rs_errors :: int
  rs_lines :: "integrity_line list"
  rs_log :: "(u64 \<times> u64) list"
  rs_rng :: 's
  rs_file :: 'f
  rs_sock :: 'n
  rs_round :: nat
  rs_begin_time :: u64
  rs_begin_size :: u64
  rs_elapsed :: int
  rs_base :: u64

definition seconds :: "u64 \<Rightarrow> u64" where
  "seconds us = us div 1000000"

definition warm :: "('s, 'f, 'n) run_env \<Rightarrow> ('s, 'f, 'n) run_state \<Rightarrow> bool" where
  \<comment> \<open>\<^verbatim>\<open>begin_time >= ru_begin\<close>: the ramp-up is over\<close>
  "warm env st \<longleftrightarrow> rs_begin_time st \<ge> re_ru_begin env"

section \<open>Parts of a round\<close>

definition lap_time :: "u64 \<Rightarrow> u64 \<Rightarrow> int \<times> u64" where
  \<comment> \<open>the microseconds since \<open>base\<close> and the new base\<close>
  "lap_time now base = (uint now - uint base, now)"

definition run_statistics :: "user_confs \<Rightarrow> block_info \<Rightarrow> duplicates_info \<Rightarrow> stats \<Rightarrow> (duplicates_info \<times> stats) res" where
  "run_statistics conf b info stat =
     (if distout conf = 1 \<or> fault_measure conf > 0
      then if cont_id b < duplicated_blocks info
        then let i = unat (cont_id b) in
          if length (di_statistics info) \<le> i then Inl Out_Of_Bounds
          else let n = di_statistics info ! i + 1;
                   info1 = info\<lparr>di_statistics := (di_statistics info)[i := n]\<rparr>;
                   info2 = (if n > 1 \<and> n \<ge> topblock_dups info1 then info1\<lparr>topblock := cont_id b, topblock_dups := n\<rparr> else info1);
                   info3 = (if n > 1 \<and> n \<le> botblock_dups info2 then info2\<lparr>botblock := cont_id b, botblock_dups := n\<rparr> else info2);
                   stat1 = (if n > 1 then stat\<lparr>dupl := dupl stat + 1\<rparr> else stat\<lparr>uni := uni stat + 1\<rparr>)
               in Inr (info3\<lparr>last_block_written := \<lparr>cont_id = cont_id b, procid = -1, ts = -1\<rparr>\<rparr>, stat1)
        else let info1 = (if distout conf = 1 then info\<lparr>zerodups := zerodups info + 1\<rparr> else info)
             in Inr (info1\<lparr>last_unique_block := b, last_block_written := b\<rparr>, stat\<lparr>uni := uni stat + 1, zerod := zerod stat + 1\<rparr>)
      else Inr (info, stat))"

definition block_index :: "user_confs \<Rightarrow> u64 \<Rightarrow> nat res" where
  "block_index conf off = (if block_size conf = 0 then Inl Div_By_Zero else Inr (unat (off div block_size conf)))"

definition bump_access :: "user_confs \<Rightarrow> u64 \<Rightarrow> u64 list \<Rightarrow> u64 list res" where
  "bump_access conf off acc =
     rbind (block_index conf off) (\<lambda>i. if i < length acc then Inr (acc[i := acc ! i + 1]) else Inl Out_Of_Bounds)"

definition no_runtime :: fault_runtime where
  "no_runtime = \<lparr>runtime_faults = [], last_block = [], next_block = [], runtime_nprocs = 0, nunique_injected = 0,
     avoid_repeat_faults = False\<rparr>"

definition run_mem :: "('s, 'f, 'n) run_state \<Rightarrow> block_ptr \<Rightarrow> block_info" where
  "run_mem st = fault_mem (rs_info st) (case rs_faults st of None \<Rightarrow> no_runtime | Some fr \<Rightarrow> fr)"

definition matches :: "int \<Rightarrow> bool \<Rightarrow> fault_conf \<Rightarrow> bool" where
  \<comment> \<open>the condition of the four calls of \<^verbatim>\<open>inject_fault\<close>; \<open>opbit\<close> is 1 for writes and 2 for reads\<close>
  "matches opbit before fc \<longleftrightarrow> (fc_measure fc = NEXT_GEN) = before \<and> (fc_operation fc AND opbit \<noteq> 0 \<or> fc_operation fc = 0)"

definition inject_if ::
    "('s, 'f, 'n) run_env \<Rightarrow> int \<Rightarrow> bool \<Rightarrow> fault_conf option \<Rightarrow> u64 \<Rightarrow> ('s, 'f, 'n) run_state \<Rightarrow> ('s, 'f, 'n) run_state res" where
  "inject_if env opbit before next_fault off st =
     (case next_fault of
        None \<Rightarrow> Inr st
      | Some fc \<Rightarrow>
          if matches opbit before fc
          then rbind (inject_fault (re_fault env) (rs_sock st) (run_mem st) fc (rs_degree st) (ucast (block_size (re_conf env)))
                        (rs_faults st) (rs_fstats st) (nat (re_idproc env)) off) (\<lambda>(fs, fi, s).
                 Inr (st\<lparr>rs_fstats := fs, rs_faults := fi, rs_sock := s\<rparr>))
          else Inr st)"

definition track_write ::
    "('s, 'f, 'n) run_env \<Rightarrow> u64 \<Rightarrow> block_info \<Rightarrow> ('s, 'f, 'n) run_state \<Rightarrow> ('s, 'f, 'n) run_state res" where
  "track_write env off b st =
     (let conf = re_conf env; pos = tracker_pos conf (re_idproc env) in
      if integrity conf \<ge> 1
      then rbind (block_index conf off) (\<lambda>i.
           rbind (track_block pos i b (rs_info st)) (\<lambda>info.
           let st1 = st\<lparr>rs_info := info\<rparr> in
           rbind (dedup_degree_add_block_info_write (run_mem st1) (Tracker pos i) (rs_degree st1)) (\<lambda>d1.
           rbind (dedup_degree_add_offset_write off d1) (\<lambda>d2. Inr (st1\<lparr>rs_degree := d2\<rparr>)))))
      else Inr st)"

definition track_read ::
    "('s, 'f, 'n) run_env \<Rightarrow> u64 \<Rightarrow> ('s, 'f, 'n) run_state \<Rightarrow> (block_info \<times> ('s, 'f, 'n) run_state) res" where
  \<comment> \<open>the tracker is used whether or not it was allocated\<close>
  "track_read env off st =
     (let conf = re_conf env; pos = tracker_pos conf (re_idproc env); tr = content_tracker (rs_info st) in
      rbind (block_index conf off) (\<lambda>i.
        if tr = [] then Inl Wild_Pointer
        else if pos < length tr \<and> i < length (tr ! pos)
        then rbind (dedup_degree_add_block_info_read (run_mem st) (Tracker pos i) (rs_degree st)) (\<lambda>d1.
             rbind (dedup_degree_add_offset_read off d1) (\<lambda>d2. Inr (tr ! pos ! i, st\<lparr>rs_degree := d2\<rparr>)))
        else Inl Out_Of_Bounds))"

definition time_op :: "('s, 'f, 'n) run_env \<Rightarrow> tick \<Rightarrow> ('s, 'f, 'n) run_state \<Rightarrow> ('s, 'f, 'n) run_state res" where
  \<comment> \<open>the latency of the operation\<close>
  "time_op env t st =
     (let d = tk_t2 t - tk_t1 t;
          stat1 = (rs_stat st)\<lparr>t1snap := tk_t2 t\<rparr>;
          stat2 = (if beginio stat1 = -1 \<and> warm env st then stat1\<lparr>beginio := tk_t1 t, last_snap_time := tk_t2 t\<rparr> else stat1);
          stat3 = (if warm env st then stat2\<lparr>latency := latency stat2 + d, snap_lat := snap_lat stat2 + d\<rparr> else stat2);
          st1 = st\<lparr>rs_stat := stat3\<lparr>endio := tk_t2 t\<rparr>\<rparr>
      in if logfeature (re_conf env) = 1
         then if re_log_open env then Inr (st1\<lparr>rs_log := rs_log st1 @ [(d, seconds (tk_t2 t))]\<rparr>) else Inl Wild_Pointer
         else Inr st1)"

section \<open>Operations\<close>

definition run_write ::
    "('s, 'f, 'n) run_env \<Rightarrow> fault_conf option \<Rightarrow> tick \<Rightarrow> ('s, 'f, 'n) run_state \<Rightarrow> ('s, 'f, 'n) run_state res option" where
  "run_write env next_fault t st =
     (let conf = re_conf env; p = re_idproc env in
      obind (write_request (re_rng env) (rs_rng st) (tk_unique t) (re_nurand env) conf (rs_info st) (rs_stat st) p)
        (\<lambda>(off, buf, info1, stat1, b, s).
      obind (Some (finfo_set_block_info (rs_faults st) b (nat p))) (\<lambda>fi.
      obind (Some (run_statistics conf b info1 stat1)) (\<lambda>(info2, stat2).
      obind (Some (bump_access conf off (rs_accesses st))) (\<lambda>acc.
      obind (Some (inject_if env 1 True next_fault off
                     (st\<lparr>rs_rng := s, rs_faults := fi, rs_info := info2, rs_stat := stat2, rs_accesses := acc\<rparr>))) (\<lambda>st1.
      case io_pwrite (re_io env) (re_fd env) buf off (rs_file st1) of (_, f1) \<Rightarrow>
      obind (Some (inject_if env 1 False next_fault off (st1\<lparr>rs_file := f1\<rparr>))) (\<lambda>st2.
      let f2 = (if fsyncf conf = 1 then io_fsync (re_io env) (re_fd env) (rs_file st2) else rs_file st2) in
      Some (rbind (track_write env off b (st2\<lparr>rs_file := f2\<rparr>)) (time_op env t)))))))))"

definition run_read ::
    "('s, 'f, 'n) run_env \<Rightarrow> fault_conf option \<Rightarrow> tick \<Rightarrow> ('s, 'f, 'n) run_state \<Rightarrow> ('s, 'f, 'n) run_state res option" where
  "run_read env next_fault t st =
     (let conf = re_conf env; p = re_idproc env in
      obind (read_request (re_rng env) (rs_rng st) (re_nurand env) conf (rs_stat st) p) (\<lambda>(off, s).
      obind (Some (bump_access conf off (rs_accesses st))) (\<lambda>acc.
      obind (Some (inject_if env 2 True next_fault off (st\<lparr>rs_rng := s, rs_accesses := acc\<rparr>))) (\<lambda>st1.
      case io_pread (re_io env) (re_fd env) (block_size conf) off (rs_file st1) of (n, bytes, f1) \<Rightarrow>
      let size = unat (block_size conf); buf = blit 0 (take size bytes) (map (re_junk env) [0..<size]) in
      obind (Some (track_read env off (st1\<lparr>rs_file := f1\<rparr>))) (\<lambda>(bf, st2).
      obind (Some (inject_if env 2 False next_fault off st2)) (\<lambda>st3.
      obind (Some (if integrity conf \<ge> 2 then compare_blocks buf bf 0 else Inr (0, []))) (\<lambda>(r, ls).
      let stat = rs_stat st3;
          st4 = st3\<lparr>rs_errors := rs_errors st3 + r, rs_lines := rs_lines st3 @ ls,
            rs_stat := (if word_of_int n \<noteq> block_size conf then stat\<lparr>misses_read := misses_read stat + 1\<rparr> else stat)\<rparr>
      in Some (time_op env t st4))))))))"

definition store_snapshot :: "('s, 'f, 'n) run_env \<Rightarrow> ('s, 'f, 'n) run_state \<Rightarrow> ('s, 'f, 'n) run_state res" where
  \<comment> \<open>the arrays have 1000 entries\<close>
  "store_snapshot env st =
     (let stat = rs_stat st;
          st1 = st\<lparr>rs_stat := stat\<lparr>iter_snap := iter_snap stat + 1, snap_lat := 0, snap_totops := 0, last_snap_time := t1snap stat\<rparr>\<rparr>
      in if warm env st
         then if 0 \<le> iter_snap stat \<and> iter_snap stat < 1000
           then Inr (st1\<lparr>rs_snaps := (iter_snap stat, \<lparr>sn_ops = snap_totops stat, sn_lat = snap_lat stat,
                  sn_length = t1snap stat - last_snap_time stat, sn_time = t1snap stat\<rparr>) # rs_snaps st\<rparr>)
           else Inl Out_Of_Bounds
         else Inr st1)"

definition count_op :: "('s, 'f, 'n) run_env \<Rightarrow> ('s, 'f, 'n) run_state \<Rightarrow> ('s, 'f, 'n) run_state res" where
  "count_op env st =
     (let stat = rs_stat st;
          stat1 = (if warm env st then stat\<lparr>tot_ops := tot_ops stat + 1, snap_totops := snap_totops stat + 1\<rparr> else stat);
          st1 = st\<lparr>rs_stat := stat1\<rparr>
      in rbind (if unat (t1snap stat1) \<ge> unat (last_snap_time stat1) + 30000000 then store_snapshot env st1 else Inr st1) (\<lambda>st2.
           Inr (if number_ops (re_conf env) > 0 then st2\<lparr>rs_begin_size := rs_begin_size st2 + 1\<rparr> else st2)))"

definition below_rate :: "('s, 'f, 'n) run_env \<Rightarrow> ('s, 'f, 'n) run_state \<Rightarrow> bool" where
  \<comment> \<open>\<^verbatim>\<open>ops_proc/time_elapsed<ratio\<close>, for the rate of all processes\<close>
  "below_rate env st \<longleftrightarrow>
     uint (tot_ops (rs_stat st) * word_of_int (re_nproc env)) * 1000000 < re_ratio env * rs_elapsed st"

definition run_op ::
    "('s, 'f, 'n) run_env \<Rightarrow> fault_conf option \<Rightarrow> tick \<Rightarrow> ('s, 'f, 'n) run_state \<Rightarrow> ('s, 'f, 'n) run_state res option" where
  "run_op env next_fault t st =
     obind (if re_iotype env = IO_WRITE \<or> (case next_fault of None \<Rightarrow> False | Some fc \<Rightarrow> fc_operation fc AND 1 \<noteq> 0)
            then run_write env next_fault t st
            else run_read env next_fault t st) (\<lambda>st'. Some (count_op env st'))"

definition run_step :: "('s, 'f, 'n) run_env \<Rightarrow> ('s, 'f, 'n) run_state \<Rightarrow> ('s, 'f, 'n) run_state res option" where
  \<comment> \<open>one round of the loop; a process that is ahead of its rate sleeps instead\<close>
  "run_step env st =
     (let t = re_clock env (rs_round st) in
      obind (Some (next_fault_conf (rs_faults st) (nat (re_idproc env)) (tot_ops (rs_stat st)) (word_of_int (rs_elapsed st))))
        (\<lambda>(next_fault, fi).
      let st1 = st\<lparr>rs_faults := fi\<rparr> in
      if rs_elapsed st \<le> 0 then Some (Inl Abort)
      else obind (if testtype (re_conf env) = PEAK \<or> below_rate env st1 then run_op env next_fault t st1 else Some (Inr st1)) (\<lambda>st2.
        case lap_time (tk_lap t) (rs_base st2) of (d, base) \<Rightarrow>
        Some (Inr (st2\<lparr>rs_elapsed := rs_elapsed st2 + d, rs_base := base, rs_begin_time := seconds (tk_end t),
          rs_round := Suc (rs_round st2)\<rparr>)))))"

definition running :: "('s, 'f, 'n) run_env \<Rightarrow> ('s, 'f, 'n) run_state \<Rightarrow> bool" where
  "running env st \<longleftrightarrow> rs_begin_time st < re_end_time env \<and> rs_begin_size st < re_end_size env"

partial_function (option) run_loop ::
    "('s, 'f, 'n) run_env \<Rightarrow> ('s, 'f, 'n) run_state \<Rightarrow> ('s, 'f, 'n) run_state res option" where
  "run_loop env st = (if running env st then obind (run_step env st) (\<lambda>st1. run_loop env st1) else Some (Inr st))"

section \<open>A process\<close>

record ('s, 'f, 'n) run_os =
  os_init_rand :: "u64 \<Rightarrow> 's"
  os_rng :: "'s rng"
  os_nurand :: nurand
  os_io :: "'f file_io"
  os_fault :: "'n fault_env"
  os_opened :: "string \<Rightarrow> bool"  \<comment> \<open>the files that \<^verbatim>\<open>fopen\<close> can open\<close>
  os_begin_at :: "int \<Rightarrow> u64"  \<comment> \<open>the time at the beginning of a process, and of its measurement\<close>
  os_base_at :: "int \<Rightarrow> u64"
  os_ticks :: "int \<Rightarrow> nat \<Rightarrow> tick"
  os_buffer :: "nat \<Rightarrow> char"
  os_stack :: u64  \<comment> \<open>a variable that is not initialised\<close>
  os_keys :: "(u32 \<times> block_ptr) list \<Rightarrow> block_ptr list"  \<comment> \<open>\<^verbatim>\<open>g_hash_table_get_keys\<close>\<close>
  os_address :: "block_ptr \<Rightarrow> u64"

definition read_procid :: "user_confs \<Rightarrow> int \<Rightarrow> int \<Rightarrow> int" where
  \<comment> \<open>\<^verbatim>\<open>procid_r\<close>\<close>
  "read_procid conf idproc io = (if mixedIO conf = 1 \<and> io = IO_READ then idproc + nprocs conf sdiv 2 else idproc)"

definition end_of_run :: "user_confs \<Rightarrow> u64 \<Rightarrow> u64" where
  "end_of_run conf begin_time =
     (if time_to_run conf > 0
      then begin_time + word_of_int (start_at conf) + word_of_int (time_to_run conf) - word_of_int (finish_at conf)
      else -1)"

definition process_start ::
    "('s, 'f, 'n) run_os \<Rightarrow> int \<Rightarrow> int \<Rightarrow> int \<Rightarrow> int \<Rightarrow> user_confs \<Rightarrow> duplicates_info \<Rightarrow> fault_runtime option \<Rightarrow> 'f \<Rightarrow> 'n
      \<Rightarrow> (('s, 'f, 'n) run_env \<times> ('s, 'f, 'n) run_state) res option" where
  \<comment> \<open>up to the loop\<close>
  "process_start os idproc nproc rate io conf info fi f sock =
     (let r = read_procid conf idproc io in
      obind (init_io (os_init_rand os) (os_rng os) (os_nurand os) conf r) (\<lambda>(_, nu, s).
      obind (Some (if rawdevice conf = 0 then create_pfile (os_io os) idproc conf f
                   else open_rawdev (os_io os) (rawpath conf) conf f)) (\<lambda>(fd, f1).
      obind (Some (proc_text r)) (\<lambda>ident.
      if integrity conf \<ge> 2 \<and> io = IO_READ \<and> \<not> os_opened os (''./results/intgr_online_check'' @ ident) then Some (Inl Wild_Pointer)
      else if number_ops conf > 0 \<and> (word_of_int nproc :: u64) = 0 then Some (Inl Div_By_Zero)
      else let begin_time = seconds (os_begin_at os r);
               limited = number_ops conf > 0;
               env = \<lparr>re_rng = os_rng os, re_io = os_io os, re_fault = os_fault os, re_conf = conf, re_nurand = nu, re_fd = fd,
                      re_idproc = idproc, re_nproc = nproc, re_ratio = rate, re_iotype = io,
                      re_end_time = end_of_run conf begin_time,
                      re_end_size = (if limited then number_ops conf div word_of_int nproc else -1),
                      re_ru_begin = begin_time + word_of_int (start_at conf),
                      re_log_open = os_opened os (''results/logp'' @ ident),
                      re_clock = os_ticks os r, re_junk = os_buffer os\<rparr>;
               st = \<lparr>rs_stat = initial_stats, rs_snaps = [], rs_info = info, rs_faults = fi,
                     rs_fstats = init_fault_statistics \<lparr>tot_faults_injected = 0, tot_faults_dup = 0, tot_failures = 0, injected_faults = []\<rparr>,
                     rs_degree = (if usingfaults conf \<noteq> 0 then Some new_dedup_degree else None),
                     rs_accesses = replicate (unat (totblocks conf)) 0, rs_errors = 0, rs_lines = [], rs_log = [],
                     rs_rng = s, rs_file = f1, rs_sock = sock, rs_round = 0, rs_begin_time = begin_time,
                     rs_begin_size = (if limited then 0 else os_stack os), rs_elapsed = 1, rs_base = os_base_at os r\<rparr>
           in Some (Inr (env, st))))))"

definition print_fault_statistics :: "('s, 'f, 'n) run_os \<Rightarrow> faults_statistics \<Rightarrow> string" where
  \<comment> \<open>the keys of the table are printed as numbers, but they are pointers\<close>
  "print_fault_statistics os fs =
     ''Number of faults injected: '' @ show_nat (unat (tot_faults_injected fs)) @ [NEWLINE] @
     concat (map (\<lambda>p. ''ContentId: '' @ show_u64 (os_address os p) @ [NEWLINE]) (os_keys os (injected_faults fs))) @
     ''Number of ignored faults: '' @ show_int (sint (tot_faults_dup fs)) @ [NEWLINE] @
     ''Number of failures: '' @ show_nat (unat (tot_failures fs)) @ [NEWLINE]"

record run_report =
  rp_stat :: stats
  rp_snaps :: "(int \<times> snapshot) list"
  rp_snap_files :: "(int \<times> string list) option"
  rp_access :: "(int \<times> access_report option) option"
  rp_errors :: int
  rp_online :: "integrity_line list"
  rp_faults :: "string option"
  rp_offsets :: "string option"
  rp_dedup :: "string option"

definition report_file :: "('s, 'f, 'n) run_os \<Rightarrow> int \<Rightarrow> string \<Rightarrow> int \<Rightarrow> string \<Rightarrow> string option res" where
  \<comment> \<open>a file that is written when a flag is set; its name ends with the process number\<close>
  "report_file os flag name idproc contents =
     (if flag = 0 then Inr None
      else if os_opened os (''results/'' @ name @ show_int idproc) then Inr (Some contents) else Inl Wild_Pointer)"

definition last_snapshot :: "('s, 'f, 'n) run_env \<Rightarrow> ('s, 'f, 'n) run_state \<Rightarrow> ('s, 'f, 'n) run_state res" where
  "last_snapshot env st = (if t1snap (rs_stat st) > last_snap_time (rs_stat st) then store_snapshot env st else Inr st)"

definition process_report ::
    "('s, 'f, 'n) run_os \<Rightarrow> ('s, 'f, 'n) run_env \<Rightarrow> ('s, 'f, 'n) run_state \<Rightarrow> run_report res" where
  \<comment> \<open>the files that a process leaves\<close>
  "process_report os env st =
     (let conf = re_conf env; p = re_idproc env; r = read_procid conf p (re_iotype env) in
      rbind (proc_text r) (\<lambda>ident.
      if printtofile conf = 1 \<and> \<not> os_opened os (''./results/'' @ printfile conf) then Inl Wild_Pointer
      else rbind (if printtofile conf = 1 then map_sum id Some (write_latency_throughput_snaps (os_opened os) conf ident) else Inr None) (\<lambda>snaps.
      rbind (if accesslog conf = 1
             then map_sum id (\<lambda>(r, a, _). Some (r, a)) (write_access_data (os_opened os) (rs_accesses st) conf ident) else Inr None) (\<lambda>acc.
      rbind (report_file os (outputfaults conf) (faultsoutputfile conf) p (print_fault_statistics os (rs_fstats st))) (\<lambda>faults.
      rbind (report_file os (outputoffsets conf) (offsetsoutputfile conf) p
               (dedup_degree_print_offset_write (rs_degree st) @ dedup_degree_print_offset_read (rs_degree st))) (\<lambda>offsets.
      rbind (report_file os (outputdedup conf) (dedupoutputfile conf) p
               (dedup_degree_print_blocks (run_mem st) (rs_degree st) @ dedup_degree_print_unique_array (run_mem st) (rs_degree st))) (\<lambda>dedup.
        Inr \<lparr>rp_stat = rs_stat st, rp_snaps = rs_snaps st, rp_snap_files = snaps, rp_access = acc, rp_errors = rs_errors st,
             rp_online = rs_lines st, rp_faults = faults, rp_offsets = offsets, rp_dedup = dedup\<rparr>)))))))"

definition process_end ::
    "('s, 'f, 'n) run_os \<Rightarrow> ('s, 'f, 'n) run_env \<Rightarrow> ('s, 'f, 'n) run_state \<Rightarrow> (run_report \<times> ('s, 'f, 'n) run_state) res" where
  \<comment> \<open>after the loop\<close>
  "process_end os env st =
     (if logfeature (re_conf env) = 1 \<and> \<not> re_log_open env then Inl Wild_Pointer
      else rbind (last_snapshot env (st\<lparr>rs_file := io_close (re_io env) (re_fd env) (rs_file st)\<rparr>)) (\<lambda>st1.
           rbind (process_report os env st1) (\<lambda>rep. Inr (rep, st1))))"

definition process_run ::
    "('s, 'f, 'n) run_os \<Rightarrow> int \<Rightarrow> int \<Rightarrow> int \<Rightarrow> int \<Rightarrow> user_confs \<Rightarrow> duplicates_info \<Rightarrow> fault_runtime option \<Rightarrow> 'f \<Rightarrow> 'n
      \<Rightarrow> (run_report \<times> ('s, 'f, 'n) run_state) res option" where
  "process_run os idproc nproc rate io conf info fi f sock =
     obind (process_start os idproc nproc rate io conf info fi f sock) (\<lambda>(env, st).
     obind (run_loop env st) (\<lambda>st'. Some (process_end os env st')))"

section \<open>All processes\<close>

text \<open>
  The parent forks the processes and waits for them. A process has its own copy of the memory of the
  parent, except for the memory of \<^verbatim>\<open>sharedmem.c\<close>. A schedule lists which process runs the next round
  of its loop; rounds are not interleaved with each other. When the schedule ends before all
  processes have left their loops, the benchmark has not ended, which is the value None.
\<close>

definition jobs :: "user_confs \<Rightarrow> (int \<times> int \<times> int \<times> int) list" where
  \<comment> \<open>number, number of processes of its kind, rate and direction of every process\<close>
  "jobs conf =
     (if mixedIO conf = 1
      then map (\<lambda>i. if i < nprocs conf sdiv 2 then (i, nprocs conf sdiv 2, ratiow conf, IO_WRITE)
                    else (i - nprocs conf sdiv 2, nprocs conf sdiv 2, ratior conf, IO_READ)) [0..nprocs conf - 1]
      else map (\<lambda>i. (i, nprocs conf, ratio conf, iotype conf)) [0..nprocs conf - 1])"

definition share :: "duplicates_info \<Rightarrow> duplicates_info \<Rightarrow> duplicates_info" where
  \<comment> \<open>the fields of \<open>info\<close> that point to shared memory, as \<open>sh\<close> has them\<close>
  "share sh info = info\<lparr>di_statistics := di_statistics sh, di_sum := di_sum sh, di_stats := di_stats sh,
     zerodups := zerodups sh, content_tracker := content_tracker sh\<rparr>"

type_synonym ('s, 'f, 'n) proc = "('s, 'f, 'n) run_env \<times> ('s, 'f, 'n) run_state"

record ('s, 'f, 'n) bench =
  bn_procs :: "('s, 'f, 'n) proc list"
  bn_info :: duplicates_info  \<comment> \<open>whose shared fields count\<close>
  bn_file :: 'f
  bn_sock :: 'n

definition resume :: "('s, 'f, 'n) bench \<Rightarrow> ('s, 'f, 'n) run_state \<Rightarrow> ('s, 'f, 'n) run_state" where
  \<comment> \<open>a process sees the memory, the files and the driver as the others left them\<close>
  "resume bn st = st\<lparr>rs_info := share (bn_info bn) (rs_info st), rs_file := bn_file bn, rs_sock := bn_sock bn\<rparr>"

definition store_proc :: "nat \<Rightarrow> ('s, 'f, 'n) run_env \<Rightarrow> ('s, 'f, 'n) run_state \<Rightarrow> ('s, 'f, 'n) bench \<Rightarrow> ('s, 'f, 'n) bench" where
  "store_proc i env st bn =
     bn\<lparr>bn_procs := (bn_procs bn)[i := (env, st)], bn_info := share (rs_info st) (bn_info bn), bn_file := rs_file st, bn_sock := rs_sock st\<rparr>"

fun fork_all ::
    "('s, 'f, 'n) run_os \<Rightarrow> user_confs \<Rightarrow> duplicates_info \<Rightarrow> fault_runtime option \<Rightarrow> (int \<times> int \<times> int \<times> int) list \<Rightarrow> ('s, 'f, 'n) bench
      \<Rightarrow> ('s, 'f, 'n) bench res option" where
  "fork_all os conf info fi [] bn = Some (Inr bn)"
| "fork_all os conf info fi ((idproc, nproc, rate, io) # js) bn =
     obind (process_start os idproc nproc rate io conf info fi (bn_file bn) (bn_sock bn)) (\<lambda>(env, st).
       fork_all os conf info fi js (bn\<lparr>bn_procs := bn_procs bn @ [(env, st)], bn_file := rs_file st\<rparr>))"

definition turn :: "nat \<Rightarrow> ('s, 'f, 'n) bench \<Rightarrow> ('s, 'f, 'n) bench res option" where
  \<comment> \<open>process \<open>i\<close> runs one round, if it is still in its loop\<close>
  "turn i bn =
     (case bn_procs bn ! i of (env, st) \<Rightarrow>
        if i < length (bn_procs bn) \<and> running env st
        then obind (run_step env (resume bn st)) (\<lambda>st'. Some (Inr (store_proc i env st' bn)))
        else Some (Inr bn))"

fun run_schedule :: "nat list \<Rightarrow> ('s, 'f, 'n) bench \<Rightarrow> ('s, 'f, 'n) bench res option" where
  "run_schedule [] bn = (if \<exists>(env, st) \<in> set (bn_procs bn). running env st then None else Some (Inr bn))"
| "run_schedule (i # is) bn = obind (turn i bn) (run_schedule is)"

fun wait_all :: "('s, 'f, 'n) run_os \<Rightarrow> ('s, 'f, 'n) proc list \<Rightarrow> ('s, 'f, 'n) bench \<Rightarrow> (run_report list \<times> ('s, 'f, 'n) bench) res" where
  "wait_all os [] bn = Inr ([], bn)"
| "wait_all os ((env, st) # ps) bn =
     rbind (process_end os env (resume bn st)) (\<lambda>(rep, st').
     rbind (wait_all os ps (bn\<lparr>bn_file := rs_file st'\<rparr>)) (\<lambda>(reps, bn'). Inr (rep # reps, bn')))"

fun destroy_files :: "'f file_io \<Rightarrow> user_confs \<Rightarrow> int list \<Rightarrow> 'f \<Rightarrow> 'f res" where
  "destroy_files io conf [] f = Inr f"
| "destroy_files io conf (i # is) f = rbind (destroy_pfile io i conf f) (\<lambda>(_, f'). destroy_files io conf is f')"

definition launch_benchmark ::
    "('s, 'f, 'n) run_os \<Rightarrow> nat list \<Rightarrow> user_confs \<Rightarrow> duplicates_info \<Rightarrow> fault_runtime option \<Rightarrow> 'f \<Rightarrow> 'n
      \<Rightarrow> (run_report list \<times> (int \<times> final_line list) option \<times> duplicates_info \<times> user_confs \<times> 'f \<times> 'n) res option" where
  \<comment> \<open>the reports of the processes and the result of the integrity check\<close>
  "launch_benchmark os schedule conf0 info fi f sock =
     (let nprocinit = (if mixedIO conf0 = 1 then nprocs conf0 sdiv 2 else nprocs conf0);
          conf = conf0\<lparr>nr_proc_w := word_of_int nprocinit\<rparr> in
      obind (fork_all os conf info fi (jobs conf) \<lparr>bn_procs = [], bn_info = info, bn_file = f, bn_sock = sock\<rparr>) (\<lambda>bn1.
      obind (run_schedule schedule bn1) (\<lambda>bn2.
      obind (Some (wait_all os (bn_procs bn2) bn2)) (\<lambda>(reps, bn3).
      obind (if integrity conf = 1 \<or> integrity conf = 3
             then obind (check_integrity (os_io os) (os_buffer os) (os_opened os ''./results/intgr_final_static_check'') conf (bn_info bn3) (bn_file bn3))
                    (\<lambda>(n, ls, f1). Some (Inr (Some (n, ls), f1)))
             else Some (Inr (None, bn_file bn3))) (\<lambda>(chk, f1).
      obind (Some (if destroypfile conf = 1 \<and> rawdevice conf = 0
                   then destroy_files (os_io os) conf [0..nprocinit - 1] f1 else Inr f1)) (\<lambda>f2.
        Some (Inr (reps, chk, bn_info bn3, conf, f2, bn_sock bn3))))))))"

end
