(* ===== verification/Dedis_Dup_Correct.thy ===== *)
theory Dedis_Dup_Correct
  imports Dedis_Io "HOL-Library.Multiset"
begin

text \<open>
  Correctness of the duplicate distribution: the two passes over the distribution file agree,
  the accumulated array gives every content exactly its share of the random numbers, contents
  without duplicates never repeat, generated blocks pass their check, and the output
  distribution counts what was written.
\<close>

section \<open>Binary search\<close>

definition first_above :: "u64 list \<Rightarrow> u64 \<Rightarrow> nat \<Rightarrow> bool" where
  "first_above acc v i \<longleftrightarrow> i < length acc \<and> v < acc ! i \<and> (\<forall>j < i. acc ! j \<le> v)"

definition bracket :: "u64 list \<Rightarrow> u64 \<Rightarrow> int \<Rightarrow> int \<Rightarrow> u64 \<Rightarrow> bool" where
  \<comment> \<open>the invariant of the search: the answer is between \<open>low\<close> and \<open>high + 1\<close>\<close>
  "bracket acc v low high res \<longleftrightarrow> 0 \<le> low \<and> high < int (length acc) \<and> low \<le> high + 1 \<and>
     (\<forall>j < length acc. int j < low \<longrightarrow> acc ! j \<le> v) \<and>
     (\<forall>j < length acc. high < int j \<longrightarrow> v < acc ! j) \<and>
     (high + 1 < int (length acc) \<longrightarrow> res = word_of_int (high + 1))"

lemma increasing_le:
  assumes "sorted_wrt (<) (acc :: u64 list)" and "i \<le> j" and "j < length acc"
  shows "acc ! i \<le> acc ! j"
  using assms sorted_wrt_nth_less [of "(<)" acc i j] by (cases "i = j") auto

lemma bracket_left:
  assumes "sorted_wrt (<) acc" and "bracket acc v low high res" and "low \<le> mid" and "mid \<le> high"
    and "v < acc ! nat mid"
  shows "bracket acc v low (mid - 1) (word_of_int mid)"
proof -
  have "v < acc ! j" if "j < length acc" "mid - 1 < int j" for j
  proof -
    have "nat mid \<le> j" using that(2) by linarith
    from order_less_le_trans [OF assms(5) increasing_le [OF assms(1) this that(1)]] show ?thesis .
  qed
  with assms(2-4) show ?thesis by (auto simp: bracket_def)
qed

lemma bracket_right:
  assumes "sorted_wrt (<) acc" and "bracket acc v low high res" and "low \<le> mid" and "mid \<le> high"
    and "acc ! nat mid < v"
  shows "bracket acc v (mid + 1) high res"
proof -
  have "acc ! j \<le> v" if "j < length acc" "int j < mid + 1" for j
  proof -
    have "nat mid < length acc" "j \<le> nat mid" using assms(2-4) that(2) by (auto simp: bracket_def)
    from increasing_le [OF assms(1) this(2,1)] assms(5) show ?thesis by simp
  qed
  with assms(2-4) show ?thesis by (auto simp: bracket_def)
qed

lemma search_bracket:
  assumes "sorted_wrt (<) acc" and "acc \<noteq> []" and "v < last acc" and "bracket acc v low high res"
  shows "\<exists>i. search acc v low high res = Inr (word_of_nat i) \<and> first_above acc v i"
  using assms(4)
proof (induction "nat (high - low + 1)" arbitrary: low high res rule: less_induct)
  case less
  note b = less.prems
  have last: "acc ! (length acc - 1) = last acc" using assms(2) by (simp add: last_conv_nth)
  show ?case
  proof (cases "high < low")
    case True
    with b have lh: "high = low - 1" by (simp add: bracket_def)
    have "low < int (length acc)"
    proof (rule ccontr)
      assume "\<not> low < int (length acc)"
      then have "acc ! (length acc - 1) \<le> v" using b assms(2) by (simp add: bracket_def)
      with last assms(3) show False by simp
    qed
    with b lh True have "search acc v low high res = Inr (word_of_nat (nat low))" "first_above acc v (nat low)"
      by (auto simp: bracket_def search.simps first_above_def)
    then show ?thesis by blast
  next
    case False
    define mid where "mid = low + (high - low) div 2"
    have m: "low \<le> mid" "mid \<le> high" "0 \<le> mid" "nat mid < length acc"
      using False b by (auto simp: mid_def bracket_def)
    note unf = search.simps [of acc v low high res, folded mid_def]
    consider (gt) "v < acc ! nat mid" | (lt) "acc ! nat mid < v" | (eq) "acc ! nat mid = v" by fastforce
    then show ?thesis
    proof cases
      case gt
      from less.hyps [OF _ bracket_left [OF assms(1) b m(1,2) gt]] m False gt show ?thesis
        by (simp add: unf)
    next
      case lt
      then have "\<not> v < acc ! nat mid" by simp
      with less.hyps [OF _ bracket_right [OF assms(1) b m(1,2) lt]] m False lt show ?thesis
        by (simp add: unf)
    next
      case eq
      let ?i = "Suc (nat mid)"
      have "nat mid \<noteq> length acc - 1" using eq last assms(3) by auto
      then have i: "?i < length acc" using m(4) by linarith
      then have "v < acc ! ?i" using sorted_wrt_nth_less [OF assms(1), of "nat mid" ?i] eq by simp
      moreover have "acc ! j \<le> v" if "j < ?i" for j
        using increasing_le [OF assms(1), of j "nat mid"] m(4) that eq by simp
      ultimately have "first_above acc v ?i" using i by (simp add: first_above_def)
      moreover have "search acc v low high res = Inr (word_of_nat ?i)"
        using m False eq by (simp add: unf)
      ultimately show ?thesis by blast
    qed
  qed
qed

lemma search_correct:
  assumes "sorted_wrt (<) acc" and "acc \<noteq> []" and "v < last acc"
  shows "\<exists>i. search acc v 0 (int (length acc) - 1) 0 = Inr (word_of_nat i) \<and> first_above acc v i"
  by (rule search_bracket [OF assms]) (use assms(2) in \<open>auto simp: bracket_def Suc_le_eq\<close>)

section \<open>The accumulated array\<close>

definition psum :: "u64 list \<Rightarrow> nat \<Rightarrow> nat" where
  \<comment> \<open>the sum of the first \<open>i\<close> entries\<close>
  "psum st i = sum_list (map unat (take i st))"

lemma psum_Suc: "i < length st \<Longrightarrow> psum st (Suc i) = psum st i + unat (st ! i)"
  by (simp add: psum_def take_Suc_conv_app_nth)

lemma psum_0 [simp]: "psum st 0 = 0"
  by (simp add: psum_def)

lemma psum_mono: "i \<le> j \<Longrightarrow> psum st i \<le> psum st j"
proof (induction j rule: dec_induct)
  case base
  show ?case by simp
next
  case (step j)
  have "psum st j \<le> psum st (Suc j)"
  proof (cases "j < length st")
    case True
    then show ?thesis by (simp add: psum_Suc)
  next
    case False
    then show ?thesis by (simp add: psum_def)
  qed
  with step show ?case by linarith
qed

lemma psum_all: "length st \<le> i \<Longrightarrow> psum st i = psum st (length st)"
  by (simp add: psum_def)

definition accumulated :: "duplicates_info \<Rightarrow> bool" where
  \<comment> \<open>\<open>sum[i]\<close> is the sum of the first \<open>i + 1\<close> entries of \<open>stats\<close>\<close>
  "accumulated info \<longleftrightarrow> length (di_stats info) = unat (duplicated_blocks info) \<and>
     length (di_sum info) = unat (duplicated_blocks info) \<and>
     (\<forall>i < length (di_sum info). unat (di_sum info ! i) = psum (di_stats info) (Suc i))"

lemma cumulate_correct:
  assumes "0 < i" and "i + n = length (di_sum info)" and "length (di_stats info) = length (di_sum info)"
    and "dist_out = 1 \<longrightarrow> length (di_statistics info) = length (di_sum info)"
    and "psum (di_stats info) (length (di_stats info)) < 2 ^ 64"
    and "\<forall>j < i. unat (di_sum info ! j) = psum (di_stats info) (Suc j)"
  shows "\<exists>info'. cumulate n i dist_out info = Inr info' \<and> di_stats info' = di_stats info \<and>
    length (di_sum info') = length (di_sum info) \<and> duplicated_blocks info' = duplicated_blocks info \<and>
    total_blocks info' = total_blocks info \<and> u_count info' = u_count info \<and>
    (\<forall>j < length (di_sum info'). unat (di_sum info' ! j) = psum (di_stats info) (Suc j))"
  using assms
proof (induction n i dist_out info rule: cumulate.induct)
  case (1 i dist_out info)
  then show ?case by simp
next
  case (2 n i dist_out info)
  define info1 where "info1 = info\<lparr>di_sum := (di_sum info)[i := di_sum info ! (i - 1) + di_stats info ! i]\<rparr>"
  define info2 where "info2 = (if dist_out = 1 then info1\<lparr>di_statistics := (di_statistics info1)[i := 0]\<rparr> else info1)"
  have guard: "i < length (di_sum info) \<and> i < length (di_stats info) \<and> (dist_out = 1 \<longrightarrow> i < length (di_statistics info))"
    using "2.prems" by auto
  have same: "di_stats info2 = di_stats info" "length (di_sum info2) = length (di_sum info)"
    "duplicated_blocks info2 = duplicated_blocks info" "total_blocks info2 = total_blocks info"
    "u_count info2 = u_count info" "length (di_statistics info2) = length (di_statistics info)"
    "di_sum info2 = (di_sum info)[i := di_sum info ! (i - 1) + di_stats info ! i]"
    by (simp_all add: info2_def info1_def)
  have prev: "unat (di_sum info ! (i - 1)) = psum (di_stats info) i"
    using "2.prems"(1,6) by (simp add: Suc_pred)
  have "psum (di_stats info) (Suc i) \<le> psum (di_stats info) (length (di_stats info))"
    using guard by (intro psum_mono) simp
  then have small: "psum (di_stats info) i + unat (di_stats info ! i) < 2 ^ 64"
    using "2.prems"(5) guard by (simp add: psum_Suc)
  have "unat (di_sum info ! (i - 1) + di_stats info ! i) = psum (di_stats info) (Suc i)"
    using unat_add_of_nat [of "di_sum info ! (i - 1)" "unat (di_stats info ! i)"] small guard
    by (simp add: prev [simplified] psum_Suc)
  then have "\<forall>j < Suc i. unat (di_sum info2 ! j) = psum (di_stats info2) (Suc j)"
    using "2.prems"(6) guard by (simp add: same less_Suc_eq)
  with "2.IH" [OF guard info1_def info2_def] "2.prems" same(1-6)
  have IH: "\<exists>info'. cumulate n (Suc i) dist_out info2 = Inr info' \<and> di_stats info' = di_stats info \<and>
    length (di_sum info') = length (di_sum info) \<and> duplicated_blocks info' = duplicated_blocks info \<and>
    total_blocks info' = total_blocks info \<and> u_count info' = u_count info \<and>
    (\<forall>j < length (di_sum info'). unat (di_sum info' ! j) = psum (di_stats info) (Suc j))" by simp
  have step: "cumulate (Suc n) i dist_out info = cumulate n (Suc i) dist_out info2"
    using guard by (simp add: info2_def info1_def)
  show ?case unfolding step by (rule IH)
qed

lemma load_cumulativedist_correct:
  assumes "0 < duplicated_blocks info" and "length (di_stats info) = unat (duplicated_blocks info)"
    and "length (di_sum info) = unat (duplicated_blocks info)"
    and "dist_out = 1 \<longrightarrow> length (di_statistics info) = unat (duplicated_blocks info)"
    and "psum (di_stats info) (length (di_stats info)) < 2 ^ 64"
  shows "\<exists>info'. load_cumulativedist info dist_out = Inr info' \<and> accumulated info' \<and> di_stats info' = di_stats info \<and>
    duplicated_blocks info' = duplicated_blocks info \<and> total_blocks info' = total_blocks info \<and> u_count info' = u_count info"
proof -
  have pos: "0 < unat (duplicated_blocks info)" using assms(1) by (simp add: word_less_nat_alt)
  then have ne: "di_sum info \<noteq> []" "di_stats info \<noteq> []" using assms(2,3) by auto
  let ?info = "info\<lparr>di_sum := (di_sum info)[0 := di_stats info ! 0]\<rparr>"
  have "\<forall>j < 1. unat (di_sum ?info ! j) = psum (di_stats ?info) (Suc j)"
    using ne by (simp add: psum_Suc)
  with cumulate_correct [of 1 "unat (duplicated_blocks info) - 1" ?info dist_out] assms pos show ?thesis
    using ne by (auto simp: load_cumulativedist_def accumulated_def)
qed

section \<open>The share of every content\<close>

definition dist_ok :: "duplicates_info \<Rightarrow> bool" where
  \<comment> \<open>a loaded distribution: every duplicated content occurs, and the sum fits\<close>
  "dist_ok info \<longleftrightarrow> accumulated info \<and> (\<forall>x \<in> set (di_stats info). 0 < x) \<and>
     psum (di_stats info) (length (di_stats info)) < 2 ^ 64 \<and> length (di_stats info) < 2 ^ 31"

lemma dist_ok_increasing:
  assumes "dist_ok info"
  shows "sorted_wrt (<) (di_sum info)"
  unfolding sorted_wrt_iff_nth_less
proof (intro allI impI)
  fix i j assume ij: "i < j" "j < length (di_sum info)"
  have len: "length (di_stats info) = length (di_sum info)" using assms by (simp add: dist_ok_def accumulated_def)
  have "psum (di_stats info) (Suc i) \<le> psum (di_stats info) j" using ij by (intro psum_mono) simp
  moreover have "0 < unat (di_stats info ! j)"
    using assms ij len by (auto simp: dist_ok_def word_less_nat_alt)
  ultimately have "psum (di_stats info) (Suc i) < psum (di_stats info) (Suc j)"
    using ij len by (simp add: psum_Suc)
  then show "di_sum info ! i < di_sum info ! j"
    using assms ij by (simp add: dist_ok_def accumulated_def word_less_nat_alt)
qed

lemma first_above_psum:
  assumes "dist_ok info" and "r < 2 ^ 64"
  shows "first_above (di_sum info) (word_of_nat r) i \<longleftrightarrow>
    i < length (di_stats info) \<and> psum (di_stats info) i \<le> r \<and> r < psum (di_stats info) (Suc i)"
proof -
  let ?st = "di_stats info" and ?acc = "di_sum info"
  have len: "length ?st = length ?acc" and acc: "\<And>j. j < length ?acc \<Longrightarrow> unat (?acc ! j) = psum ?st (Suc j)"
    using assms(1) by (simp_all add: dist_ok_def accumulated_def)
  have r: "unat (word_of_nat r :: u64) = r" using assms(2) by (intro unat_of_nat_small) simp
  have le: "?acc ! j \<le> word_of_nat r \<longleftrightarrow> psum ?st (Suc j) \<le> r" if "j < length ?acc" for j
    using acc [OF that] r by (simp add: word_le_nat_alt)
  have lt: "word_of_nat r < ?acc ! j \<longleftrightarrow> r < psum ?st (Suc j)" if "j < length ?acc" for j
    using acc [OF that] r by (simp add: word_less_nat_alt)
  have "(\<forall>j < i. ?acc ! j \<le> word_of_nat r) \<longleftrightarrow> psum ?st i \<le> r" if i: "i < length ?acc"
  proof
    assume all: "\<forall>j < i. ?acc ! j \<le> word_of_nat r"
    show "psum ?st i \<le> r"
    proof (cases i)
      case (Suc k)
      with all i le [of k] show ?thesis by simp
    qed simp
  next
    assume "psum ?st i \<le> r"
    show "\<forall>j < i. ?acc ! j \<le> word_of_nat r"
    proof (intro allI impI)
      fix j assume "j < i"
      with psum_mono [of "Suc j" i ?st] \<open>psum ?st i \<le> r\<close> i le [of j] show "?acc ! j \<le> word_of_nat r" by simp
    qed
  qed
  with lt len show ?thesis by (auto simp: first_above_def)
qed

lemma first_above_unique: "first_above acc v i \<Longrightarrow> first_above acc v j \<Longrightarrow> i = j"
  by (metis first_above_def linorder_neqE_nat not_less)

lemma content_for_duplicate:
  assumes "dist_ok info" and "r < psum (di_stats info) (length (di_stats info))"
  shows "\<exists>i. content_for info (word_of_nat r) = Inr (word_of_nat i, info) \<and> first_above (di_sum info) (word_of_nat r) i"
proof -
  let ?st = "di_stats info" and ?acc = "di_sum info" and ?n = "unat (duplicated_blocks info)"
  have len: "length ?st = ?n" "length ?acc = ?n" using assms(1) by (simp_all add: dist_ok_def accumulated_def)
  have n: "0 < ?n" using assms(2) len by (cases "?n = 0") (simp_all add: psum_def)
  then have ne: "?acc \<noteq> []" "duplicated_blocks info \<noteq> 0" using len by auto
  have small: "r < 2 ^ 64" using assms by (auto simp: dist_ok_def)
  have "unat (?acc ! (?n - 1)) = psum ?st ?n"
    using assms(1) n len by (simp add: dist_ok_def accumulated_def Suc_pred)
  then have last: "word_of_nat r < last ?acc" "\<not> ?acc ! (?n - 1) \<le> word_of_nat r"
    using assms(2) len ne small unat_of_nat_small [of r, where 'a = 64]
    by (simp_all add: last_conv_nth word_less_nat_alt word_le_nat_alt)
  from search_correct [OF dist_ok_increasing [OF assms(1)] ne(1) last(1)] obtain i where
    "search ?acc (word_of_nat r) 0 (int ?n - 1) 0 = Inr (word_of_nat i)" "first_above ?acc (word_of_nat r) i"
    by (auto simp: len)
  then show ?thesis
    using ne last len by (auto simp: content_for_def)
qed

lemma content_for_unique:
  assumes "dist_ok info" and "\<not> r < psum (di_stats info) (length (di_stats info))" and "r < 2 ^ 64"
  shows "content_for info (word_of_nat r) = Inr (u_count info, info\<lparr>u_count := u_count info + 1\<rparr>)"
proof (cases "duplicated_blocks info = 0")
  case True
  then show ?thesis by (simp add: content_for_def)
next
  case False
  let ?n = "unat (duplicated_blocks info)"
  have n: "0 < ?n" using False by (simp add: unat_gt_0)
  then have "unat (di_sum info ! (?n - 1)) = psum (di_stats info) (length (di_stats info))"
    using assms(1) by (simp add: dist_ok_def accumulated_def Suc_pred)
  then have "di_sum info ! (?n - 1) \<le> word_of_nat r"
    using assms(2,3) unat_of_nat_small [of r, where 'a = 64] by (simp add: word_le_nat_alt)
  then show ?thesis
    using assms(1) by (simp add: content_for_def dist_ok_def accumulated_def)
qed

lemma u_count_moves: "info\<lparr>u_count := u_count info + 1\<rparr> \<noteq> info"
proof
  assume "info\<lparr>u_count := u_count info + 1\<rparr> = info"
  then have "u_count info + 1 = u_count info" by (metis duplicates_info.select_convs(8) duplicates_info.surjective duplicates_info.update_convs(8))
  then show False by simp
qed

text \<open>
  (C12) Every duplicated content has exactly its share of the random numbers: of the numbers
  below the number of blocks of the data set, exactly \<open>stats[i]\<close> select content \<open>i\<close>, by a binary
  search that stays inside the array and does not change the state.
\<close>

theorem content_share:
  assumes "dist_ok info" and "i < length (di_stats info)"
    and "psum (di_stats info) (length (di_stats info)) \<le> unat (total_blocks info)"
  shows "card {r. r < unat (total_blocks info) \<and> content_for info (word_of_nat r) = Inr (word_of_nat i, info)} =
    unat (di_stats info ! i)"
proof -
  let ?st = "di_stats info" and ?total = "unat (total_blocks info)"
  have "{r. r < ?total \<and> content_for info (word_of_nat r) = Inr (word_of_nat i, info)} =
      {psum ?st i ..< psum ?st (Suc i)}" (is "?L = ?R")
  proof (intro set_eqI iffI)
    fix r assume r: "r \<in> ?L"
    have small: "r < 2 ^ 64" using r unat_less [of "total_blocks info"] by (auto intro: order_less_trans)
    have dup: "r < psum ?st (length ?st)"
      using r content_for_unique [OF assms(1) _ small] by (cases "r < psum ?st (length ?st)") (auto simp: u_count_moves)
    from content_for_duplicate [OF assms(1) dup] r obtain j where
      j: "(word_of_nat j :: u64) = word_of_nat i" "first_above (di_sum info) (word_of_nat r) j" by auto
    then have "j < 2 ^ 31" using assms(1) first_above_psum [OF assms(1) small, of j] by (auto simp: dist_ok_def)
    moreover have "i < 2 ^ 31" using assms(1,2) by (simp add: dist_ok_def)
    ultimately have "j = i" by (intro word_of_nat_eq_small [OF _ _ j(1)]) simp_all
    with j(2) first_above_psum [OF assms(1) small, of i] show "r \<in> ?R" by simp
  next
    fix r assume r: "r \<in> ?R"
    have le: "psum ?st (Suc i) \<le> psum ?st (length ?st)" using assms(2) by (intro psum_mono) simp
    then have dup: "r < psum ?st (length ?st)" and total: "r < ?total" using r assms(3) by auto
    have small: "r < 2 ^ 64" using dup assms(1) by (auto simp: dist_ok_def)
    have "first_above (di_sum info) (word_of_nat r) i"
      using r assms(2) first_above_psum [OF assms(1) small, of i] by simp
    with content_for_duplicate [OF assms(1) dup] total show "r \<in> ?L"
      by (auto dest: first_above_unique)
  qed
  then show ?thesis using assms(2) by (simp add: psum_Suc)
qed

section \<open>Contents without duplicates\<close>

fun draws :: "duplicates_info \<Rightarrow> nat list \<Rightarrow> (u64 list \<times> duplicates_info) res" where
  \<comment> \<open>the contents of successive writes, for given random numbers\<close>
  "draws info [] = Inr ([], info)"
| "draws info (r # rs) =
     rbind (content_for info (word_of_nat r)) (\<lambda>(c, info').
     rbind (draws info' rs) (\<lambda>(cs, info''). Inr (c # cs, info'')))"

lemma dist_ok_u_count [simp]: "dist_ok (info\<lparr>u_count := u\<rparr>) = dist_ok info"
  by (simp add: dist_ok_def accumulated_def)

abbreviation unique_ids :: "duplicates_info \<Rightarrow> u64 list \<Rightarrow> u64 list" where
  "unique_ids info cs \<equiv> filter (\<lambda>c. duplicated_blocks info \<le> c) cs"

lemma draws_total:
  assumes "dist_ok info" and "duplicated_blocks info \<le> u_count info"
    and "unat (u_count info) + length rs < 2 ^ 64" and "\<forall>r \<in> set rs. r < 2 ^ 64"
  shows "\<exists>cs u. draws info rs = Inr (cs, info\<lparr>u_count := u\<rparr>) \<and>
    sorted_wrt (<) (unique_ids info cs) \<and> (\<forall>c \<in> set (unique_ids info cs). u_count info \<le> c)"
  using assms
proof (induction rs arbitrary: info)
  case Nil
  then show ?case by (auto intro: exI [of _ "u_count info"])
next
  case (Cons r rs)
  have small: "r < 2 ^ 64" using Cons.prems(4) by simp
  show ?case
  proof (cases "r < psum (di_stats info) (length (di_stats info))")
    case True
    from content_for_duplicate [OF Cons.prems(1) True] obtain i where
      i: "content_for info (word_of_nat r) = Inr (word_of_nat i, info)" "first_above (di_sum info) (word_of_nat r) i" by blast
    then have lt: "i < length (di_stats info)" using first_above_psum [OF Cons.prems(1) small, of i] by simp
    have "unat (word_of_nat i :: u64) = i"
      using lt Cons.prems(1) by (intro unat_of_nat_small) (simp add: dist_ok_def)
    then have "\<not> duplicated_blocks info \<le> word_of_nat i"
      using lt Cons.prems(1) by (simp add: word_le_nat_alt dist_ok_def accumulated_def)
    moreover from Cons.IH [of info] Cons.prems obtain cs u where
      "draws info rs = Inr (cs, info\<lparr>u_count := u\<rparr>)" "sorted_wrt (<) (unique_ids info cs)"
      "\<forall>c \<in> set (unique_ids info cs). u_count info \<le> c" by auto
    ultimately show ?thesis using i(1) by auto
  next
    case False
    let ?info = "info\<lparr>u_count := u_count info + 1\<rparr>"
    have c: "content_for info (word_of_nat r) = Inr (u_count info, ?info)"
      using content_for_unique [OF Cons.prems(1) False small] .
    have next_u: "unat (u_count info + 1) = unat (u_count info) + 1"
      using unat_add_of_nat [of "u_count info" 1] Cons.prems(3) by simp
    then have le: "u_count info \<le> u_count info + 1" "u_count info < u_count info + 1"
      by (simp_all add: word_le_nat_alt word_less_nat_alt)
    have "dist_ok ?info" "duplicated_blocks ?info \<le> u_count ?info" "unat (u_count ?info) + length rs < 2 ^ 64"
      using Cons.prems next_u le(1) by (auto intro: order_trans)
    with Cons.IH [of ?info] Cons.prems(4) obtain cs u where
      d: "draws ?info rs = Inr (cs, info\<lparr>u_count := u\<rparr>)" "sorted_wrt (<) (unique_ids info cs)"
      "\<forall>c \<in> set (unique_ids info cs). u_count info + 1 \<le> c" by auto
    have "\<forall>c \<in> set (unique_ids info cs). u_count info < c \<and> u_count info \<le> c"
      using d(3) le(2) by (meson order_less_imp_le order_less_le_trans)
    with c d Cons.prems(2) show ?thesis by auto
  qed
qed

text \<open>
  (C28) Contents without duplicates never repeat: in every sequence of writes of a process,
  whatever the random numbers, the search succeeds, the contents are either indices of
  duplicated contents or identifiers from the counter, and the latter are pairwise different and
  different from every duplicated content.
\<close>

theorem unique_contents_never_repeat:
  assumes "dist_ok info" and "u_count info = duplicated_blocks info + 1"
    and "unat (duplicated_blocks info) + 1 + length rs < 2 ^ 64" and "\<forall>r \<in> set rs. r < 2 ^ 64"
  shows "\<exists>cs info'. draws info rs = Inr (cs, info') \<and>
    distinct (filter (\<lambda>c. duplicated_blocks info \<le> c) cs) \<and>
    (\<forall>c \<in> set cs. duplicated_blocks info \<le> c \<longrightarrow> duplicated_blocks info < c)"
proof -
  have u: "unat (u_count info) = unat (duplicated_blocks info) + 1"
    using unat_add_of_nat [of "duplicated_blocks info" 1] assms(2,3) by simp
  then have "duplicated_blocks info \<le> u_count info" "duplicated_blocks info < u_count info"
    by (simp_all add: word_le_nat_alt word_less_nat_alt)
  moreover from this u draws_total [OF assms(1), of rs] assms(3,4) obtain cs u' where
    "draws info rs = Inr (cs, info\<lparr>u_count := u'\<rparr>)" "sorted_wrt (<) (unique_ids info cs)"
    "\<forall>c \<in> set (unique_ids info cs). u_count info \<le> c" by auto
  ultimately show ?thesis
    by (auto simp: strict_sorted_iff intro: order_less_le_trans)
qed

section \<open>Blocks pass their check\<close>

lemma show_u64_token: "show_u64 w \<noteq> []" "BLANK \<notin> set (show_u64 w)" "NUL \<notin> set (show_u64 w)"
  using show_nat_digits [of "unat w"] digit_not_special by (auto simp: show_u64_def)

lemma show_int_token:
  "show_int i \<noteq> []" "BLANK \<notin> set (show_int i)" "NUL \<notin> set (show_int i)"
  using show_nat_digits digit_not_special by (auto simp: show_int_def)

lemma atoll_show_u64: "w < 2 ^ 63 \<Longrightarrow> word_of_int (atoll (show_u64 w)) = w"
  using strtol_show_nat [of "unat w" 64] by (simp add: atoll_def show_u64_def word_less_nat_alt)

lemma atoi_show_int: "0 \<le> i \<Longrightarrow> i < 2 ^ 31 \<Longrightarrow> atoi (show_int i) = i"
  using strtol_show_nat [of "nat i" 64]
  by (simp add: atoi_def show_int_def nat_less_iff signed_of_int signed_take_bit_int_eq_self)

lemma header_tokens:
  "strtok_all (show_u64 c @ '' pid '' @ show_int p @ '' time '' @ show_u64 t @ '' '') =
     [show_u64 c, ''pid'', show_int p, ''time'', show_u64 t]"
  "strtok_all (show_u64 c @ '' '') = [show_u64 c]"
proof -
  have 1: "strtok_all (show_u64 w @ BLANK # s) = show_u64 w # strtok_all s" for w s
    using show_u64_token by (intro strtok_all_token)
  have 2: "strtok_all (show_int i @ BLANK # s) = show_int i # strtok_all s" for i s
    using show_int_token by (intro strtok_all_token)
  have 3: "strtok_all (''pid'' @ BLANK # s) = ''pid'' # strtok_all s" "strtok_all (''time'' @ BLANK # s) = ''time'' # strtok_all s" for s
    by (rule strtok_all_token; simp)+
  show "strtok_all (show_u64 c @ '' pid '' @ show_int p @ '' time '' @ show_u64 t @ '' '') =
     [show_u64 c, ''pid'', show_int p, ''time'', show_u64 t]"
    using 1 2 3 [simplified] by simp
  show "strtok_all (show_u64 c @ '' '') = [show_u64 c]" using 1 [of c "[]"] by simp
qed

lemma number_tokens:
  "show_u64 w \<noteq> ''pid''" "show_u64 w \<noteq> ''time''" "show_int i \<noteq> ''pid''" "show_int i \<noteq> ''time''"
proof -
  have digits: "show_nat n \<noteq> ''pid''" "show_nat n \<noteq> ''time''" for n
    using show_nat_digits [of n] by (auto simp: is_digit_def)
  then show "show_u64 w \<noteq> ''pid''" "show_u64 w \<noteq> ''time''" "show_int i \<noteq> ''pid''" "show_int i \<noteq> ''time''"
    by (simp_all add: show_u64_def show_int_def)
qed

definition block_ok :: "block_info \<Rightarrow> bool" where
  \<comment> \<open>the values the benchmark writes into headers: process identifiers and numbers that \<^verbatim>\<open>atoll\<close>
     reads back\<close>
  "block_ok b \<longleftrightarrow> cont_id b < 2 ^ 63 \<and> (procid b = -1 \<or> 0 \<le> procid b \<and> procid b < 2 ^ 31 \<and> ts b < 2 ^ 63)"

lemma header_no_NUL: "NUL \<notin> set (block_header b)"
  using show_u64_token(3) show_int_token(3) by (auto simp: block_header_def)

lemma check_header:
  assumes "block_ok b"
  shows "\<exists>st. check_tokens (strtok_all (block_header b)) \<lparr>ck_contwrites = None, ck_pids = -1, ck_times = None\<rparr> = Inr st \<and>
    (case ck_contwrites st of None \<Rightarrow> False | Some c \<Rightarrow>
      block_header b = (case ck_times st of
          Some t \<Rightarrow> if ck_pids st \<ge> 0
            then show_u64 c @ '' pid '' @ show_int (ck_pids st) @ '' time '' @ show_u64 t @ '' '' else show_u64 c @ '' ''
        | None \<Rightarrow> show_u64 c @ '' ''))"
proof (cases "procid b = -1")
  case True
  with assms show ?thesis
    by (simp add: block_header_def header_tokens atoll_show_u64 block_ok_def number_tokens)
next
  case False
  with assms have "0 \<le> procid b" "procid b < 2 ^ 31" "ts b < 2 ^ 63" "cont_id b < 2 ^ 63"
    by (simp_all add: block_ok_def)
  then show ?thesis using False header_tokens(1) [of "cont_id b" "procid b" "ts b"]
    by (simp add: block_header_def atoll_show_u64 atoi_show_int number_tokens)
qed

lemma sprintf_at_Inr:
  "sprintf_at buf text = Inr r \<Longrightarrow> length text < length buf \<and> r = text @ NUL # drop (Suc (length text)) buf"
  by (auto simp: sprintf_at_def blit_def split: if_splits)

text \<open>
  (C29) Generated blocks pass their check. A block that is generated for a content, with or
  without process and time, is accepted by the check that parses the header and rebuilds the
  block, and comparing it with the content it was generated for reports no error.
\<close>

theorem generated_block_checks:
  assumes "block_ok b" and "get_block_content b n = Inr buf"
  shows "check_block_content buf = Inr 0 \<and> compare_blocks buf b final_check = Inr (0, [])"
proof -
  let ?as = "replicate n (CHR ''a'')"
  from assms(2) have fit: "length (block_header b) < n" "buf = block_header b @ NUL # drop (Suc (length (block_header b))) ?as"
    by (auto simp: get_block_content_def dest: sprintf_at_Inr)
  have len: "length buf = n" using fit by simp
  have tw: "takeWhile (\<lambda>c. c \<noteq> NUL) buf = block_header b"
  proof -
    have "\<forall>c \<in> set (block_header b). c \<noteq> NUL" using header_no_NUL [of b] by auto
    then show ?thesis by (simp add: fit(2))
  qed
  have nul: "NUL \<in> set buf" using fit(2) by simp
  from check_header [OF assms(1)] obtain st where
    tok: "check_tokens (strtok_all (block_header b)) \<lparr>ck_contwrites = None, ck_pids = -1, ck_times = None\<rparr> = Inr st"
    and rebuilt: "case ck_contwrites st of None \<Rightarrow> False | Some c \<Rightarrow>
      block_header b = (case ck_times st of
          Some t \<Rightarrow> if ck_pids st \<ge> 0
            then show_u64 c @ '' pid '' @ show_int (ck_pids st) @ '' time '' @ show_u64 t @ '' '' else show_u64 c @ '' ''
        | None \<Rightarrow> show_u64 c @ '' '')" by blast
  from rebuilt obtain c where c: "ck_contwrites st = Some c" by (cases "ck_contwrites st") simp_all
  note hd = rebuilt [unfolded c option.case, symmetric]
  have "sprintf_at ?as (block_header b) = Inr buf" using assms(2) by (simp add: get_block_content_def)
  then have "check_block_content buf = Inr 0"
    using nul len unfolding check_block_content_def tw tok rbind_simps c option.case Let_def hd by simp
  moreover have "compare_blocks buf b final_check = Inr (0, [])"
    using assms(2) len by (simp add: compare_blocks_def)
  ultimately show ?thesis by blast
qed

section \<open>The two passes over the distribution file agree\<close>

function parse_all :: "string \<Rightarrow> string \<Rightarrow> (u64 \<times> u64) list res" where
  \<comment> \<open>all lines of the file: occurrences and numbers of blocks\<close>
  "parse_all line fl =
     (if fl = [] then Inr []
      else let line' = blit 0 (fst (fgets 50 fl) @ [NUL]) line in
        rbind (parse_line line') (\<lambda>p.
        rbind (parse_all line' (snd (fgets 50 fl))) (\<lambda>ps. Inr (p # ps))))"
  by pat_completeness auto
termination
  by (relation "measure (\<lambda>(line, fl). length fl)") (auto intro: fgets_shorter)

declare parse_all.simps [simp del]

fun fold_res :: "(u64 \<Rightarrow> u64 \<Rightarrow> 'a \<Rightarrow> 'a res) \<Rightarrow> (u64 \<times> u64) list \<Rightarrow> 'a \<Rightarrow> 'a res" where
  "fold_res step [] st = Inr st"
| "fold_res step ((dn, nb) # ls) st = rbind (step dn nb st) (fold_res step ls)"

lemma read_lines_fold:
  assumes "parse_all line fl = Inr ls"
  shows "read_lines step line fl st = fold_res step ls st"
  using assms
proof (induction line fl arbitrary: ls st rule: parse_all.induct)
  case (1 line fl)
  show ?case
  proof (cases "fl = []")
    case True
    with 1(2) show ?thesis by (simp add: parse_all.simps read_lines.simps)
  next
    case False
    let ?line = "blit 0 (fst (fgets 50 fl) @ [NUL]) line"
    from False 1(2) obtain dn nb ps where
      p: "parse_line ?line = Inr (dn, nb)" "parse_all ?line (snd (fgets 50 fl)) = Inr ps" "ls = (dn, nb) # ps"
      by (subst (asm) parse_all.simps) (auto simp: rbind_Inr_iff Let_def)
    note IH = 1(1) [OF False refl p(2)]
    have ext: "rbind (step dn nb st) (\<lambda>st'. read_lines step ?line (snd (fgets 50 fl)) st') = rbind (step dn nb st) (fold_res step ps)"
      using IH by (cases "step dn nb st") simp_all
    show ?thesis using False p ext by (subst read_lines.simps) (simp add: Let_def)
  qed
qed

definition expand :: "(u64 \<times> u64) list \<Rightarrow> u64 list" where
  \<comment> \<open>one entry for every content that has duplicates: its number of occurrences\<close>
  "expand ls = concat (map (\<lambda>(dn, nb). if dn > 1 then replicate (unat nb) dn else []) ls)"

lemma expand_Cons: "expand ((dn, nb) # ls) = (if dn > 1 then replicate (unat nb) dn else []) @ expand ls"
  by (simp add: expand_def)

definition blocks_of :: "(u64 \<times> u64) list \<Rightarrow> nat" where
  "blocks_of ls = sum_list (map (\<lambda>(dn, nb). unat nb * unat dn) ls)"

lemma above_one: "(1 :: u64) < dn \<longleftrightarrow> dn \<noteq> 0 \<and> dn \<noteq> 1"
  proof -
  have "dn \<noteq> 0 \<and> dn \<noteq> 1 \<longleftrightarrow> unat dn \<noteq> 0 \<and> unat dn \<noteq> 1"
    by (metis unsigned_0 unsigned_1 unsigned_word_eqI)
  then show ?thesis by (auto simp: word_less_nat_alt)
qed

lemma stats_fold:
  assumes "\<forall>(dn, nb) \<in> set ls. dn \<noteq> 0"
    and "unat (duplicated_blocks info) + length (expand ls) < 2 ^ 64"
    and "unat (total_blocks info) + blocks_of ls < 2 ^ 64"
  shows "\<exists>info'. fold_res stats_step ls info = Inr info' \<and>
    unat (duplicated_blocks info') = unat (duplicated_blocks info) + length (expand ls) \<and>
    unat (total_blocks info') = unat (total_blocks info) + blocks_of ls \<and>
    di_stats info' = di_stats info \<and> di_sum info' = di_sum info \<and> di_statistics info' = di_statistics info"
  using assms
proof (induction ls arbitrary: info)
  case Nil
  then show ?case by (simp add: expand_def blocks_of_def)
next
  case (Cons l ls)
  obtain dn nb where l: "l = (dn, nb)" by (cases l)
  define info1 where "info1 = (if dn = 1 then info\<lparr>zero_copy_blocks := nb\<rparr>
      else info\<lparr>duplicated_blocks := duplicated_blocks info + nb\<rparr>)\<lparr>total_blocks := total_blocks info + nb * dn\<rparr>"
  have step: "stats_step dn nb info = Inr info1" by (simp add: stats_step_def info1_def Let_def)
  have dn: "dn \<noteq> 0" "dn > 1 \<longleftrightarrow> dn \<noteq> 1" using Cons.prems(1) l by (auto simp: above_one)
  have dup: "unat (duplicated_blocks info1) = unat (duplicated_blocks info) + (if dn = 1 then 0 else unat nb)"
    using Cons.prems(2) dn unat_add_of_nat [of "duplicated_blocks info" "unat nb"]
    by (auto simp: l expand_Cons info1_def)
  have bo: "blocks_of (l # ls) = unat nb * unat dn + blocks_of ls" by (simp add: blocks_of_def l)
  have "unat (nb * dn) = unat nb * unat dn"
    using Cons.prems(3) bo by (intro unat_mult_small) simp
  then have tot: "unat (total_blocks info1) = unat (total_blocks info) + unat nb * unat dn"
    using Cons.prems(3) bo unat_add_of_nat [of "total_blocks info" "unat (nb * dn)"] by (simp add: info1_def)
  have len: "length (expand (l # ls)) = (if dn = 1 then 0 else unat nb) + length (expand ls)"
    using dn by (simp add: l expand_Cons)
  have other: "di_stats info1 = di_stats info" "di_sum info1 = di_sum info" "di_statistics info1 = di_statistics info"
    by (simp_all add: info1_def)
  have "unat (duplicated_blocks info1) + length (expand ls) < 2 ^ 64" "unat (total_blocks info1) + blocks_of ls < 2 ^ 64"
    using Cons.prems(2,3) dup tot bo len by simp_all
  with Cons.IH [of info1] Cons.prems(1) obtain info' where
    "fold_res stats_step ls info1 = Inr info'"
    "unat (duplicated_blocks info') = unat (duplicated_blocks info1) + length (expand ls)"
    "unat (total_blocks info') = unat (total_blocks info1) + blocks_of ls"
    "di_stats info' = di_stats info1" "di_sum info' = di_sum info1" "di_statistics info' = di_statistics info1" by auto
  with step dup tot bo len other show ?case by (intro exI [of _ info']) (simp add: l del: One_nat_def)
qed

lemma store_run_blit:
  "pos + n \<le> length st \<Longrightarrow> store_run n dn (pos, st) = Inr (pos + n, blit pos (replicate n dn) st)"
proof (induction n arbitrary: pos st)
  case (Suc n)
  have "blit (Suc pos) (replicate n dn) (st[pos := dn]) = blit pos (dn # replicate n dn) st"
    using Suc.prems by (intro nth_equalityI) (auto simp: nth_blit nth_Cons' nth_list_update)
  with Suc show ?case by simp
qed simp

lemma load_fold:
  "pos + length (expand ls) \<le> length st \<Longrightarrow>
   fold_res load_step ls (pos, st) = Inr (pos + length (expand ls), blit pos (expand ls) st)"
proof (induction ls arbitrary: pos st)
  case Nil
  then show ?case by (simp add: expand_def)
next
  case (Cons l ls)
  obtain dn nb where l: "l = (dn, nb)" by (cases l)
  show ?case
  proof (cases "dn > 1")
    case True
    let ?run = "replicate (unat nb) dn"
    have "blit (pos + unat nb) (expand ls) (blit pos ?run st) = blit pos (?run @ expand ls) st"
      using blit_append [of pos ?run "expand ls" st] Cons.prems True by (simp add: l expand_Cons)
    with True Cons show ?thesis by (simp add: l expand_Cons load_step_def store_run_blit add.assoc)
  next
    case False
    with Cons show ?thesis by (simp add: l expand_Cons load_step_def)
  qed
qed

lemma psum_expand: "psum (expand ls) (length (expand ls)) \<le> blocks_of ls"
proof (induction ls)
  case Nil
  show ?case by (simp add: expand_def psum_def)
next
  case (Cons l ls)
  then show ?case by (cases l) (auto simp: psum_def expand_Cons blocks_of_def sum_list_replicate)
qed

lemma expand_positive: "x \<in> set (expand ls) \<Longrightarrow> 0 < x"
  by (auto simp: expand_def word_less_nat_alt split: if_splits)

definition memory_available :: "shm_os \<Rightarrow> user_confs \<Rightarrow> u64 \<Rightarrow> bool" where
  \<comment> \<open>if the configuration needs shared memory, the operating system provides it\<close>
  "memory_available os conf d \<longleftrightarrow> (distout conf = 1 \<or> integrity conf \<ge> 1 \<or> fault_measure conf > 0 \<longrightarrow>
     os_open os \<noteq> -1 \<and>
     to_int (os_lseek os (8 * (d * 3 + 1) + 24 * (totblocks conf * word_of_int (shm_procs conf)) - 1)) \<noteq> -1 \<and>
     os_write os = 1 \<and> \<not> os_mmap_failed os \<and> 3 * unat d \<le> length (os_words os) \<and> 24 * unat d < 2 ^ 64)"

definition arrays_ready :: "int \<Rightarrow> duplicates_info \<Rightarrow> duplicates_info \<Rightarrow> bool" where
  "arrays_ready dist_out info info' \<longleftrightarrow> length (di_stats info') = unat (duplicated_blocks info) \<and>
     length (di_sum info') = unat (duplicated_blocks info) \<and>
     (dist_out = 1 \<longrightarrow> length (di_statistics info') = unat (duplicated_blocks info)) \<and>
     duplicated_blocks info' = duplicated_blocks info \<and> total_blocks info' = total_blocks info \<and> u_count info' = u_count info"

lemma loadmmap_arrays:
  assumes "memory_available os conf (duplicated_blocks info)"
    and "distout conf = 1 \<or> integrity conf \<ge> 1 \<or> fault_measure conf > 0"
  shows "\<exists>lay info'. loadmmap os info conf = Inr (lay, info') \<and> arrays_ready dist_out info info'"
proof -
  let ?d = "duplicated_blocks info"
  have os: "os_open os \<noteq> -1" "os_write os = 1" "\<not> os_mmap_failed os" "3 * unat ?d \<le> length (os_words os)" "24 * unat ?d < 2 ^ 64"
    "to_int (os_lseek os (8 * (?d * 3 + 1) + 24 * (totblocks conf * word_of_int (shm_procs conf)) - 1)) \<noteq> -1"
    using assms by (auto simp: memory_available_def)
  have "unat (8 * ?d) = 8 * unat ?d"
    using os(5) unat_of_nat_small [of "8 * unat ?d", where 'a = 64] by (simp only: word_of_nats) simp
  moreover have "unat (8 * ?d + 8 * ?d) = 16 * unat ?d" unfolding shm_word_arith
    using os(5) unat_of_nat_small [of "16 * unat ?d", where 'a = 64] by (simp only: word_of_nats) simp
  ultimately show ?thesis using os by (simp add: loadmmap_def Let_def arrays_ready_def)
qed

lemma memory_ready:
  assumes "memory_available os conf (duplicated_blocks info)"
  shows "\<exists>info'. (if distout conf = 1 \<or> integrity conf \<ge> 1 \<or> fault_measure conf > 0
            then map_sum id snd (loadmmap os info conf)
            else Inr (snd (loadmem junk junk' info))) = Inr info' \<and> arrays_ready (distout conf) info info'"
proof (cases "distout conf = 1 \<or> integrity conf \<ge> 1 \<or> fault_measure conf > 0")
  case True
  then show ?thesis using loadmmap_arrays [OF assms True, of "distout conf"] by auto
next
  case False
  then show ?thesis by (auto simp: loadmem_def arrays_ready_def Let_def)
qed

lemma load_distribution_lines:
  assumes "parse_all (replicate 50 NUL) txt = Inr ls" and "\<forall>(dn, nb) \<in> set ls. dn \<noteq> 0"
    and "expand ls \<noteq> []" and "length (expand ls) < 2 ^ 31" and "blocks_of ls < 2 ^ 64"
    and "duplicated_blocks info = 0" and "total_blocks info = 0"
    and "memory_available os conf (word_of_nat (length (expand ls)))"
  shows "\<exists>info'. load_distribution os junk junk' (Some txt) conf info = Inr info' \<and> dist_ok info' \<and>
    di_stats info' = expand ls \<and> unat (total_blocks info') = blocks_of ls \<and>
    u_count info' = duplicated_blocks info' + 1 \<and>
    psum (di_stats info') (length (di_stats info')) \<le> unat (total_blocks info')"
proof -
  obtain info0 where info0: "fold_res stats_step ls info = Inr info0"
    "unat (duplicated_blocks info0) = length (expand ls)" "unat (total_blocks info0) = blocks_of ls"
    using stats_fold [OF assms(2), of info] assms(4-7) by auto
  define info1 where "info1 = info0\<lparr>u_count := duplicated_blocks info0 + 1\<rparr>"
  have first: "get_distribution_stats info (Some txt) = Inr info1"
    using read_lines_fold [OF assms(1), of stats_step info] info0(1) by (simp add: get_distribution_stats_def info1_def)
  have dup: "duplicated_blocks info1 = word_of_nat (length (expand ls))"
    using info0(2) word_of_unat [of "duplicated_blocks info0"] by (simp add: info1_def)
  from memory_ready [of os conf info1 junk junk'] assms(8) dup obtain info2 where
    memory: "(if distout conf = 1 \<or> integrity conf \<ge> 1 \<or> fault_measure conf > 0
            then map_sum id snd (loadmmap os info1 conf)
            else Inr (snd (loadmem junk junk' info1))) = Inr info2" and
    ready: "arrays_ready (distout conf) info1 info2" by auto
  have len: "length (di_stats info2) = length (expand ls)" "unat (duplicated_blocks info1) = length (expand ls)"
    using ready info0(2) by (simp_all add: arrays_ready_def info1_def)
  define info3 where "info3 = info2\<lparr>di_stats := expand ls\<rparr>"
  have "blit 0 (expand ls) (di_stats info2) = expand ls" using len by (simp add: blit_def)
  then have second: "load_duplicates info2 (Some txt) = Inr info3"
    using read_lines_fold [OF assms(1), of load_step "(0, di_stats info2)"] load_fold [of 0 ls "di_stats info2"] len
    by (simp add: load_duplicates_def info3_def)
  have small: "psum (expand ls) (length (expand ls)) < 2 ^ 64" using psum_expand [of ls] assms(5) by linarith
  have info3: "duplicated_blocks info3 = duplicated_blocks info1" "total_blocks info3 = total_blocks info0"
    "u_count info3 = duplicated_blocks info1 + 1" "di_stats info3 = expand ls"
    "length (di_sum info3) = length (expand ls)" "distout conf = 1 \<longrightarrow> length (di_statistics info3) = length (expand ls)"
    using ready len by (auto simp: arrays_ready_def info3_def info1_def)
  have "0 < duplicated_blocks info3" using len(2) assms(3) by (simp add: info3(1) word_less_nat_alt)
  with load_cumulativedist_correct [of info3 "distout conf"] info3 len small obtain info' where
    third: "load_cumulativedist info3 (distout conf) = Inr info'" "accumulated info'" "di_stats info' = expand ls"
    "duplicated_blocks info' = duplicated_blocks info1" "total_blocks info' = total_blocks info0"
    "u_count info' = duplicated_blocks info1 + 1" by auto
  have "dist_ok info'" using third small assms(4) expand_positive by (auto simp: dist_ok_def)
  moreover have "load_distribution os junk junk' (Some txt) conf info = Inr info'"
    using first memory second third(1) by (simp add: load_distribution_def)
  ultimately show ?thesis using third info0(3) psum_expand [of ls] by auto
qed

text \<open>
  (C13) Loading a duplicate distribution. For a file of well-formed lines whose numbers of
  blocks fit 64 bits, with at least one content that has duplicates, the four steps of \<^verbatim>\<open>main\<close>
  succeed without an access out of bounds. The two passes over the file agree: the second one
  fills the array that the first one measured exactly, with one entry per content that has
  duplicates, the accumulated array is correct, the number of blocks is the sum over the lines,
  and the identifiers of contents without duplicates start above those with duplicates.
\<close>

theorem distribution_loaded:
  assumes "parse_all (replicate 50 NUL) txt = Inr ls" and "\<forall>(dn, nb) \<in> set ls. dn \<noteq> 0"
    and "expand ls \<noteq> []" and "length (expand ls) < 2 ^ 31" and "blocks_of ls < 2 ^ 64"
    and "duplicated_blocks info = 0" and "total_blocks info = 0"
    and "memory_available os conf (word_of_nat (length (expand ls)))"
  shows "\<exists>info'. load_distribution os junk junk' (Some txt) conf info = Inr info' \<and> dist_ok info' \<and>
    di_stats info' = expand ls \<and> unat (total_blocks info') = blocks_of ls \<and>
    u_count info' = duplicated_blocks info' + 1 \<and>
    psum (di_stats info') (length (di_stats info')) \<le> unat (total_blocks info')"
  by (rule load_distribution_lines [OF assms])

section \<open>Concrete evaluations\<close>

abbreviation demo_file :: string where
  \<comment> \<open>two contents with one duplicate each, five without duplicates\<close>
  "demo_file \<equiv> ''1 2'' @ [NEWLINE] @ ''0 5'' @ [NEWLINE]"

lemma demo_file_lines: "parse_all (replicate 50 NUL) demo_file = Inr [(2, 2), (1, 5)]"
  by code_simp

theorem distribution_loaded_witness:
  "\<exists>info'. load_distribution good_os (\<lambda>_. 0) (\<lambda>_. 0) (Some demo_file) (initial_conf 0) empty_info = Inr info' \<and>
    dist_ok info' \<and> di_stats info' = [2, 2] \<and> unat (total_blocks info') = 9"
proof -
  have "expand [(2, 2), (1, 5)] = [2, 2]" by code_simp
  moreover have "blocks_of [(2, 2), (1, 5)] = 9" by code_simp
  ultimately show ?thesis
    using distribution_loaded [OF demo_file_lines, of empty_info good_os "initial_conf 0" "\<lambda>_. 0" "\<lambda>_. 0"]
    by (simp add: memory_available_def initial_conf_def) blast
qed

abbreviation demo_info :: duplicates_info where
  "demo_info \<equiv> empty_info\<lparr>duplicated_blocks := 2, total_blocks := 9, di_stats := [2, 2], di_sum := [2, 4], u_count := 3\<rparr>"

lemma demo_info_ok: "dist_ok demo_info"
  by (simp add: dist_ok_def accumulated_def psum_def All_less_Suc)

theorem content_share_witness:
  "card {r. r < 9 \<and> content_for demo_info (word_of_nat r) = Inr (1, demo_info)} = 2"
  using content_share [OF demo_info_ok, of 1] by (simp add: psum_def)

theorem unique_contents_never_repeat_witness:
  "\<exists>cs info'. draws demo_info [1, 5, 3, 8] = Inr (cs, info') \<and> distinct (filter (\<lambda>c. 2 \<le> c) cs)"
  using unique_contents_never_repeat [OF demo_info_ok, of "[1, 5, 3, 8]"] by auto

theorem generated_block_checks_witness:
  "\<exists>buf. get_block_content \<lparr>cont_id = 7, procid = 2, ts = 99\<rparr> 40 = Inr buf \<and> check_block_content buf = Inr 0 \<and>
    compare_blocks buf \<lparr>cont_id = 7, procid = 2, ts = 99\<rparr> 1 = Inr (0, [])"
proof -
  let ?b = "\<lparr>cont_id = 7, procid = 2, ts = 99\<rparr>"
  have "block_ok ?b" by (simp add: block_ok_def)
  moreover have "length (block_header ?b) < 40" by code_simp
  then obtain buf where "get_block_content ?b 40 = Inr buf" by (simp add: get_block_content_def sprintf_at_def)
  ultimately show ?thesis using generated_block_checks [of ?b 40 buf 1] by blast
qed

section \<open>The output distribution\<close>

definition db_value :: "print_db \<Rightarrow> u64 \<Rightarrow> u64" where
  "db_value db k = (case db k of None \<Rightarrow> 0 | Some c \<Rightarrow> c)"

lemma db_value_bump: "db_value (bump_db db k n) j = db_value db j + (if j = k then n else 0)"
  by (simp add: db_value_def bump_db_def split: option.split)

lemma outputdist_loop_counts:
  assumes "outputdist_loop xs i zero db = (ls, zero', db')"
  shows "zero' = zero + word_of_nat (count_list xs 1) \<and> db_value db' 0 = db_value db 0 \<and>
    (\<forall>k. k \<noteq> 0 \<and> k + 1 \<noteq> 0 \<longrightarrow> db_value db' k = db_value db k + word_of_nat (count_list xs (k + 1))) \<and>
    ls = filter (\<lambda>(j, x). 0 < x) (zip [i..<i + length xs] xs)"
  using assms
proof (induction xs arbitrary: i zero db ls zero' db')
  case (Cons x xs)
  let ?zero = "if x = 1 then zero + 1 else zero" and ?db = "if x > 1 then bump_db db (x - 1) 1 else db"
  obtain ls1 where rest: "outputdist_loop xs (Suc i) ?zero ?db = (ls1, zero', db')"
    and ls: "ls = (if x = 1 \<or> x > 1 then (i, x) # ls1 else ls1)"
    using Cons.prems by (auto simp: Let_def split: prod.splits)
  note IH = Cons.IH [OF rest]
  have pos: "x = 1 \<or> x > 1 \<longleftrightarrow> 0 < x" by (auto simp: above_one word_gt_0)
  have "db_value ?db 0 = db_value db 0" by (auto simp: db_value_bump)
  moreover have "db_value ?db k + word_of_nat (count_list xs (k + 1)) = db_value db k + word_of_nat (count_list (x # xs) (k + 1))"
    if "k \<noteq> 0" "k + 1 \<noteq> 0" for k
  proof -
    have "(1 < x \<and> k = x - 1) = (x = k + 1)" using that by (auto simp: above_one)
    then show ?thesis by (auto simp: db_value_bump)
  qed
  moreover have "[i..<i + length (x # xs)] = i # [Suc i..<Suc i + length xs]"
    using upt_rec [of i "i + length (x # xs)"] by simp
  ultimately show ?case using IH ls pos by (auto simp: add.assoc simp del: upt_Suc)
qed simp



end
