(* ===== verification/Dedis_Populate_Correct.thy ===== *)
theory Dedis_Populate_Correct
  imports Dedis_Populate Dedis_Dup_Correct
begin

text \<open>
  Populating a file and checking it afterwards: the loops end, every block of the file is the one
  the content tracker has for it, and the final integrity check reports no error.
\<close>

section \<open>Blocks that are generated\<close>

lemma length_show_u64: "length (show_u64 w) \<le> 20"
proof -
  have "unat w < 2 ^ 64" using unat_less [of w] by simp
  then show ?thesis unfolding show_u64_def by (intro length_show_nat) simp_all
qed

lemma header_fits:
  assumes "0 \<le> procid b \<and> procid b < 2 ^ 31 \<or> procid b = -1"
  shows "length (block_header b) < 64"
proof -
  have "length (show_int (procid b)) \<le> 10" if "0 \<le> procid b" "procid b < 2 ^ 31"
    using that length_show_nat [of "nat (procid b)" 10] by (simp add: show_int_def)
  with assms length_show_u64 [of "cont_id b"] length_show_u64 [of "ts b"] show ?thesis
    by (auto simp: block_header_def)
qed

definition dist_ready :: "duplicates_info \<Rightarrow> bool" where
  "dist_ready info \<longleftrightarrow> dist_ok info \<and> 0 < total_blocks info \<and> total_blocks info < 2 ^ 63"

lemma dist_ok_frame [simp]:
  "dist_ok (info\<lparr>zerodups := z\<rparr>) = dist_ok info" "dist_ok (info\<lparr>di_statistics := st\<rparr>) = dist_ok info"
  "dist_ok (info\<lparr>content_tracker := ct\<rparr>) = dist_ok info" "dist_ok (info\<lparr>topblock := t\<rparr>) = dist_ok info"
  "dist_ok (info\<lparr>topblock_dups := n\<rparr>) = dist_ok info" "dist_ok (info\<lparr>botblock := t\<rparr>) = dist_ok info"
  "dist_ok (info\<lparr>botblock_dups := n\<rparr>) = dist_ok info"
  by (simp_all add: dist_ok_def accumulated_def)

lemma get_contentid_total:
  assumes "dist_ready info"
  obtains c u s' where "get_contentid g s info = Some (Inr (c, info\<lparr>u_count := u\<rparr>, s'))"
proof -
  obtain r s' where r: "genrand g s (total_blocks info) = Some (Inr (r, s'))"
  proof -
    have "genrand g s (total_blocks info) = Some (Inr (ucast (fst (gen_rand32 g s)) mod total_blocks info, snd (gen_rand32 g s)))"
      using assms by (auto simp: genrand_draw dist_ready_def)
    then show ?thesis by (rule that)
  qed
  have w: "word_of_nat (unat r) = r" "unat r < 2 ^ 64" using unat_less [of r] by (simp_all add: word_of_unat)
  show ?thesis
  proof (cases "unat r < psum (di_stats info) (length (di_stats info))")
    case True
    from content_for_duplicate [OF _ this] assms w(1) obtain i where "content_for info r = Inr (word_of_nat i, info)"
      by (auto simp: dist_ready_def)
    then show ?thesis using r that [of "word_of_nat i" "u_count info" s'] by (simp add: get_contentid_def)
  next
    case False
    from content_for_unique [OF _ this w(2)] assms w(1)
    have "content_for info r = Inr (u_count info, info\<lparr>u_count := u_count info + 1\<rparr>)" by (simp add: dist_ready_def)
    then show ?thesis using r that by (simp add: get_contentid_def)
  qed
qed

lemma get_writecontent_total:
  assumes "dist_ready info" and "64 \<le> unat (block_size conf)" and "0 \<le> p" and "p < 2 ^ 31"
  obtains buf u z stat' b s' where
    "get_writecontent g s t conf info stat p = Some (Inr (buf, info\<lparr>u_count := u, zerodups := z\<rparr>, stat', b, s'))"
    "get_block_content b (unat (block_size conf)) = Inr buf" "length buf = unat (block_size conf)"
proof -
  obtain c u s' where c: "get_contentid g s info = Some (Inr (c, info\<lparr>u_count := u\<rparr>, s'))"
    by (rule get_contentid_total [OF assms(1)])
  define b where "b = (if c \<ge> duplicated_blocks info then \<lparr>cont_id = c, procid = p, ts = t\<rparr> else \<lparr>cont_id = c, procid = -1, ts = -1\<rparr>)"
  have "length (block_header b) < unat (block_size conf)"
    using header_fits [of b] assms(2-4) by (auto simp: b_def)
  then obtain buf where buf: "get_block_content b (unat (block_size conf)) = Inr buf" "length buf = unat (block_size conf)"
    by (simp add: get_block_content_def sprintf_at_def)
  have same: "info\<lparr>u_count := u, zerodups := zerodups info\<rparr> = info\<lparr>u_count := u\<rparr>" by simp
  show ?thesis
  proof (cases "c \<ge> duplicated_blocks info")
    case True
    with c buf assms(3) show ?thesis
      by (intro that [where buf = buf and u = u and z = "if distout conf = 1 then zerodups info + 1 else zerodups info" and b = b and s' = s'])
        (simp_all add: get_writecontent_def b_def get_block_content_def block_header_def)
  next
    case False
    with c buf show ?thesis
      by (intro that [where buf = buf and u = u and z = "zerodups info" and b = b and s' = s'])
        (simp_all add: get_writecontent_def b_def get_block_content_def block_header_def)
  qed
qed

section \<open>Damaged headers\<close>

text \<open>
  A block whose content number is replaced by other digits still has a header that the check can
  read, so that comparing it reports the error instead of leaving the buffer.
\<close>

definition header_tail :: "block_info \<Rightarrow> string" where
  "header_tail b = (if procid b \<noteq> -1 then '' pid '' @ show_int (procid b) @ '' time '' @ show_u64 (ts b) @ '' '' else '' '')"

lemma block_header_tail: "block_header b = show_u64 (cont_id b) @ header_tail b"
  by (simp add: block_header_def header_tail_def)

lemma tail_tokens:
  assumes "num \<noteq> []" and "BLANK \<notin> set num"
  shows "strtok_all (num @ header_tail b) =
    num # (if procid b \<noteq> -1 then [''pid'', show_int (procid b), ''time'', show_u64 (ts b)] else [])"
proof -
  note num = strtok_all_token [OF assms]
  have words: "strtok_all (show_int i @ BLANK # s) = show_int i # strtok_all s" "strtok_all (show_u64 w @ BLANK # s) = show_u64 w # strtok_all s"
    "strtok_all (''pid'' @ BLANK # s) = ''pid'' # strtok_all s" "strtok_all (''time'' @ BLANK # s) = ''time'' # strtok_all s" for i w s
    using show_int_token show_u64_token by (auto intro!: strtok_all_token)
  show ?thesis
  proof (cases "procid b = -1")
    case True
    then show ?thesis using num [of "[]"] by (simp add: header_tail_def)
  next
    case False
    then have "num @ header_tail b =
        num @ BLANK # (''pid'' @ BLANK # (show_int (procid b) @ BLANK # (''time'' @ BLANK # (show_u64 (ts b) @ BLANK # []))))"
      by (simp add: header_tail_def)
    then show ?thesis using False by (simp only: num words strtok_on.simps(1)) simp
  qed
qed

lemma atoi_bound: "atoi s < 2 ^ 31"
  using sint_lt [of "word_of_int (strtol 64 s) :: 32 word"] by (simp add: atoi_def)

lemma check_numbered_block:
  assumes "num \<noteq> []" and "\<forall>c \<in> set num. is_digit c" and "64 \<le> length buf" and "buf = num @ header_tail b @ NUL # rest"
  shows "\<exists>i. check_block_content buf = Inr i"
proof -
  have special: "BLANK \<notin> set num" "NUL \<notin> set num" using assms(2) digit_not_special by auto
  have "\<not> is_digit (CHR ''p'')" "\<not> is_digit (CHR ''t'')" by (simp_all add: is_digit_def)
  then have words: "num \<noteq> ''pid''" "num \<noteq> ''time''" using assms(2) by auto
  have tail: "NUL \<notin> set (header_tail b)" using show_int_token(3) show_u64_token(3) by (auto simp: header_tail_def)
  have tw: "takeWhile (\<lambda>c. c \<noteq> NUL) buf = num @ header_tail b"
  proof -
    have "\<forall>c \<in> set (num @ header_tail b). c \<noteq> NUL" using special(2) tail by auto
    then show ?thesis using assms(4) takeWhile_append2 [of "num @ header_tail b" "\<lambda>c. c \<noteq> NUL" "NUL # rest"] by simp
  qed
  obtain st c where st: "check_tokens (strtok_all (num @ header_tail b)) \<lparr>ck_contwrites = None, ck_pids = -1, ck_times = None\<rparr> = Inr st"
    "ck_contwrites st = Some c" "ck_pids st < 2 ^ 31"
  proof (cases "procid b = -1")
    case True
    show ?thesis
      by (rule that [of "\<lparr>ck_contwrites = Some (word_of_int (atoll num)), ck_pids = -1, ck_times = None\<rparr>" "word_of_int (atoll num)"])
        (use True words in \<open>simp_all add: tail_tokens [OF assms(1) special(1)]\<close>)
  next
    case False
    show ?thesis
      by (rule that [of "\<lparr>ck_contwrites = Some (word_of_int (atoll num)), ck_pids = atoi (show_int (procid b)),
            ck_times = Some (word_of_int (atoll (show_u64 (ts b))))\<rparr>" "word_of_int (atoll num)"])
        (use False words atoi_bound in \<open>simp_all add: tail_tokens [OF assms(1) special(1)] number_tokens\<close>)
  qed
  have short: "length (block_header \<lparr>cont_id = c, procid = q, ts = t\<rparr>) < length buf" if "q = -1 \<or> 0 \<le> q \<and> q < 2 ^ 31" for q t
    using header_fits [of "\<lparr>cont_id = c, procid = q, ts = t\<rparr>"] that assms(3) by auto
  have "length (case ck_times st of
      Some t \<Rightarrow> if ck_pids st \<ge> 0 then show_u64 c @ '' pid '' @ show_int (ck_pids st) @ '' time '' @ show_u64 t @ '' '' else show_u64 c @ '' ''
    | None \<Rightarrow> show_u64 c @ '' '') < length buf"
    using short [of "-1"] short [of "ck_pids st"] st(3) by (auto simp: block_header_def split: option.split)
  moreover have "NUL \<in> set buf" by (simp add: assms(4))
  ultimately show ?thesis
    unfolding check_block_content_def tw st(1) rbind_simps st(2) option.case Let_def by (simp add: sprintf_at_def)
qed

section \<open>One round of the loop\<close>

definition statistics_fit :: "user_confs \<Rightarrow> duplicates_info \<Rightarrow> bool" where
  "statistics_fit conf info \<longleftrightarrow>
     (distout conf = 1 \<or> fault_measure conf > 0 \<longrightarrow> unat (duplicated_blocks info) \<le> length (di_statistics info))"

definition tracker_fits :: "nat \<Rightarrow> nat \<Rightarrow> duplicates_info \<Rightarrow> bool" where
  "tracker_fits pos m info \<longleftrightarrow> pos < length (content_tracker info) \<and> m \<le> length (content_tracker info ! pos)"

lemma populate_statistics_total:
  assumes "statistics_fit conf info" and "dist_ready info"
  obtains info' stat' where "populate_statistics conf b info stat = Inr (info', stat')" "statistics_fit conf info'" "dist_ready info'"
    "content_tracker info' = content_tracker info"
proof (cases "populate_statistics conf b info stat")
  case (Inl e)
  then have False
    using assms(1) by (auto simp: populate_statistics_def statistics_fit_def word_less_nat_alt Let_def split: if_splits)
  then show ?thesis ..
next
  case (Inr r)
  then have "statistics_fit conf (fst r)" "dist_ready (fst r)" "content_tracker (fst r) = content_tracker info"
    using assms by (auto simp: populate_statistics_def statistics_fit_def dist_ready_def Let_def split: if_splits)
  with Inr show ?thesis by (intro that [of "fst r" "snd r"]) simp_all
qed

lemma track_block_total:
  assumes "tracker_fits pos m info" and "i < m"
  shows "\<exists>info'. track_block pos i b info = Inr info' \<and> tracker_fits pos m info' \<and> content_tracker info' ! pos = (content_tracker info ! pos)[i := b] \<and>
    (statistics_fit conf info \<longrightarrow> statistics_fit conf info') \<and> (dist_ready info \<longrightarrow> dist_ready info')"
  using assms by (auto simp: track_block_def tracker_fits_def statistics_fit_def dist_ready_def)

section \<open>Files of blocks\<close>

text \<open>
  What the benchmark relies on when it works on a file of blocks: a block that is written is the
  block that is read, other blocks keep their contents, and contents survive until the file is
  opened again. \<open>blk\<close> gives the contents of the blocks.
\<close>

locale block_file =
  fixes io :: "'f file_io" and fd :: int and path :: string and n cap :: nat
    and blk :: "'f \<Rightarrow> nat \<Rightarrow> string" and ready :: "'f \<Rightarrow> bool" and closed :: "'f \<Rightarrow> bool"
  assumes fd_valid: "fd \<noteq> -1"
    and in_range: "0 < n \<and> n * cap < 2 ^ 64"
    and open_file: "closed f \<Longrightarrow> \<exists>f'. io_open io creat direct path f = (fd, f') \<and> ready f' \<and> blk f' = blk f"
    and sync_file: "ready f \<Longrightarrow> ready (io_fsync io fd f) \<and> blk (io_fsync io fd f) = blk f"
    and close_file: "ready f \<Longrightarrow> closed (io_close io fd f) \<and> blk (io_close io fd f) = blk f"
    and write_block: "ready f \<Longrightarrow> length buf = n \<Longrightarrow> k < cap \<Longrightarrow>
      \<exists>r f'. io_pwrite io fd buf (word_of_nat (k * n)) f = (r, f') \<and> ready f' \<and> blk f' = (blk f)(k := buf)"
    and read_block: "ready f \<Longrightarrow> k < cap \<Longrightarrow>
      \<exists>f'. io_pread io fd (word_of_nat n) (word_of_nat (k * n)) f = (int n, blk f k, f') \<and> ready f' \<and> blk f' = blk f"
    and block_length: "ready f \<Longrightarrow> k < cap \<Longrightarrow> length (blk f k) = n"
begin

definition sized :: "user_confs \<Rightarrow> nat \<Rightarrow> bool" where
  "sized conf m \<longleftrightarrow> 64 \<le> n \<and> m \<le> cap \<and> block_size conf = word_of_nat n \<and> filesize conf = word_of_nat (m * n)"

lemma unat_blocks: "k \<le> cap \<Longrightarrow> unat (word_of_nat (k * n) :: u64) = k * n" and unat_n: "0 < cap \<Longrightarrow> unat (word_of_nat n :: u64) = n"
proof -
  show "unat (word_of_nat (k * n) :: u64) = k * n" if "k \<le> cap"
  proof -
    have "k * n \<le> n * cap" using that by (simp add: mult.commute)
    with in_range have "k * n < 2 ^ 64" by linarith
    then show ?thesis by (intro unat_of_nat_small) simp
  qed
  show "unat (word_of_nat n :: u64) = n" if "0 < cap"
  proof -
    have "n * 1 \<le> n * cap" using that by (intro mult_le_mono2) simp
    with in_range have "n < 2 ^ 64" by linarith
    then show ?thesis by (intro unat_of_nat_small) simp
  qed
qed

lemma next_offset: "word_of_nat (k * n) + word_of_nat n = (word_of_nat (Suc k * n) :: u64)"
  by (simp add: add.commute)

lemma offset_facts:
  assumes "sized conf m" and "k < m"
  shows "(word_of_nat (k * n) :: u64) < filesize conf" and "unat (word_of_nat (k * n) div block_size conf) = k" and "unat (block_size conf) = n"
proof -
  have c: "k \<le> cap" "m \<le> cap" "0 < cap" using assms by (auto simp: sized_def)
  show n: "unat (block_size conf) = n" using unat_n c(3) assms(1) by (simp add: sized_def)
  show "(word_of_nat (k * n) :: u64) < filesize conf"
    using assms in_range by (simp add: sized_def word_less_nat_alt unat_blocks [OF c(1)] unat_blocks [OF c(2)] del: of_nat_mult)
  show "unat (word_of_nat (k * n) div block_size conf) = k"
    using in_range by (simp add: unat_div unat_blocks [OF c(1)] n del: of_nat_mult)
qed

lemma at_end: "sized conf m \<Longrightarrow> \<not> (word_of_nat (m * n) :: u64) < filesize conf"
  by (simp add: sized_def)

definition tracked :: "'f \<Rightarrow> nat \<Rightarrow> duplicates_info \<Rightarrow> nat \<Rightarrow> bool" where
  \<comment> \<open>the tracker describes the first \<open>k\<close> blocks of the file\<close>
  "tracked f pos info k \<longleftrightarrow> (\<forall>j < k. get_block_content (content_tracker info ! pos ! j) n = Inr (blk f j))"

lemma populate_loop_writes:
  assumes "sized conf m" and "integrity conf \<ge> 1"
    and "k \<le> m" and "ready f" and "dist_ready info" and "statistics_fit conf info"
    and "tracker_fits (tracker_pos conf p) m info" and "tracked f (tracker_pos conf p) info k"
  shows "\<exists>info' s' f'. populate_loop g io clock conf fd p (word_of_nat (k * n)) c info stat s f =
      Some (Inr (filesize conf, info', s', f')) \<and> ready f' \<and> tracked f' (tracker_pos conf p) info' m \<and>
      tracker_fits (tracker_pos conf p) m info' \<and> dist_ready info' \<and> statistics_fit conf info'"
  using assms(3-)
proof (induction "m - k" arbitrary: k c info stat s f)
  case 0
  then show ?case using at_end [OF assms(1)] assms(1)
    by (subst populate_loop.simps) (simp add: sized_def del: of_nat_mult)
next
  case (Suc d)
  let ?pos = "tracker_pos conf p"
  have k: "k < m" "k < cap" using Suc.hyps(2) assms(1) by (auto simp: sized_def)
  note off = offset_facts [OF assms(1) k(1)]
  have n: "64 \<le> unat (block_size conf)" using off(3) assms(1) by (simp add: sized_def)
  obtain buf u z stat1 b s1 where w: "get_writecontent g s (clock c) conf info stat 0 =
      Some (Inr (buf, info\<lparr>u_count := u, zerodups := z\<rparr>, stat1, b, s1))"
    "get_block_content b n = Inr buf" "length buf = n"
    using get_writecontent_total [OF Suc.prems(3) n, of 0 g s "clock c" stat] off(3) by (metis order_refl zero_less_numeral zero_less_power)
  let ?info1 = "info\<lparr>u_count := u, zerodups := z\<rparr>"
  have "statistics_fit conf ?info1" "dist_ready ?info1" using Suc.prems(3,4) by (simp_all add: statistics_fit_def dist_ready_def)
  then obtain info2 stat2 where i2: "populate_statistics conf b ?info1 stat1 = Inr (info2, stat2)" "statistics_fit conf info2"
    "dist_ready info2" "content_tracker info2 = content_tracker info"
    by (rule populate_statistics_total [of conf ?info1 b stat1]) simp
  obtain r f1 where f1: "io_pwrite io fd buf (word_of_nat (k * n)) f = (r, f1)" "ready f1" "blk f1 = (blk f)(k := buf)"
    using write_block [OF Suc.prems(2) w(3) k(2)] by auto
  have "tracker_fits ?pos m info2" using Suc.prems(5) i2(4) by (simp add: tracker_fits_def)
  from track_block_total [OF this k(1), of b conf] i2 obtain info3 where i3: "track_block ?pos k b info2 = Inr info3" "tracker_fits ?pos m info3"
    "content_tracker info3 ! ?pos = (content_tracker info ! ?pos)[k := b]" "statistics_fit conf info3" "dist_ready info3" by auto
  have "tracked f1 ?pos info3 (Suc k)"
    using Suc.prems(5,6) i3(3) f1(3) w(2) k(1) by (auto simp: tracked_def tracker_fits_def less_Suc_eq)
  moreover have "d = m - Suc k" using Suc.hyps(2) by simp
  ultimately have "\<exists>info' s' f'. populate_loop g io clock conf fd p (word_of_nat (Suc k * n)) (Suc c) info3 stat2 s1 f1 =
      Some (Inr (filesize conf, info', s', f')) \<and> ready f' \<and> tracked f' ?pos info' m \<and> tracker_fits ?pos m info' \<and>
      dist_ready info' \<and> statistics_fit conf info'"
    using k(1) by (intro Suc.hyps(1) f1(2) i3(2,4,5)) simp_all
  then
  obtain info' s' f' where "populate_loop g io clock conf fd p (word_of_nat (k * n) + block_size conf) (Suc c) info3 stat2 s1 f1 =
      Some (Inr (filesize conf, info', s', f'))" "ready f'" "tracked f' ?pos info' m" "tracker_fits ?pos m info'"
    "dist_ready info'" "statistics_fit conf info'"
    using assms(1) by (auto simp: sized_def next_offset simp del: of_nat_mult mult_Suc)
  then show ?case
    using off w(1) i2(1) f1(1) i3(1) assms(2) by (subst populate_loop.simps) (auto simp del: of_nat_mult)
qed

definition damaged :: "'f \<Rightarrow> nat \<Rightarrow> duplicates_info \<Rightarrow> nat \<Rightarrow> bool" where
  \<comment> \<open>the check looks at block \<open>k\<close> and finds another content than the tracker's\<close>
  "damaged f pos info k \<longleftrightarrow>
     (let bf = content_tracker info ! pos ! k in ts bf \<noteq> 0 \<and> cont_id bf \<noteq> 0 \<and> get_block_content bf n \<noteq> Inr (blk f k))"

definition checkable :: "'f \<Rightarrow> nat \<Rightarrow> duplicates_info \<Rightarrow> nat \<Rightarrow> bool" where
  "checkable f pos info m \<longleftrightarrow> (\<forall>k < m. (\<exists>c. get_block_content (content_tracker info ! pos ! k) n = Inr c) \<and>
     (damaged f pos info k \<longrightarrow> (\<exists>i. check_block_content (blk f k) = Inr i)))"

definition error_at :: "nat \<Rightarrow> duplicates_info \<Rightarrow> nat \<Rightarrow> final_line" where
  "error_at pos info k = Compared (Error_Checking (cont_id (content_tracker info ! pos ! k)))"

lemma compare_at:
  assumes "checkable f pos info m" and "k < m" and "ready f" and "m \<le> cap"
    and "ts (content_tracker info ! pos ! k) \<noteq> 0 \<and> cont_id (content_tracker info ! pos ! k) \<noteq> 0"
  shows "compare_blocks (blk f k) (content_tracker info ! pos ! k) 1 =
    Inr (if damaged f pos info k then (1, [Error_Checking (cont_id (content_tracker info ! pos ! k))]) else (0, []))"
proof -
  have len: "length (blk f k) = n" using block_length [OF assms(3)] assms(2,4) by simp
  obtain c where "get_block_content (content_tracker info ! pos ! k) n = Inr c"
    and "damaged f pos info k \<Longrightarrow> \<exists>i. check_block_content (blk f k) = Inr i"
    using assms(1,2) by (auto simp: checkable_def)
  then show ?thesis using assms(5) len by (auto simp: compare_blocks_def damaged_def)
qed

lemma integrity_loop_counts:
  assumes "sized conf m" and "k \<le> m" and "ready f" and "checkable f pos info m" and "tracker_fits pos m info" and "length buf = n"
  defines "bad \<equiv> \<lambda>k. filter (damaged f pos info) [k..<m]"
  shows "\<exists>f'. integrity_loop io conf fd pos info (word_of_nat (k * n)) buf res out f =
      Some (Inr (res + int (length (bad k)), out @ map (error_at pos info) (bad k), f')) \<and> ready f' \<and> blk f' = blk f"
  using assms(2-6) unfolding bad_def
proof (induction "m - k" arbitrary: k buf f res out)
  case 0
  then show ?case using at_end [OF assms(1)] by (subst integrity_loop.simps) (simp del: of_nat_mult)
next
  case (Suc d)
  have k: "k < m" "k < cap" "m \<le> cap" using Suc.hyps(2) assms(1) by (auto simp: sized_def)
  note off = offset_facts [OF assms(1) k(1)]
  let ?bf = "content_tracker info ! pos ! k" and ?bad = "filter (damaged f pos info) [Suc k..<m]"
  have step: "\<exists>f'. integrity_loop io conf fd pos info (word_of_nat (k * n) + block_size conf) b r o' f1 =
      Some (Inr (r + int (length ?bad), o' @ map (error_at pos info) ?bad, f')) \<and> ready f' \<and> blk f' = blk f"
    if "length b = n" "ready f1" "blk f1 = blk f" for b r o' f1
  proof -
    have same: "damaged f1 pos info = damaged f pos info" "checkable f1 pos info m"
      using that(3) Suc.prems(3) by (auto simp: damaged_def checkable_def fun_eq_iff)
    have "d = m - Suc k" using Suc.hyps(2) by simp
    from Suc.hyps(1) [OF this _ that(2) same(2) Suc.prems(4) that(1), of r o'] k(1) that(3) assms(1) same(1)
    show ?thesis by (auto simp: sized_def next_offset simp del: of_nat_mult mult_Suc)
  qed
  have bs: "block_size conf \<noteq> 0" "block_size conf = word_of_nat n" using off(3) in_range assms(1) by (auto simp: sized_def)
  have fits: "\<not> length (content_tracker info) \<le> pos" "\<not> length (content_tracker info ! pos) \<le> k"
    using Suc.prems(4) k(1) by (auto simp: tracker_fits_def)
  have upt: "[k..<m] = k # [Suc k..<m]" using k(1) by (simp add: upt_conv_Cons)
  show ?case
  proof (cases "ts ?bf \<noteq> 0 \<and> cont_id ?bf \<noteq> 0")
    case True
    obtain f1 where rd: "io_pread io fd (word_of_nat n) (word_of_nat (k * n)) f = (int n, blk f k, f1)" "ready f1" "blk f1 = blk f"
      using read_block [OF Suc.prems(2) k(2)] by auto
    have len: "length (blk f k) = n" by (rule block_length [OF Suc.prems(2) k(2)])
    then have b: "blit 0 (take (length buf) (blk f k)) buf = blk f k" using Suc.prems(5) by (simp add: blit_def)
    note cmp = compare_at [OF Suc.prems(3) k(1) Suc.prems(2) k(3) True]
    define e where "e = (if damaged f pos info k then 1 else 0 :: int)"
    define ls where "ls = (if damaged f pos info k then [error_at pos info k] else [])"
    from step [OF len rd(2,3), of "res + e" "out @ ls"] rd b bs fits off True in_range cmp
    show ?thesis
      by (subst integrity_loop.simps)
        (auto simp: Let_def upt e_def ls_def error_at_def algebra_simps simp del: of_nat_mult split: if_splits)
  next
    case False
    then have "\<not> damaged f pos info k" by (auto simp: damaged_def Let_def)
    with step [OF Suc.prems(5,2) refl, of res out] bs fits off False show ?thesis
      by (subst integrity_loop.simps) (auto simp: Let_def upt simp del: of_nat_mult)
  qed
qed

lemma check_device:
  assumes "sized conf m" and "closed f" and "checkable f 0 info m" and "tracker_fits 0 m info"
    and "rawdevice conf = 1" and "rawpath conf = path"
  defines "bad \<equiv> filter (damaged f 0 info) [0..<m]"
  shows "\<exists>f'. check_integrity io junk True conf info f = Some (Inr (int (length bad), map (error_at 0 info) bad, f'))"
proof -
  obtain f1 where f1: "open_rawdev io path conf f = Inr (fd, f1)" "ready f1" "blk f1 = blk f"
    using open_file [OF assms(2), of False "odirectf conf = 1"] fd_valid by (auto simp: open_rawdev_def)
  have same: "damaged f1 0 info = damaged f 0 info" "checkable f1 0 info m"
    using f1(3) assms(3) by (auto simp: damaged_def checkable_def fun_eq_iff)
  have "\<exists>f2. file_integrity io junk fd conf info 0 [] f1 = Some (Inr (int (length bad), map (error_at 0 info) bad, f2))"
  proof (cases "m = 0")
    case True
    then show ?thesis using at_end [OF assms(1)] by (simp add: file_integrity_def integrity_loop.simps bad_def)
  next
    case False
    then have len: "length (map junk [0..<unat (block_size conf)]) = n" using offset_facts(3) [OF assms(1), of 0] by simp
    from integrity_loop_counts [OF assms(1) _ f1(2) same(2) assms(4) len, of 0 0 "[]"] same(1) show ?thesis
      by (auto simp: file_integrity_def bad_def)
  qed
  then show ?thesis using f1(1) assms(5,6) by (auto simp: check_integrity_def)
qed

lemma populate_device:
  assumes "sized conf m" and "integrity conf \<ge> 1" and "closed f" and "dist_ready info" and "statistics_fit conf info"
    and "tracker_fits 0 m info" and "rawdevice conf = 1" and "rawpath conf = path" and "populate_kind conf \<noteq> DDPOP"
  obtains info' f' where "populate init_rand g io clock junk conf info f = Some (Inr (filesize conf, info', f'))" "closed f'"
    "tracked f' 0 info' m" "tracker_fits 0 m info'" "dist_ready info'" "statistics_fit conf info'"
proof -
  have pos: "tracker_pos conf 0 = 0" by (simp add: tracker_pos_def)
  obtain f1 where f1: "open_rawdev io path conf f = Inr (fd, f1)" "ready f1"
    using open_file [OF assms(3), of False "odirectf conf = 1"] fd_valid by (auto simp: open_rawdev_def)
  have "tracked f1 (tracker_pos conf 0) info 0" by (simp add: tracked_def)
  from populate_loop_writes [OF assms(1,2) _ f1(2) assms(4,5) _ this, of g "clock 0" 0 junk "init_rand (seed conf + word_of_int (nprocs conf))"]
    assms(6) pos obtain info' s' f2 where
    pop: "real_populate init_rand g io (clock 0) junk fd conf info 0 f1 = Some (Inr (filesize conf, info', s', f2))"
    and f2: "ready f2" "tracked f2 0 info' m" "tracker_fits 0 m info'" "dist_ready info'" "statistics_fit conf info'"
    by (auto simp: real_populate_def)
  let ?f = "io_close io fd (io_fsync io fd f2)"
  have f': "closed ?f" "blk ?f = blk f2" using sync_file [OF f2(1)] close_file by auto
  show ?thesis
    using pop f1(1) f2(2-5) f' assms(7-9) by (intro that [of info' ?f]) (simp_all add: populate_def tracked_def)
qed

lemma tracked_checkable: "tracked f pos info m \<Longrightarrow> checkable f pos info m \<and> (\<forall>k < m. \<not> damaged f pos info k)"
  by (auto simp: tracked_def checkable_def damaged_def Let_def)

end

end
