(* ===== verification/Dedis_Run_Correct.thy ===== *)
theory Dedis_Run_Correct
  imports Dedis_Run Dedis_Populate_Correct
begin

text \<open>
  The benchmark while it runs: on a raw device without faults every round of every process keeps the
  content tracker equal to the device, whatever the order of the rounds, so that neither the checks
  during the run nor the check at the end report an error; and a peak test with a number of operations
  ends.
\<close>

section \<open>What a round leaves alone\<close>

definition dist_of :: "duplicates_info \<Rightarrow> u64 \<times> u64 \<times> u64 list \<times> u64 list" where
  \<comment> \<open>the loaded distribution, which never changes during a run\<close>
  "dist_of info = (duplicated_blocks info, total_blocks info, di_sum info, di_stats info)"

lemma dist_of_frame [simp]:
  "dist_of (info\<lparr>u_count := u\<rparr>) = dist_of info" "dist_of (info\<lparr>zerodups := z\<rparr>) = dist_of info"
  "dist_of (info\<lparr>di_statistics := st\<rparr>) = dist_of info" "dist_of (info\<lparr>content_tracker := ct\<rparr>) = dist_of info"
  "dist_of (info\<lparr>topblock := t\<rparr>) = dist_of info" "dist_of (info\<lparr>topblock_dups := n\<rparr>) = dist_of info"
  "dist_of (info\<lparr>botblock := t\<rparr>) = dist_of info" "dist_of (info\<lparr>botblock_dups := n\<rparr>) = dist_of info"
  "dist_of (info\<lparr>last_unique_block := b\<rparr>) = dist_of info" "dist_of (info\<lparr>last_block_written := b\<rparr>) = dist_of info"
  by (simp_all add: dist_of_def)

lemma dist_ready_cong: "dist_of info' = dist_of info \<Longrightarrow> dist_ready info' = dist_ready info"
  by (simp add: dist_of_def dist_ready_def dist_ok_def accumulated_def)

definition stat_clock :: "stats \<Rightarrow> int \<times> u64 \<times> u64 \<times> u64" where
  "stat_clock stat = (iter_snap stat, last_snap_time stat, beginio stat, tot_ops stat)"

lemma stat_clock_frame [simp]:
  "stat_clock (stat\<lparr>uni := a\<rparr>) = stat_clock stat" "stat_clock (stat\<lparr>dupl := a\<rparr>) = stat_clock stat"
  "stat_clock (stat\<lparr>zerod := a\<rparr>) = stat_clock stat" "stat_clock (stat\<lparr>misses_read := a\<rparr>) = stat_clock stat"
  by (simp_all add: stat_clock_def)

definition same_clock :: "('s, 'f, 'n) run_state \<Rightarrow> ('s, 'f, 'n) run_state \<Rightarrow> bool" where
  "same_clock st st' \<longleftrightarrow> stat_clock (rs_stat st') = stat_clock (rs_stat st) \<and> rs_round st' = rs_round st \<and>
     rs_begin_time st' = rs_begin_time st \<and> rs_begin_size st' = rs_begin_size st \<and> rs_elapsed st' = rs_elapsed st \<and>
     rs_base st' = rs_base st"

lemma get_writecontent_stat:
  "get_writecontent g s t conf info stat p = Some (Inr (buf, info', stat', b, s')) \<Longrightarrow> stat_clock stat' = stat_clock stat"
  by (auto simp: get_writecontent_def obind_def Let_def rbind_Inr_iff split: option.splits sum.splits if_splits prod.splits)

lemma run_statistics_total:
  assumes "statistics_fit conf info"
  obtains info' stat' where "run_statistics conf b info stat = Inr (info', stat')" "statistics_fit conf info'"
    "dist_of info' = dist_of info" "content_tracker info' = content_tracker info" "stat_clock stat' = stat_clock stat"
proof (cases "run_statistics conf b info stat")
  case (Inl e)
  then have False
    using assms by (auto simp: run_statistics_def statistics_fit_def word_less_nat_alt Let_def split: if_splits)
  then show ?thesis ..
next
  case (Inr r)
  then have "statistics_fit conf (fst r)" "dist_of (fst r) = dist_of info" "content_tracker (fst r) = content_tracker info"
    "stat_clock (snd r) = stat_clock stat"
    using assms by (auto simp: run_statistics_def statistics_fit_def Let_def split: if_splits)
  with Inr show ?thesis by (intro that [of "fst r" "snd r"]) simp_all
qed

lemma track_block_frame: "track_block pos i b info = Inr info' \<Longrightarrow> dist_of info' = dist_of info \<and> di_statistics info' = di_statistics info"
  by (auto simp: track_block_def split: if_splits)

section \<open>Operations on a file of blocks\<close>

context block_file
begin

definition raw_run :: "user_confs \<Rightarrow> nurand \<Rightarrow> int \<Rightarrow> nat \<Rightarrow> bool" where
  \<comment> \<open>a process \<open>p\<close> that works on its part of a device of \<open>m\<close> blocks\<close>
  "raw_run conf nu p m \<longleftrightarrow> sized conf m \<and> totblocks conf = word_of_nat m \<and> integrity conf \<ge> 1 \<and> rawdevice conf = 1 \<and>
     accesses_ok nu (conf\<lparr>totblocks := totblocks conf div word_of_int (nprocs conf), rawdevice := 0\<rparr>) \<and>
     0 < nprocs conf \<and> nprocs conf < 2 ^ 31 \<and> 0 \<le> p \<and> p < nprocs conf"

definition run_inv :: "user_confs \<Rightarrow> nat \<Rightarrow> ('s, 'f, 'n) run_state \<Rightarrow> bool" where
  "run_inv conf m st \<longleftrightarrow> ready (rs_file st) \<and> tracked (rs_file st) 0 (rs_info st) m \<and> tracker_fits 0 m (rs_info st) \<and>
     dist_ready (rs_info st) \<and> statistics_fit conf (rs_info st) \<and> length (rs_accesses st) = m \<and>
     rs_faults st = None \<and> rs_degree st = None \<and> rs_errors st = 0 \<and> rs_lines st = []"

lemma raw_position:
  assumes "raw_run conf nu p m"
  obtains i s' where "get_ioposition g s nu conf stat p = Some (Inr (word_of_nat (i * n), s'))" "i < m"
proof -
  have m: "m \<le> cap" "64 \<le> n" using assms by (auto simp: raw_run_def sized_def)
  have "m * 1 \<le> m * n" using m(2) by (intro mult_le_mono2) simp
  moreover have mn: "m * n < 2 ^ 64" 
    using in_range mult_le_mono1 [OF m(1), of n] unfolding mult.commute [of n cap] by linarith
  ultimately have "m < 2 ^ 64" by linarith
  then have tot: "unat (totblocks conf) = m" using assms by (simp add: raw_run_def unat_of_nat_small)
  have cap0: "0 < cap"
  proof (rule ccontr)
    assume "\<not> 0 < cap"
    with m(1) have "m = 0" by simp
    then have "totblocks conf = 0" using tot by (simp add: unat_eq_zero)
    then show False using assms by (simp add: raw_run_def accesses_ok_def split: if_splits)
  qed
  then have bs: "unat (block_size conf) = n" using assms unat_n by (simp add: raw_run_def sized_def)
  let ?part = "m div nat (nprocs conf)"
  have "unat (totblocks conf) * unat (block_size conf) < 2 ^ 64" using mn by (simp add: tot bs)
  from get_ioposition_raw_block [OF _ _ _ _ _ _ this, of nu p g s stat] assms obtain q s' i where
    q: "get_ioposition g s nu conf stat p = Some (Inr (q, s'))" "i < ?part" "unat q = (nat p * ?part + i) * n"
      "(nat p + 1) * ?part \<le> m"
    by (auto simp: raw_run_def tot bs)
  have "nat p * ?part + i < m" using q(2,4) by (simp add: add.commute)
  moreover have "q = word_of_nat ((nat p * ?part + i) * n)" using q(3) by (metis word_of_unat)
  ultimately show ?thesis using q(1) that by metis
qed

lemma raw_index:
  assumes "raw_run conf nu p m" and "i < m"
  shows "block_index conf (word_of_nat (i * n)) = Inr i" and "unat (block_size conf) = n" and "block_size conf = word_of_nat n"
proof -
  have sz: "sized conf m" using assms(1) by (simp add: raw_run_def)
  note off = offset_facts [OF sz assms(2)]
  show "unat (block_size conf) = n" by (rule off(3))
  then have "block_size conf \<noteq> 0" using in_range by auto
  then show "block_index conf (word_of_nat (i * n)) = Inr i" using off(2) by (simp add: block_index_def del: of_nat_mult)
  show "block_size conf = word_of_nat n" using sz by (simp add: sized_def)
qed

lemma run_write_tracks:
  assumes "raw_run (re_conf env) (re_nurand env) (re_idproc env) m" and "re_io env = io" and "re_fd env = fd"
    and "run_inv (re_conf env) m st"
  obtains st1 where "run_write env None t st = Some (time_op env t st1)" "run_inv (re_conf env) m st1" "same_clock st st1"
    "dist_of (rs_info st1) = dist_of (rs_info st)"
proof -
  let ?conf = "re_conf env" and ?p = "re_idproc env"
  note inv = assms(4) [unfolded run_inv_def]
  have p: "0 \<le> ?p" "?p < 2 ^ 31" "tracker_pos ?conf ?p = 0" "integrity ?conf \<ge> 1" "m \<le> cap" "64 \<le> n"
    using assms(1) by (auto simp: raw_run_def tracker_pos_def sized_def)
  have "0 < m" by (rule raw_position [OF assms(1), of "re_rng env" "rs_rng st" "rs_stat st"]) simp
  note bs = raw_index(2,3) [OF assms(1) this]
  have ok: "dist_ready (rs_info st)" "64 \<le> unat (block_size ?conf)" using inv p(6) bs(1) by simp_all
  obtain buf u z stat1 b s1 where w0: "get_writecontent (re_rng env) (rs_rng st) (tk_unique t) ?conf (rs_info st) (rs_stat st) ?p =
      Some (Inr (buf, (rs_info st)\<lparr>u_count := u, zerodups := z\<rparr>, stat1, b, s1))"
    "get_block_content b (unat (block_size ?conf)) = Inr buf" "length buf = unat (block_size ?conf)"
    by (rule get_writecontent_total [OF ok p(1,2), of "re_rng env" "rs_rng st" "tk_unique t" "rs_stat st"])
  note w = w0(1) w0(2,3) [unfolded bs(1)]
  let ?info1 = "(rs_info st)\<lparr>u_count := u, zerodups := z\<rparr>"
  obtain i s2 where pos: "get_ioposition (re_rng env) s1 (re_nurand env) ?conf stat1 ?p = Some (Inr (word_of_nat (i * n), s2))" "i < m"
    by (rule raw_position [OF assms(1)])
  note ix = raw_index(1) [OF assms(1) pos(2)]
  have "statistics_fit ?conf ?info1" using inv by (simp add: statistics_fit_def)
  then obtain info2 stat2 where i2: "run_statistics ?conf b ?info1 stat1 = Inr (info2, stat2)" "statistics_fit ?conf info2"
    "dist_of info2 = dist_of ?info1" "content_tracker info2 = content_tracker ?info1" "stat_clock stat2 = stat_clock stat1"
    by (rule run_statistics_total)
  obtain r f1 where f1: "io_pwrite io fd buf (word_of_nat (i * n)) (rs_file st) = (r, f1)" "ready f1" "blk f1 = (blk (rs_file st))(i := buf)"
    using write_block [of "rs_file st" buf i] inv w(3) pos(2) p(5) by auto
  define f2 where "f2 = (if fsyncf ?conf = 1 then io_fsync io fd f1 else f1)"
  have f2: "ready f2" "blk f2 = blk f1" using sync_file [OF f1(2)] f1(2) by (auto simp: f2_def)
  have fits: "tracker_fits 0 m info2" using inv i2(4) by (simp add: tracker_fits_def)
  from track_block_total [OF fits pos(2), of b ?conf] i2(2) obtain info3 where i3: "track_block 0 i b info2 = Inr info3" "tracker_fits 0 m info3"
    "content_tracker info3 ! 0 = (content_tracker info2 ! 0)[i := b]" "statistics_fit ?conf info3" by auto
  have dist: "dist_of info3 = dist_of (rs_info st)" using track_block_frame [OF i3(1)] i2(3) by simp
  define st1 where "st1 = st\<lparr>rs_rng := s2, rs_faults := None, rs_stat := stat2,
      rs_accesses := (rs_accesses st)[i := rs_accesses st ! i + 1], rs_file := f2, rs_info := info3, rs_degree := None\<rparr>"
  have "tracked f2 0 info3 m"
    using inv i3(3) f2(2) f1(3) w(2) pos(2) i2(4) by (auto simp: tracked_def tracker_fits_def nth_list_update)
  then have "run_inv ?conf m st1"
    using inv f2(1) i3(2,4) dist_ready_cong [OF dist] by (simp add: run_inv_def st1_def)
  moreover have "same_clock st st1" using i2(5) get_writecontent_stat [OF w(1)] by (simp add: same_clock_def st1_def)
  moreover have "run_write env None t st = Some (time_op env t st1)"
    using w(1) pos i2(1) f1(1) i3(1) ix inv p(3,4) assms(2,3)
    by (simp add: run_write_def write_request_def Let_def finfo_set_block_info_def bump_access_def inject_if_def track_write_def
        dedup_degree_add_block_info_write_def dedup_degree_add_offset_write_def st1_def f2_def del: of_nat_mult)
  ultimately show ?thesis using that dist by (simp add: st1_def)
qed

lemma compare_tracked:
  assumes "tracked f 0 info m" and "i < m" and "length (blk f i) = n"
  shows "compare_blocks (blk f i) (content_tracker info ! 0 ! i) final = Inr (0, [])"
  using assms by (auto simp: compare_blocks_def tracked_def)

lemma run_read_clean:
  assumes "raw_run (re_conf env) (re_nurand env) (re_idproc env) m" and "re_io env = io" and "re_fd env = fd"
    and "run_inv (re_conf env) m st"
  obtains st1 where "run_read env None t st = Some (time_op env t st1)" "run_inv (re_conf env) m st1" "same_clock st st1"
    "dist_of (rs_info st1) = dist_of (rs_info st)"
proof -
  let ?conf = "re_conf env" and ?p = "re_idproc env"
  note inv = assms(4) [unfolded run_inv_def]
  have p: "tracker_pos ?conf ?p = 0" "m \<le> cap" using assms(1) by (auto simp: raw_run_def tracker_pos_def sized_def)
  obtain i s2 where pos: "get_ioposition (re_rng env) (rs_rng st) (re_nurand env) ?conf (rs_stat st) ?p = Some (Inr (word_of_nat (i * n), s2))" "i < m"
    by (rule raw_position [OF assms(1)])
  note ix = raw_index [OF assms(1) pos(2)]
  have i: "i < cap" using pos(2) p(2) by simp
  obtain f1 where rd: "io_pread io fd (word_of_nat n) (word_of_nat (i * n)) (rs_file st) = (int n, blk (rs_file st) i, f1)" "ready f1" "blk f1 = blk (rs_file st)"
    using read_block [of "rs_file st" i] inv i by auto
  have len: "length (blk (rs_file st) i) = n" using block_length inv i by blast
  have tr: "content_tracker (rs_info st) \<noteq> []" "i < length (content_tracker (rs_info st) ! 0)"
    using inv pos(2) by (auto simp: tracker_fits_def)
  have cmp: "compare_blocks (blk (rs_file st) i) (content_tracker (rs_info st) ! 0 ! i) 0 = Inr (0, [])"
    by (rule compare_tracked [OF _ pos(2) len]) (use inv in simp)
  define st1 where "st1 = st\<lparr>rs_rng := s2, rs_accesses := (rs_accesses st)[i := rs_accesses st ! i + 1], rs_file := f1, rs_degree := None,
      rs_errors := 0, rs_lines := [], rs_stat := rs_stat st\<rparr>"
  have "run_inv ?conf m st1" using inv rd(2,3) by (simp add: run_inv_def st1_def tracked_def)
  moreover have "same_clock st st1" by (simp add: same_clock_def st1_def)
  moreover have bl: "blit 0 (blk (rs_file st) i) (map (re_junk env) [0..<n]) = blk (rs_file st) i" using len by (simp add: blit_def)
  have "run_read env None t st = Some (time_op env t st1)"
    using pos rd(1) ix inv p(1) assms(2,3) tr cmp len bl
    by (simp add: run_read_def read_request_def Let_def bump_access_def inject_if_def track_read_def
        dedup_degree_add_block_info_read_def dedup_degree_add_offset_read_def st1_def del: of_nat_mult)
  ultimately show ?thesis using that by (simp add: st1_def)
qed

end

section \<open>Time\<close>

lemma unat_inc:
  fixes x e :: u64
  assumes "x < e"
  shows "unat (x + 1) = Suc (unat x)"
proof -
  have "unat x + unat (1 :: u64) < 2 ^ LENGTH(64)" using assms unat_less [of e] by (simp add: word_less_nat_alt)
  then show ?thesis unfolding unat_add_lem by simp
qed

definition steady :: "(nat \<Rightarrow> tick) \<Rightarrow> nat \<Rightarrow> nat \<Rightarrow> bool" where
  \<comment> \<open>during \<open>N\<close> rounds the clock does not go back, and less than 999 snapshot periods of 30 seconds go by\<close>
  "steady clock T0 N \<longleftrightarrow> (\<forall>k < N. T0 \<le> unat (tk_t2 (clock k)) \<and> unat (tk_t2 (clock k)) < T0 + 999 * 30000000) \<and>
     (\<forall>k < N. \<forall>j \<le> k. tk_t2 (clock j) \<le> tk_t2 (clock k) \<and> tk_lap (clock j) \<le> tk_lap (clock k))"

definition snap_count :: "nat \<Rightarrow> int \<Rightarrow> nat \<Rightarrow> bool" where
  \<comment> \<open>\<open>i\<close> snapshots, the last at time \<open>l\<close>: at most one every 30 seconds, apart from the first\<close>
  "snap_count T0 i l \<longleftrightarrow> i = 0 \<and> l = 0 \<or>
     0 \<le> i \<and> T0 \<le> l \<and> l < T0 + 999 * 30000000 \<and> 30000000 * (i - 1) \<le> int l - int T0"

lemma snap_count_bound: "snap_count T0 i l \<Longrightarrow> 0 \<le> i \<and> i < 1000"
  by (auto simp: snap_count_def)

lemma snap_count_later: "snap_count T0 i l \<Longrightarrow> T0 \<le> l' \<Longrightarrow> l' < T0 + 999 * 30000000 \<Longrightarrow> l \<le> l' \<Longrightarrow> snap_count T0 i l'"
  by (auto simp: snap_count_def)

lemma snap_count_next: "snap_count T0 i l \<Longrightarrow> T0 \<le> l' \<Longrightarrow> l' < T0 + 999 * 30000000 \<Longrightarrow> l + 30000000 \<le> l' \<Longrightarrow> snap_count T0 (i + 1) l'"
  by (auto simp: snap_count_def)

definition snap_ok :: "nat \<Rightarrow> stats \<Rightarrow> bool" where
  "snap_ok T0 stat \<longleftrightarrow> snap_count T0 (iter_snap stat) (unat (last_snap_time stat))"

definition timed :: "(nat \<Rightarrow> tick) \<Rightarrow> nat \<Rightarrow> nat \<Rightarrow> ('s, 'f, 'n) run_state \<Rightarrow> bool" where
  "timed clock T0 N st \<longleftrightarrow> 0 < rs_elapsed st \<and> snap_ok T0 (rs_stat st) \<and>
     (\<forall>k < N. rs_round st \<le> k \<longrightarrow> rs_base st \<le> tk_lap (clock k) \<and> last_snap_time (rs_stat st) \<le> tk_t2 (clock k))"

lemma time_op_total:
  assumes "logfeature (re_conf env) = 1 \<Longrightarrow> re_log_open env" and "snap_ok T0 (rs_stat st)"
    and "T0 \<le> unat (tk_t2 t)" and "unat (tk_t2 t) < T0 + 999 * 30000000" and "last_snap_time (rs_stat st) \<le> tk_t2 t"
  obtains stat' log where "time_op env t st = Inr (st\<lparr>rs_stat := stat', rs_log := log\<rparr>)" "snap_ok T0 stat'" "t1snap stat' = tk_t2 t"
    "last_snap_time stat' \<le> tk_t2 t"
proof -
  define stat1 where "stat1 = (rs_stat st)\<lparr>t1snap := tk_t2 t\<rparr>"
  define stat2 where "stat2 = (if beginio stat1 = -1 \<and> warm env st then stat1\<lparr>beginio := tk_t1 t, last_snap_time := tk_t2 t\<rparr> else stat1)"
  define stat3 where "stat3 = (if warm env st then stat2\<lparr>latency := latency stat2 + (tk_t2 t - tk_t1 t), snap_lat := snap_lat stat2 + (tk_t2 t - tk_t1 t)\<rparr> else stat2)"
  define log where "log = (if logfeature (re_conf env) = 1 then rs_log st @ [(tk_t2 t - tk_t1 t, seconds (tk_t2 t))] else rs_log st)"
  have keep: "iter_snap stat3 = iter_snap (rs_stat st)" "last_snap_time stat3 = (if beginio stat1 = -1 \<and> warm env st then tk_t2 t else last_snap_time (rs_stat st))"
    "t1snap stat3 = tk_t2 t"
    by (auto simp: stat3_def stat2_def stat1_def)
  have le: "unat (last_snap_time (rs_stat st)) \<le> unat (tk_t2 t)" using assms(5) by (simp add: word_le_nat_alt)
  have ok: "snap_ok T0 (stat3\<lparr>endio := tk_t2 t\<rparr>)"
    using assms(2) snap_count_later [OF assms(2) [unfolded snap_ok_def] assms(3,4) le] by (simp add: snap_ok_def keep)
  have eq: "time_op env t st = Inr (st\<lparr>rs_stat := stat3\<lparr>endio := tk_t2 t\<rparr>, rs_log := log\<rparr>)"
    using assms(1) by (auto simp: time_op_def Let_def log_def stat3_def stat2_def stat1_def)
  have "t1snap (stat3\<lparr>endio := tk_t2 t\<rparr>) = tk_t2 t" "last_snap_time (stat3\<lparr>endio := tk_t2 t\<rparr>) \<le> tk_t2 t"
    using keep assms(5) by auto
  with eq ok show ?thesis by (intro that)
qed

lemma store_snapshot_total:
  assumes "snap_ok T0 (rs_stat st)"
  shows "\<exists>snaps. store_snapshot env st = Inr (st\<lparr>rs_stat := (rs_stat st)\<lparr>iter_snap := iter_snap (rs_stat st) + 1, snap_lat := 0, snap_totops := 0,
    last_snap_time := t1snap (rs_stat st)\<rparr>, rs_snaps := snaps\<rparr>)"
proof (cases "warm env st")
  case True
  then show ?thesis using snap_count_bound [OF assms [unfolded snap_ok_def]] by (auto simp: store_snapshot_def Let_def)
next
  case False
  then show ?thesis by (intro exI [of _ "rs_snaps st"]) (simp add: store_snapshot_def Let_def)
qed

lemma count_op_total:
  assumes "number_ops (re_conf env) > 0" and "snap_ok T0 (rs_stat st)" and "t1snap (rs_stat st) = now" and "last_snap_time (rs_stat st) \<le> now"
    and "T0 \<le> unat now" and "unat now < T0 + 999 * 30000000"
  obtains stat' snaps where "count_op env st = Inr (st\<lparr>rs_stat := stat', rs_snaps := snaps, rs_begin_size := rs_begin_size st + 1\<rparr>)"
    "snap_ok T0 stat'" "last_snap_time stat' \<le> now"
proof -
  define stat1 where "stat1 = (if warm env st then (rs_stat st)\<lparr>tot_ops := tot_ops (rs_stat st) + 1, snap_totops := snap_totops (rs_stat st) + 1\<rparr> else rs_stat st)"
  have s1: "snap_ok T0 stat1" "t1snap stat1 = now" "last_snap_time stat1 \<le> now" "iter_snap stat1 = iter_snap (rs_stat st)"
    using assms(2-4) by (auto simp: stat1_def snap_ok_def)
  show ?thesis
  proof (cases "unat (t1snap stat1) \<ge> unat (last_snap_time stat1) + 30000000")
    case True
    obtain snaps where sn: "store_snapshot env (st\<lparr>rs_stat := stat1\<rparr>) = Inr (st\<lparr>rs_stat := stat1\<lparr>iter_snap := iter_snap stat1 + 1, snap_lat := 0, snap_totops := 0,
        last_snap_time := now\<rparr>, rs_snaps := snaps\<rparr>)"
      using store_snapshot_total [of T0 "st\<lparr>rs_stat := stat1\<rparr>" env] s1 by auto
    have "snap_ok T0 (stat1\<lparr>iter_snap := iter_snap stat1 + 1, snap_lat := 0, snap_totops := 0, last_snap_time := now\<rparr>)"
      using snap_count_next [OF s1(1) [unfolded snap_ok_def] assms(5,6)] True s1(2) by (simp add: snap_ok_def)
    then show ?thesis using sn True assms(1)
      by (intro that [where stat' = "stat1\<lparr>iter_snap := iter_snap stat1 + 1, snap_lat := 0, snap_totops := 0, last_snap_time := now\<rparr>" and snaps = snaps])
        (simp_all add: count_op_def Let_def stat1_def [symmetric])
  next
    case False
    have "count_op env st = Inr (st\<lparr>rs_stat := stat1, rs_snaps := rs_snaps st, rs_begin_size := rs_begin_size st + 1\<rparr>)"
      using False assms(1) by (simp add: count_op_def Let_def stat1_def [symmetric])
    then show ?thesis using s1(1,3) by (rule that)
  qed
qed

section \<open>Rounds\<close>

context block_file
begin

definition peak_run :: "nat \<Rightarrow> nat \<Rightarrow> nat \<Rightarrow> ('s, 'f, 'n) run_env \<Rightarrow> bool" where
  \<comment> \<open>a process of a peak test that performs \<open>N\<close> operations on this file\<close>
  "peak_run m T0 N env \<longleftrightarrow> raw_run (re_conf env) (re_nurand env) (re_idproc env) m \<and> re_io env = io \<and> re_fd env = fd \<and>
     testtype (re_conf env) = PEAK \<and> number_ops (re_conf env) > 0 \<and> unat (re_end_size env) = N \<and> steady (re_clock env) T0 N \<and>
     (logfeature (re_conf env) = 1 \<longrightarrow> re_log_open env)"

definition on_time :: "nat \<Rightarrow> nat \<Rightarrow> ('s, 'f, 'n) run_env \<Rightarrow> ('s, 'f, 'n) run_state \<Rightarrow> bool" where
  "on_time T0 N env st \<longleftrightarrow> timed (re_clock env) T0 N st \<and> rs_round st = unat (rs_begin_size st)"

lemma run_op_clean:
  assumes "raw_run (re_conf env) (re_nurand env) (re_idproc env) m" and "re_io env = io" and "re_fd env = fd"
    and "run_inv (re_conf env) m st"
  obtains st1 where "run_op env None t st = obind (Some (time_op env t st1)) (\<lambda>st'. Some (count_op env st'))"
    "run_inv (re_conf env) m st1" "same_clock st st1" "dist_of (rs_info st1) = dist_of (rs_info st)"
proof (cases "re_iotype env = IO_WRITE")
  case True
  obtain st1 where "run_write env None t st = Some (time_op env t st1)" "run_inv (re_conf env) m st1" "same_clock st st1"
    "dist_of (rs_info st1) = dist_of (rs_info st)" by (rule run_write_tracks [OF assms])
  then show ?thesis using True by (intro that [of st1]) (simp_all add: run_op_def)
next
  case False
  obtain st1 where "run_read env None t st = Some (time_op env t st1)" "run_inv (re_conf env) m st1" "same_clock st st1"
    "dist_of (rs_info st1) = dist_of (rs_info st)" by (rule run_read_clean [OF assms])
  then show ?thesis using False by (intro that [of st1]) (simp_all add: run_op_def)
qed

lemma run_step_clean:
  assumes "peak_run m T0 N env" and "run_inv (re_conf env) m st" and "on_time T0 N env st" and "running env st"
  obtains st' where "run_step env st = Some (Inr st')" "run_inv (re_conf env) m st'" "on_time T0 N env st'"
    "unat (rs_begin_size st') = Suc (unat (rs_begin_size st))" "dist_of (rs_info st') = dist_of (rs_info st)"
proof -
  let ?k = "rs_round st" and ?conf = "re_conf env" and ?C = "re_clock env"
  let ?t = "?C ?k"
  note run = assms(1) [unfolded peak_run_def]
  have small: "unat (rs_begin_size st) < N" using assms(4) run by (simp add: running_def word_less_nat_alt)
  then have k: "?k < N" using assms(3) by (simp add: on_time_def)
  have sz: "unat (rs_begin_size st + 1) = Suc (unat (rs_begin_size st))"
    by (rule unat_inc [of _ "re_end_size env"]) (use assms(4) in \<open>simp add: running_def\<close>)
  have tm: "0 < rs_elapsed st" "snap_ok T0 (rs_stat st)" "rs_base st \<le> tk_lap ?t" "last_snap_time (rs_stat st) \<le> tk_t2 ?t"
    using assms(3) k by (auto simp: on_time_def timed_def)
  have t2: "T0 \<le> unat (tk_t2 ?t)" "unat (tk_t2 ?t) < T0 + 999 * 30000000" using run k by (auto simp: steady_def)
  have inv: "rs_faults st = None" using assms(2) by (simp add: run_inv_def)
  obtain st1 where op: "run_op env None ?t st = obind (Some (time_op env ?t st1)) (\<lambda>st'. Some (count_op env st'))"
    "run_inv ?conf m st1" "same_clock st st1" "dist_of (rs_info st1) = dist_of (rs_info st)"
    using run by (auto intro: run_op_clean [of env m st ?t] assms(2))
  have s1: "snap_ok T0 (rs_stat st1)" "last_snap_time (rs_stat st1) \<le> tk_t2 ?t"
    using tm op(3) by (simp_all add: same_clock_def stat_clock_def snap_ok_def)
  obtain stat2 log where st2: "time_op env ?t st1 = Inr (st1\<lparr>rs_stat := stat2, rs_log := log\<rparr>)" "snap_ok T0 stat2" "t1snap stat2 = tk_t2 ?t"
    "last_snap_time stat2 \<le> tk_t2 ?t"
    by (rule time_op_total [OF _ s1(1) t2 s1(2)]) (use run in auto)
  define s2 where "s2 = st1\<lparr>rs_stat := stat2, rs_log := log\<rparr>"
  have ops: "number_ops ?conf > 0" and s2: "snap_ok T0 (rs_stat s2)" "t1snap (rs_stat s2) = tk_t2 ?t" "last_snap_time (rs_stat s2) \<le> tk_t2 ?t"
    using run st2(2-4) by (simp_all add: s2_def)
  obtain stat3 snaps where st3: "count_op env s2 = Inr (s2\<lparr>rs_stat := stat3, rs_snaps := snaps, rs_begin_size := rs_begin_size s2 + 1\<rparr>)"
    "snap_ok T0 stat3" "last_snap_time stat3 \<le> tk_t2 ?t"
    by (rule count_op_total [OF ops s2 t2])
  define st' where "st' = s2\<lparr>rs_stat := stat3, rs_snaps := snaps, rs_begin_size := rs_begin_size s2 + 1,
    rs_elapsed := rs_elapsed s2 + (uint (tk_lap ?t) - uint (rs_base s2)), rs_base := tk_lap ?t, rs_begin_time := seconds (tk_end ?t),
    rs_round := Suc (rs_round s2)\<rparr>"
  have same: "rs_round st1 = ?k" "rs_begin_size st1 = rs_begin_size st" "rs_elapsed st1 = rs_elapsed st" "rs_base st1 = rs_base st"
    using op(3) by (simp_all add: same_clock_def)
  have st: "st\<lparr>rs_faults := None\<rparr> = st" using inv by simp
  have step: "run_step env st = Some (Inr st')"
    using tm(1) inv op(1) st2(1) [folded s2_def] st3(1) run unfolding run_step_def
    by (simp add: next_fault_conf_def Let_def st lap_time_def st'_def)
  note st'_def = st'_def [unfolded s2_def]
  have inv': "run_inv ?conf m st'" using op(2) by (simp add: run_inv_def st'_def)
  have "0 \<le> uint (tk_lap ?t) - uint (rs_base st)" using tm(3) by (simp add: word_le_def)
  moreover have "tk_lap ?t \<le> tk_lap (?C j) \<and> tk_t2 ?t \<le> tk_t2 (?C j)" if "Suc ?k \<le> j" "j < N" for j
    using run that by (auto simp: steady_def)
  ultimately have "timed ?C T0 N st'"
    using tm(1) st3(2,3) same by (force simp: timed_def st'_def intro: order_trans)
  then have "on_time T0 N env st'" using assms(3) same sz by (simp add: on_time_def st'_def)
  then show ?thesis using that [OF step inv'] op(4) sz same(2) by (simp add: st'_def)
qed

lemma run_loop_clean:
  assumes "peak_run m T0 N env" and "run_inv (re_conf env) m st" and "on_time T0 N env st"
  shows "\<exists>st'. run_loop env st = Some (Inr st') \<and> run_inv (re_conf env) m st' \<and> on_time T0 N env st' \<and> \<not> running env st'"
  using assms(2,3)
proof (induction "N - unat (rs_begin_size st)" arbitrary: st rule: less_induct)
  case less
  show ?case
  proof (cases "running env st")
    case True
    obtain st' where st': "run_step env st = Some (Inr st')" "run_inv (re_conf env) m st'" "on_time T0 N env st'"
      "unat (rs_begin_size st') = Suc (unat (rs_begin_size st))"
      by (rule run_step_clean [OF assms(1) less.prems True])
    have "unat (rs_begin_size st) < N" using True assms(1) by (simp add: running_def word_less_nat_alt peak_run_def)
    then have "N - unat (rs_begin_size st') < N - unat (rs_begin_size st)" using st'(4) by simp
    from less.hyps [OF this st'(2,3)] show ?thesis using st'(1) True by (subst run_loop.simps) simp
  next
    case False
    then show ?thesis using less.prems by (subst run_loop.simps) auto
  qed
qed

end

section \<open>Beginning and end of a process\<close>

definition run_ready :: "user_confs \<Rightarrow> nat \<Rightarrow> bool" where
  \<comment> \<open>a peak test with a number of operations on a raw device of \<open>m\<close> blocks, without faults and reports;
     every process gets enough blocks for the access distribution\<close>
  "run_ready conf m \<longleftrightarrow> totblocks conf = word_of_nat m \<and> m < 2 ^ 63 \<and> integrity conf \<ge> 1 \<and> rawdevice conf = 1 \<and>
     0 < nprocs conf \<and> nprocs conf < 1000 \<and> (mixedIO conf = 1 \<longrightarrow> 2 \<le> nprocs conf) \<and>
     testtype conf = PEAK \<and> number_ops conf > 0 \<and> usingfaults conf = 0 \<and>
     printtofile conf \<noteq> 1 \<and> accesslog conf \<noteq> 1 \<and> outputfaults conf = 0 \<and> outputoffsets conf = 0 \<and> outputdedup conf = 0 \<and>
     (let part = m div nat (nprocs conf) in
      if accesstype conf = SEQUENTIAL then 0 < part else 1 < part \<and> (accesstype conf = UNIFORM \<or> accesstype conf = TPCC \<and> 10 \<le> m))"

definition os_ready :: "('s, 'f, 'n) run_os \<Rightarrow> nat \<Rightarrow> nat \<Rightarrow> bool" where
  \<comment> \<open>the clocks of the processes are steady and files can be opened\<close>
  "os_ready os T0 N \<longleftrightarrow> (\<forall>r. steady (os_ticks os r) T0 N \<and> (\<forall>k < N. os_base_at os r \<le> tk_lap (os_ticks os r k))) \<and>
     (\<forall>name. os_opened os name)"

definition share_of :: "user_confs \<Rightarrow> int" where
  \<comment> \<open>the processes that share the operations\<close>
  "share_of conf = (if mixedIO conf = 1 then nprocs conf sdiv 2 else nprocs conf)"

lemma job_facts:
  assumes "run_ready conf m" and "(p, np, rate, io) \<in> set (jobs conf)"
  shows "0 \<le> p" "p < nprocs conf" "np = share_of conf" "0 < np" "np < 1000" "0 \<le> read_procid conf p io" "read_procid conf p io < 1000"
proof -
  have half: "nprocs conf sdiv 2 = nprocs conf div 2" using assms(1) by (auto simp: run_ready_def signed_divide_int_def)
  then show "0 \<le> p" "p < nprocs conf" "np = share_of conf" "0 < np" "np < 1000" "0 \<le> read_procid conf p io" "read_procid conf p io < 1000"
    using assms by (auto simp: run_ready_def jobs_def share_of_def read_procid_def split: if_splits)
qed

lemma proc_text_small: "0 \<le> r \<Longrightarrow> r < 1000 \<Longrightarrow> \<exists>ident. proc_text r = Inr ident"
  using length_show_nat [of "nat r" 3] by (auto simp: proc_text_def show_int_def nat_less_iff)

lemma init_io_total:
  assumes "totblocks conf = word_of_nat m" and "m < 2 ^ 63"
  obtains nu s where "init_io ir g nu0 conf r = Some (Inr (0, nu, s))"
    "accesstype conf = TPCC \<longrightarrow> unat (a_nurand nu) = m div 10"
proof (cases "accesstype conf = TPCC")
  case True
  define a where "a = totblocks conf div 10"
  have tot: "unat (totblocks conf) = m" using assms by (simp add: unat_of_nat_small)
  then have a: "unat a = m div 10" by (simp add: a_def unat_div)
  have "unat a + unat (1 :: u64) < 2 ^ LENGTH(64)" using a assms(2) by simp
  then have "unat (a + 1) = Suc (m div 10)" unfolding unat_add_lem using a by simp
  moreover have "Suc (m div 10) < 2 ^ 63" using assms(2) by simp
  ultimately have "a + 1 \<noteq> 0" "a + 1 < 2 ^ 63" by (auto simp: word_less_nat_alt)
  then obtain c s where "genrand g (ir (seed conf + word_of_int r)) (a + 1) = Some (Inr (c, s))"
    by (simp add: genrand_draw)
  then have "init_io ir g nu0 conf r = Some (Inr (0, \<lparr>a_nurand = a, c_nurand = c\<rparr>, s))"
    using True by (simp add: init_io_def init_ioposition_def initialize_nurand_def a_def [symmetric])
  then show ?thesis by (rule that) (simp add: a)
next
  case False
  show ?thesis using False by (intro that [where nu = nu0]) (simp_all add: init_io_def init_ioposition_def)
qed

lemma accesses_ready:
  assumes "run_ready conf m" and "m * unat (block_size conf) < 2 ^ 64" and "accesstype conf = TPCC \<Longrightarrow> unat (a_nurand nu) = m div 10"
  shows "accesses_ok nu (conf\<lparr>totblocks := totblocks conf div word_of_int (nprocs conf), rawdevice := 0\<rparr>)"
proof -
  have r: "totblocks conf = word_of_nat m" "m < 2 ^ 63" "0 < nprocs conf" "nprocs conf < 1000" using assms(1) by (auto simp: run_ready_def)
  define part where "part = totblocks conf div word_of_int (nprocs conf)"
  have part: "unat part = m div nat (nprocs conf)"
    using r by (simp add: part_def unat_div unat_word_of_int unat_of_nat_small)
  have le: "unat part \<le> m" using part by simp
  then have "unat part * unat (block_size conf) < 2 ^ 64" using mult_le_mono1 [OF le, of "unat (block_size conf)"] assms(2) by linarith
  moreover have "part < 2 ^ 63" using le r(2) by (simp add: word_less_nat_alt)
  moreover have "0 < a_nurand nu" "a_nurand nu < 2 ^ 63" if "10 \<le> m" "accesstype conf = TPCC"
    using assms(3) [OF that(2)] that(1) r(2) by (auto simp: word_less_nat_alt)
  ultimately show ?thesis
    using assms(1) part unfolding part_def [symmetric]
    by (auto simp: accesses_ok_def run_ready_def Let_def word_less_nat_alt split: if_splits)
qed

end
