(* ===== verification/Dedis_Launch_Correct.thy ===== *)
theory Dedis_Launch_Correct
  imports Dedis_Run_Correct
begin

text \<open>
  All processes of a benchmark together. The invariant of the shared part, the files and the shared
  memory, is kept by every round of every process, so that it holds whatever the schedule is.
\<close>

section \<open>A device that several processes use\<close>

text \<open>
  The descriptor of one process does not depend on what the others open and close.
\<close>

locale shared_file = block_file +
  assumes stays_open: "closed f = ready f"
begin

definition shared_inv :: "user_confs \<Rightarrow> nat \<Rightarrow> duplicates_info \<Rightarrow> 'a \<Rightarrow> bool" where
  "shared_inv conf m info f \<longleftrightarrow> ready f \<and> tracked f 0 info m \<and> tracker_fits 0 m info \<and> dist_ready info \<and> statistics_fit conf info"

definition local_inv :: "nat \<Rightarrow> ('s, 'a, 'n) run_state \<Rightarrow> bool" where
  "local_inv m st \<longleftrightarrow> length (rs_accesses st) = m \<and> rs_faults st = None \<and> rs_degree st = None \<and> rs_errors st = 0 \<and> rs_lines st = []"

lemma run_inv_split: "run_inv conf m st \<longleftrightarrow> shared_inv conf m (rs_info st) (rs_file st) \<and> local_inv m st"
  by (auto simp: run_inv_def shared_inv_def local_inv_def)

lemma shared_inv_info:
  assumes "shared_inv conf m info f" and "dist_of info' = dist_of info" and "content_tracker info' = content_tracker info"
    and "di_statistics info' = di_statistics info"
  shows "shared_inv conf m info' f"
  using assms dist_ready_cong [OF assms(2)]
  by (auto simp: shared_inv_def tracked_def tracker_fits_def statistics_fit_def dist_of_def)

lemma dist_of_share: "dist_of info = dist_of sh \<Longrightarrow> dist_of (share sh info) = dist_of sh"
  by (simp add: dist_of_def share_def)

definition proc_ok :: "user_confs \<Rightarrow> nat \<Rightarrow> nat \<Rightarrow> nat \<Rightarrow> duplicates_info \<Rightarrow> ('s, 'a, 'n) proc \<Rightarrow> bool" where
  "proc_ok conf m T0 N info p \<longleftrightarrow> (case p of (env, st) \<Rightarrow>
     re_conf env = conf \<and> peak_run m T0 N env \<and> on_time T0 N env st \<and> local_inv m st \<and> dist_of (rs_info st) = dist_of info \<and>
     0 \<le> read_procid conf (re_idproc env) (re_iotype env) \<and> read_procid conf (re_idproc env) (re_iotype env) < 1000)"

definition bench_inv :: "user_confs \<Rightarrow> nat \<Rightarrow> nat \<Rightarrow> nat \<Rightarrow> ('s, 'a, 'n) bench \<Rightarrow> bool" where
  "bench_inv conf m T0 N bn \<longleftrightarrow> shared_inv conf m (bn_info bn) (bn_file bn) \<and> list_all (proc_ok conf m T0 N (bn_info bn)) (bn_procs bn)"

lemma run_inv_resume:
  assumes "shared_inv conf m (bn_info bn) (bn_file bn)" and "local_inv m st" and "dist_of (rs_info st) = dist_of (bn_info bn)"
  shows "run_inv conf m (resume bn st)"
  unfolding run_inv_split
proof
  show "shared_inv conf m (rs_info (resume bn st)) (rs_file (resume bn st))"
    using shared_inv_info [OF assms(1) dist_of_share [OF assms(3)]] by (simp add: resume_def share_def)
  show "local_inv m (resume bn st)" using assms(2) by (simp add: local_inv_def resume_def)
qed

lemma start_clean:
  assumes "run_ready conf m" and "sized conf m" and "rawpath conf = path" and "os_io os = io"
    and "os_ready os T0 N" and "N = unat (number_ops conf div word_of_int np)" and "(p, np, rate, direction) \<in> set (jobs conf)" and "ready f"
  obtains env st where "process_start os p np rate direction conf info None f sock = Some (Inr (env, st))"
    "proc_ok conf m T0 N info (env, st)" "ready (rs_file st)" "blk (rs_file st) = blk f" "rs_begin_size st = 0"
proof -
  note r = assms(1) [unfolded run_ready_def]
  note job = job_facts [OF assms(1,7)]
  let ?r = "read_procid conf p direction"
  have tot: "totblocks conf = word_of_nat m" "m < 2 ^ 63" using r by simp_all
  obtain nu s where nu: "init_io (os_init_rand os) (os_rng os) (os_nurand os) conf ?r = Some (Inr (0, nu, s))"
    "accesstype conf = TPCC \<longrightarrow> unat (a_nurand nu) = m div 10"
    by (rule init_io_total [OF tot])
  obtain f1 where f1: "open_rawdev io path conf f = Inr (fd, f1)" "ready f1" "blk f1 = blk f"
    using open_file [of f False "odirectf conf = 1"] assms(8) fd_valid by (auto simp: open_rawdev_def stays_open)
  obtain ident where ident: "proc_text ?r = Inr ident" using proc_text_small job(6,7) by blast
  have np0: "(word_of_int np :: u64) \<noteq> 0"
  proof -
    have "unat (word_of_int np :: u64) = nat np" using job(4,5) by (intro unat_word_of_int) simp_all
    then show ?thesis using job(4) by (auto simp: unat_eq_zero)
  qed
  have m: "m \<le> cap" using assms(2) by (simp add: sized_def)
  have m0: "0 < m" using r by (auto simp: Let_def split: if_splits intro: Nat.gr0I)
  have bs: "unat (block_size conf) = n" using offset_facts(3) [OF assms(2) m0] .
  have "m * n < 2 ^ 64" using in_range mult_le_mono1 [OF m, of n] unfolding mult.commute [of n cap] by linarith
  then have acc: "accesses_ok nu (conf\<lparr>totblocks := totblocks conf div word_of_int (nprocs conf), rawdevice := 0\<rparr>)"
    using nu(2) by (intro accesses_ready [OF assms(1)]) (simp_all add: bs)
  then have raw: "raw_run conf nu p m" using assms(2) r job by (simp add: raw_run_def)
  have os: "os_opened os name" "steady (os_ticks os ?r) T0 N" "\<forall>k < N. os_base_at os ?r \<le> tk_lap (os_ticks os ?r k)" for name
    using assms(5) by (auto simp: os_ready_def)
  obtain env st where es: "process_start os p np rate direction conf info None f sock = Some (Inr (env, st))"
    "re_conf env = conf" "re_nurand env = nu" "re_idproc env = p" "re_iotype env = direction" "re_io env = io" "re_fd env = fd"
    "re_end_size env = number_ops conf div word_of_int np" "re_clock env = os_ticks os ?r" "re_log_open env"
    "rs_stat st = initial_stats" "rs_info st = info" "rs_faults st = None" "rs_degree st = None" "rs_accesses st = replicate m 0"
    "rs_errors st = 0" "rs_lines st = []" "rs_file st = f1" "rs_round st = 0" "rs_begin_size st = 0" "rs_elapsed st = 1" "rs_base st = os_base_at os ?r"
    using r nu(1) f1(1) ident np0 assms(3,4) os(1) by (simp add: process_start_def Let_def unat_of_nat_small)
  have "peak_run m T0 N env" using raw es r os(2) assms(6) by (simp add: peak_run_def)
  moreover have "on_time T0 N env st" using os(3) es(9,11,19-22) by (simp add: on_time_def timed_def snap_ok_def snap_count_def initial_stats_def)
  ultimately have "proc_ok conf m T0 N info (env, st)" using es job(6,7) by (simp add: proc_ok_def local_inv_def)
  then show ?thesis using that [OF es(1)] es(18,20) f1 by simp
qed

lemma fork_clean:
  assumes "run_ready conf m" and "sized conf m" and "rawpath conf = path" and "os_io os = io"
    and "os_ready os T0 N" and "N = unat (number_ops conf div word_of_int (share_of conf))"
    and "set js \<subseteq> set (jobs conf)" and "bench_inv conf m T0 N bn" and "bn_info bn = info"
    and "list_all (\<lambda>(env, st). rs_begin_size st = 0) (bn_procs bn)"
  shows "\<exists>bn'. fork_all os conf info None js bn = Some (Inr bn') \<and> bench_inv conf m T0 N bn' \<and> bn_info bn' = info \<and>
    length (bn_procs bn') = length (bn_procs bn) + length js \<and> list_all (\<lambda>(env, st). rs_begin_size st = 0) (bn_procs bn')"
  using assms(7-)
proof (induction js arbitrary: bn)
  case (Cons j js)
  obtain p np rate direction where j: "j = (p, np, rate, direction)" by (cases j) auto
  then have job: "(p, np, rate, direction) \<in> set (jobs conf)" using Cons.prems(1) by simp
  have np: "N = unat (number_ops conf div word_of_int np)" using job_facts(3) [OF assms(1) job] assms(6) by simp
  have f: "ready (bn_file bn)" using Cons.prems(2) by (simp add: bench_inv_def shared_inv_def)
  obtain env st where st: "process_start os p np rate direction conf info None (bn_file bn) (bn_sock bn) = Some (Inr (env, st))"
    "proc_ok conf m T0 N info (env, st)" "ready (rs_file st)" "blk (rs_file st) = blk (bn_file bn)" "rs_begin_size st = 0"
    by (rule start_clean [OF assms(1-5) np job f])
  let ?bn = "bn\<lparr>bn_procs := bn_procs bn @ [(env, st)], bn_file := rs_file st\<rparr>"
  have "bench_inv conf m T0 N ?bn"
    using Cons.prems(2,3) st(2-4) by (simp add: bench_inv_def shared_inv_def tracked_def)
  with Cons.IH [of ?bn] Cons.prems st(1,5) show ?case by (auto simp: j)
qed simp

lemma turn_clean:
  assumes "bench_inv conf m T0 N bn" and "i < length (bn_procs bn)"
  obtains bn' where "turn i bn = Some (Inr bn')" "bench_inv conf m T0 N bn'" "length (bn_procs bn') = length (bn_procs bn)"
    "\<forall>j < length (bn_procs bn). j \<noteq> i \<longrightarrow> bn_procs bn' ! j = bn_procs bn ! j"
    "\<not> (case bn_procs bn ! i of (env, st) \<Rightarrow> running env st) \<longrightarrow> bn' = bn"
    "(case bn_procs bn ! i of (env, st) \<Rightarrow> running env st) \<longrightarrow>
       unat (rs_begin_size (snd (bn_procs bn' ! i))) = Suc (unat (rs_begin_size (snd (bn_procs bn ! i))))"
proof -
  obtain env st where p: "bn_procs bn ! i = (env, st)" by (cases "bn_procs bn ! i")
  have ok: "proc_ok conf m T0 N (bn_info bn) (env, st)" using assms p by (metis bench_inv_def list_all_length)
  show ?thesis
  proof (cases "running env st")
    case True
    have conf: "re_conf env = conf" and pk: "peak_run m T0 N env" and ot: "on_time T0 N env (resume bn st)"
      and run: "running env (resume bn st)" and d: "dist_of (rs_info st) = dist_of (bn_info bn)"
      using ok True by (simp_all add: proc_ok_def on_time_def timed_def resume_def running_def)
    have inv: "run_inv (re_conf env) m (resume bn st)"
      using run_inv_resume [OF _ _ d] assms(1) ok conf by (simp add: bench_inv_def proc_ok_def)
    obtain st' where st': "run_step env (resume bn st) = Some (Inr st')" "run_inv (re_conf env) m st'" "on_time T0 N env st'"
      "unat (rs_begin_size st') = Suc (unat (rs_begin_size (resume bn st)))" "dist_of (rs_info st') = dist_of (rs_info (resume bn st))"
      by (rule run_step_clean [OF pk inv ot run])
    have d': "dist_of (rs_info st') = dist_of (bn_info bn)" using st'(5) dist_of_share [OF d] by (simp add: resume_def)
    let ?bn = "store_proc i env st' bn"
    have info: "dist_of (bn_info ?bn) = dist_of (rs_info st')" using dist_of_share [of "bn_info bn" "rs_info st'"] d' by (simp add: store_proc_def)
    have "shared_inv conf m (bn_info ?bn) (bn_file ?bn)"
      using st'(2) info conf shared_inv_info [of conf m "rs_info st'" "rs_file st'" "bn_info ?bn"]
      by (simp add: run_inv_split store_proc_def share_def)
    moreover have "list_all (proc_ok conf m T0 N (bn_info ?bn)) (bn_procs ?bn)"
    proof -
      have "proc_ok conf m T0 N (bn_info ?bn) (env, st')" using conf pk st'(2,3) info ok by (simp add: proc_ok_def run_inv_split)
      moreover have "list_all (proc_ok conf m T0 N (bn_info ?bn)) (bn_procs bn)"
        using assms(1) info d' by (auto simp: bench_inv_def proc_ok_def list_all_iff)
      ultimately show ?thesis using assms(2) by (auto simp: store_proc_def list_all_length nth_list_update)
    qed
    ultimately have "bench_inv conf m T0 N ?bn" by (simp add: bench_inv_def)
    moreover have "turn i bn = Some (Inr ?bn)" using True assms(2) st'(1) p by (simp add: turn_def)
    ultimately show ?thesis using that [of ?bn] assms(2) p True st'(4) by (simp add: store_proc_def resume_def)
  next
    case False
    then show ?thesis using that [of bn] assms p by (simp add: turn_def)
  qed
qed

definition turns_left :: "nat \<Rightarrow> nat list \<Rightarrow> ('s, 'a, 'n) bench \<Rightarrow> bool" where
  \<comment> \<open>the schedule has enough rounds for every process\<close>
  "turns_left N is bn \<longleftrightarrow> (\<forall>i < length (bn_procs bn). case bn_procs bn ! i of (env, st) \<Rightarrow>
     running env st \<longrightarrow> N \<le> unat (rs_begin_size st) + count_list is i)"

lemma running_less: "proc_ok conf m T0 N info (env, st) \<Longrightarrow> running env st \<Longrightarrow> unat (rs_begin_size st) < N"
  by (simp add: proc_ok_def peak_run_def running_def word_less_nat_alt)

lemma schedule_clean:
  assumes "bench_inv conf m T0 N bn" and "set is \<subseteq> {..<length (bn_procs bn)}" and "turns_left N is bn"
  shows "\<exists>bn'. run_schedule is bn = Some (Inr bn') \<and> bench_inv conf m T0 N bn' \<and> length (bn_procs bn') = length (bn_procs bn)"
  using assms
proof (induction "is" arbitrary: bn)
  case Nil
  have "\<not> running env st" if "(env, st) \<in> set (bn_procs bn)" for env st
  proof
    assume run: "running env st"
    obtain i where i: "i < length (bn_procs bn)" "bn_procs bn ! i = (env, st)" using \<open>(env, st) \<in> _\<close> by (metis in_set_conv_nth)
    have "proc_ok conf m T0 N (bn_info bn) (env, st)" using Nil.prems(1) that by (auto simp: bench_inv_def list_all_iff)
    from running_less [OF this run] Nil.prems(3) i run show False by (auto simp: turns_left_def)
  qed
  then show ?case using Nil.prems(1) by (auto simp: split_beta)
next
  case (Cons i "is")
  have i: "i < length (bn_procs bn)" using Cons.prems(2) by simp
  obtain bn1 where bn1: "turn i bn = Some (Inr bn1)" "bench_inv conf m T0 N bn1" "length (bn_procs bn1) = length (bn_procs bn)"
    "\<forall>j < length (bn_procs bn). j \<noteq> i \<longrightarrow> bn_procs bn1 ! j = bn_procs bn ! j"
    "\<not> (case bn_procs bn ! i of (env, st) \<Rightarrow> running env st) \<longrightarrow> bn1 = bn"
    "(case bn_procs bn ! i of (env, st) \<Rightarrow> running env st) \<longrightarrow>
       unat (rs_begin_size (snd (bn_procs bn1 ! i))) = Suc (unat (rs_begin_size (snd (bn_procs bn ! i))))"
    by (rule turn_clean [OF Cons.prems(1) i])
  have "turns_left N is bn1"
    unfolding turns_left_def
  proof (intro allI impI)
    fix j assume j: "j < length (bn_procs bn1)"
    have old: "case bn_procs bn ! j of (env, st) \<Rightarrow> running env st \<longrightarrow> N \<le> unat (rs_begin_size st) + count_list (i # is) j"
      using Cons.prems(3) j bn1(3) by (simp add: turns_left_def)
    show "case bn_procs bn1 ! j of (env, st) \<Rightarrow> running env st \<longrightarrow> N \<le> unat (rs_begin_size st) + count_list is j"
    proof (cases "j = i")
      case True
      show ?thesis
      proof (cases "case bn_procs bn ! i of (env, st) \<Rightarrow> running env st")
        case run: True
        then show ?thesis using bn1(6) old True by (auto simp: split_beta)
      next
        case False
        then show ?thesis using bn1(5) True by (auto simp: split_beta)
      qed
    next
      case False
      then show ?thesis using old bn1(3,4) j by (auto simp: split_beta)
    qed
  qed
  from Cons.IH [OF bn1(2) _ this] Cons.prems(2) bn1(1,3) show ?case by simp
qed

lemma end_clean:
  assumes "run_ready conf m" and "proc_ok conf m T0 N (bn_info bn) (env, st)" and "ready (bn_file bn)"
  shows "\<exists>rep st'. process_end os env (resume bn st) = Inr (rep, st') \<and> rp_errors rep = 0 \<and> rp_online rep = [] \<and>
    ready (rs_file st') \<and> blk (rs_file st') = blk (bn_file bn)"
proof -
  have ok: "re_conf env = conf" "re_io env = io" "re_fd env = fd" "snap_ok T0 (rs_stat st)" "rs_errors st = 0" "rs_lines st = []"
    using assms(2) by (auto simp: proc_ok_def peak_run_def on_time_def timed_def local_inv_def)
  have log: "logfeature conf = 1 \<longrightarrow> re_log_open env" using assms(2) by (simp add: proc_ok_def peak_run_def)
  note r = assms(1) [unfolded run_ready_def]
  let ?st = "(resume bn st)\<lparr>rs_file := io_close io fd (bn_file bn)\<rparr>"
  have f: "ready (io_close io fd (bn_file bn))" "blk (io_close io fd (bn_file bn)) = blk (bn_file bn)"
    using close_file [OF assms(3)] by (simp_all add: stays_open)
  obtain st1 where st1: "last_snapshot env ?st = Inr st1" "rs_file st1 = io_close io fd (bn_file bn)" "rs_errors st1 = 0" "rs_lines st1 = []"
  proof (cases "t1snap (rs_stat st) > last_snap_time (rs_stat st)")
    case True
    then show ?thesis using store_snapshot_total [of T0 ?st env] ok(4-6) that by (auto simp: last_snapshot_def resume_def)
  next
    case False
    then show ?thesis using that [of ?st] ok(5,6) by (simp add: last_snapshot_def resume_def)
  qed
  obtain ident where ident: "proc_text (read_procid conf (re_idproc env) (re_iotype env)) = Inr ident"
    using proc_text_small assms(2) by (auto simp: proc_ok_def)
  have "\<exists>rep. process_report os env st1 = Inr rep \<and> rp_errors rep = 0 \<and> rp_online rep = []"
    using r ident st1(3,4) ok(1) by (simp add: process_report_def Let_def report_file_def)
  then show ?thesis using st1 f log ok(1-3) by (auto simp: process_end_def resume_def)
qed

lemma wait_clean:
  assumes "run_ready conf m" and "list_all (proc_ok conf m T0 N (bn_info bn)) ps" and "ready (bn_file bn)"
  shows "\<exists>reps bn'. wait_all os ps bn = Inr (reps, bn') \<and> length reps = length ps \<and> (\<forall>rep \<in> set reps. rp_errors rep = 0 \<and> rp_online rep = []) \<and>
    bn_info bn' = bn_info bn \<and> ready (bn_file bn') \<and> blk (bn_file bn') = blk (bn_file bn)"
  using assms(2,3)
proof (induction ps arbitrary: bn)
  case (Cons p ps)
  obtain env st where p: "p = (env, st)" by (cases p)
  from end_clean [OF assms(1), of T0 N bn env st os] Cons.prems p obtain rep st' where
    rep: "process_end os env (resume bn st) = Inr (rep, st')" "rp_errors rep = 0" "rp_online rep = []" "ready (rs_file st')" "blk (rs_file st') = blk (bn_file bn)"
    by auto
  from Cons.IH [of "bn\<lparr>bn_file := rs_file st'\<rparr>"] Cons.prems(1) rep(4) obtain reps bn' where
    "wait_all os ps (bn\<lparr>bn_file := rs_file st'\<rparr>) = Inr (reps, bn')" "length reps = length ps" "\<forall>rep \<in> set reps. rp_errors rep = 0 \<and> rp_online rep = []"
    "bn_info bn' = bn_info bn" "ready (bn_file bn')" "blk (bn_file bn') = blk (rs_file st')" by auto
  with rep show ?case by (intro exI [of _ "rep # reps"] exI [of _ bn']) (simp add: p)
qed simp

lemma launch_clean:
  assumes "run_ready conf m" and "sized conf m" and "rawpath conf = path" and "os_io os = io" and "integrity conf = 1 \<or> integrity conf = 3"
    and "os_ready os T0 N" and "N = unat (number_ops conf div word_of_int (share_of conf))"
    and "shared_inv conf m info f"
    and "set schedule \<subseteq> {..<nat (nprocs conf)}" and "\<forall>i < nat (nprocs conf). N \<le> count_list schedule i"
  shows "\<exists>reps info' conf' f' sock'. launch_benchmark os schedule conf info None f sock = Some (Inr (reps, Some (0, []), info', conf', f', sock')) \<and>
    length reps = nat (nprocs conf) \<and> (\<forall>rep \<in> set reps. rp_errors rep = 0 \<and> rp_online rep = [])"
proof -
  let ?conf = "conf\<lparr>nr_proc_w := word_of_int (if mixedIO conf = 1 then nprocs conf sdiv 2 else nprocs conf)\<rparr>"
  have conf: "run_ready ?conf m" "sized ?conf m" "share_of ?conf = share_of conf" "rawpath ?conf = path" "number_ops ?conf = number_ops conf"
    using assms(1-3) by (auto simp: run_ready_def sized_def share_of_def Let_def)
  let ?bn = "\<lparr>bn_procs = [], bn_info = info, bn_file = f, bn_sock = sock\<rparr>"
  have inv: "bench_inv ?conf m T0 N ?bn" using assms(8) by (simp add: bench_inv_def shared_inv_def statistics_fit_def)
  have len: "length (jobs ?conf) = nat (nprocs conf)" by (simp add: jobs_def)
  have N: "N = unat (number_ops ?conf div word_of_int (share_of ?conf))" using assms(7) conf(3,5) by simp
  obtain bn1 where bn1: "fork_all os ?conf info None (jobs ?conf) ?bn = Some (Inr bn1)" "bench_inv ?conf m T0 N bn1"
    "length (bn_procs bn1) = nat (nprocs conf)" "list_all (\<lambda>(env, st). rs_begin_size st = 0) (bn_procs bn1)"
    using fork_clean [OF conf(1,2,4) assms(4,6) N order_refl inv, of info] len by auto
  have "turns_left N schedule bn1"
    using bn1(3,4) assms(10) by (auto simp: turns_left_def list_all_length split_beta)
  from schedule_clean [OF bn1(2) _ this] assms(9) bn1(3) obtain bn2 where
    bn2: "run_schedule schedule bn1 = Some (Inr bn2)" "bench_inv ?conf m T0 N bn2" "length (bn_procs bn2) = nat (nprocs conf)" by auto
  then have sh: "shared_inv ?conf m (bn_info bn2) (bn_file bn2)" by (simp add: bench_inv_def)
  from wait_clean [OF conf(1), of T0 N bn2 "bn_procs bn2" os] bn2(2) sh obtain reps bn3 where
    bn3: "wait_all os (bn_procs bn2) bn2 = Inr (reps, bn3)" "length reps = length (bn_procs bn2)" "\<forall>rep \<in> set reps. rp_errors rep = 0 \<and> rp_online rep = []"
      "bn_info bn3 = bn_info bn2" "ready (bn_file bn3)" "blk (bn_file bn3) = blk (bn_file bn2)" by (auto simp: bench_inv_def shared_inv_def)
  have tr: "tracked (bn_file bn3) 0 (bn_info bn3) m" "tracker_fits 0 m (bn_info bn3)" using sh bn3(4,6) by (simp_all add: shared_inv_def tracked_def)
  note chk = tracked_checkable [OF tr(1)]
  have none: "filter (damaged (bn_file bn3) 0 (bn_info bn3)) [0..<m] = []" using chk by (auto simp: filter_empty_conv)
  have raw: "rawdevice ?conf = 1" using assms(1) by (simp add: run_ready_def)
  have "\<exists>f'. check_integrity io (os_buffer os) True ?conf (bn_info bn3) (bn_file bn3) = Some (Inr (0, [], f'))"
    using check_device [OF conf(2) _ _ tr(2) raw conf(4), of "bn_file bn3" "os_buffer os"] bn3(5) chk by (simp add: none stays_open)
  moreover have "os_opened os name" for name using assms(6) by (simp add: os_ready_def)
  ultimately show ?thesis
    using bn1(1) bn2(1,3) bn3(1-3) raw assms(4,5) by (auto simp: launch_benchmark_def Let_def)
qed

end

end
