(* ===== verification/Dedis_Degree_Correct.thy ===== *)
theory Dedis_Degree_Correct
  imports Dedis_Degree "HOL-Library.Multiset"
begin

text \<open>
  Correctness of the sorted counter array: on keys that do not change, it counts every key, keeps
  the most frequent keys in front and never leaves its arrays; on blocks that are overwritten in
  memory it loses track.
\<close>

section \<open>Descending lists of numbers\<close>

definition above :: "nat list \<Rightarrow> nat \<Rightarrow> nat" where
  "above C v = length (filter ((<) v) C)"

definition equal_to :: "nat list \<Rightarrow> nat \<Rightarrow> nat" where
  "equal_to C v = length (filter ((=) v) C)"

lemma length_filter_update:
  "q < length xs \<Longrightarrow> length (filter P (xs[q := y])) + of_bool (P (xs ! q)) = length (filter P xs) + of_bool (P y)"
proof (induction xs arbitrary: q)
  case (Cons x xs)
  then show ?case by (cases q) auto
qed simp

lemma above_Suc: "above C v = above C (Suc v) + equal_to C (Suc v)"
  by (induction C) (auto simp: above_def equal_to_def)

lemma above_le: "above C v \<le> length C" and equal_to_le: "equal_to C v \<le> length C"
  by (simp_all add: above_def equal_to_def)

lemma equal_to_pos: "i < length C \<Longrightarrow> 0 < equal_to C (C ! i)"
  by (auto simp: equal_to_def filter_empty_conv)

lemma desc_filter: "sorted_wrt (\<ge>) (C :: nat list) \<Longrightarrow> filter ((<) v) C = takeWhile ((<) v) C"
proof (induction C)
  case (Cons c C)
  show ?case
  proof (cases "v < c")
    case False
    then have "filter ((<) v) C = []" using Cons.prems by (auto simp: filter_empty_conv)
    with False show ?thesis by simp
  qed (use Cons in simp)
qed simp

lemma desc_front:
  assumes "sorted_wrt (\<ge>) (C :: nat list)"
  shows "j < above C v \<Longrightarrow> v < C ! j" and "above C v \<le> j \<Longrightarrow> j < length C \<Longrightarrow> C ! j \<le> v"
proof -
  have len: "above C v = length (takeWhile ((<) v) C)" using desc_filter [OF assms] by (simp add: above_def)
  then show "j < above C v \<Longrightarrow> v < C ! j"
    by (metis nth_mem set_takeWhileD takeWhile_nth)
  assume j: "above C v \<le> j" "j < length C"
  then have "\<not> v < C ! above C v" using nth_length_takeWhile [of "(<) v" C] len by auto
  moreover have "C ! j \<le> C ! above C v"
    using j sorted_wrt_nth_less [OF assms, of "above C v" j] by (cases "j = above C v") auto
  ultimately show "C ! j \<le> v" by simp
qed

lemma bump_counts:
  assumes "q < length C" and "C ! q = c"
  shows "above (C[q := Suc c]) v = above C v + of_bool (v = c)"
    and "equal_to (C[q := Suc c]) v + of_bool (v = c) = equal_to C v + of_bool (v = Suc c)"
proof -
  show "above (C[q := Suc c]) v = above C v + of_bool (v = c)"
    using length_filter_update [OF assms(1), of "(<) v" "Suc c"] assms(2)
    by (cases "v < c"; cases "v = c") (simp_all add: above_def)
  show "equal_to (C[q := Suc c]) v + of_bool (v = c) = equal_to C v + of_bool (v = Suc c)"
    using length_filter_update [OF assms(1), of "(=) v" "Suc c"] assms(2) by (simp add: equal_to_def)
qed

lemma bump_desc:
  assumes "sorted_wrt (\<ge>) (C :: nat list)" and "i < length C" and "C ! i = c" and "q = above C c"
  shows "q \<le> i" and "C ! q = c" and "sorted_wrt (\<ge>) (C[q := Suc c])"
proof -
  show qi: "q \<le> i" using desc_front(1) [OF assms(1), of i c] assms(3,4) by (cases "q \<le> i") auto
  show q: "C ! q = c"
    using desc_front(2) [OF assms(1), of c q] sorted_wrt_nth_less [OF assms(1), of q i] assms(2-4) qi
    by (cases "q = i") auto
  show "sorted_wrt (\<ge>) (C[q := Suc c])"
    unfolding sorted_wrt_iff_nth_less
  proof (intro allI impI)
    fix a b assume ab: "a < b" "b < length (C[q := Suc c])"
    have le: "C ! b \<le> C ! a" using sorted_wrt_nth_less [OF assms(1) ab(1)] ab(2) by simp
    have "a < q \<Longrightarrow> c < C ! a" using desc_front(1) [OF assms(1)] assms(4) by simp
    then show "C[q := Suc c] ! b \<le> C[q := Suc c] ! a"
      using ab le q less_trans [of a b "length C"] by (cases "b = q"; cases "a = q") auto
  qed
qed

section \<open>The invariant\<close>

definition cnts :: "'e sorted_counter_array \<Rightarrow> nat list" where
  "cnts sca = map (\<lambda>ce. unat (counter ce)) (sorted_array sca)"

definition keys_of :: "('e \<Rightarrow> u64) \<Rightarrow> 'e sorted_counter_array \<Rightarrow> u64 list" where
  "keys_of getKey sca = map (\<lambda>ce. getKey (element ce)) (sorted_array sca)"

definition indexed :: "u64 list \<Rightarrow> (u64 \<Rightarrow> u64 option) \<Rightarrow> bool" where
  \<comment> \<open>the table maps every key to its position\<close>
  "indexed K ht \<longleftrightarrow> (\<forall>k i. ht k = Some i \<longleftrightarrow> unat i < length K \<and> K ! unat i = k)"

definition buckets :: "nat list \<Rightarrow> counter_by_index_length list \<Rightarrow> bool" where
  \<comment> \<open>the entry for a value has the position of its run exactly, and its length up to one too many\<close>
  "buckets C sc \<longleftrightarrow> sc \<noteq> [] \<and> (\<forall>c \<in> set C. 0 < c \<and> c \<le> length sc) \<and>
     (\<forall>b < length sc. unat (cb_index (sc ! b)) = above C (Suc b) \<and>
        equal_to C (Suc b) \<le> unat (cb_size (sc ! b)) \<and> unat (cb_size (sc ! b)) \<le> Suc (equal_to C (Suc b)))"

definition sca_inv :: "('e \<Rightarrow> u64) \<Rightarrow> nat \<Rightarrow> 'e sorted_counter_array \<Rightarrow> bool" where
  \<comment> \<open>after \<open>n\<close> increments\<close>
  "sca_inv getKey n sca \<longleftrightarrow> length (sorted_array sca) \<le> n \<and> length (sorted_counter sca) \<le> Suc n \<and>
     distinct (keys_of getKey sca) \<and> indexed (keys_of getKey sca) (hash_table sca) \<and>
     sorted_wrt (\<ge>) (cnts sca) \<and> buckets (cnts sca) (sorted_counter sca)"

definition degree :: "'e sorted_counter_array \<Rightarrow> u64 \<Rightarrow> nat" where
  "degree sca k = (case hash_table sca k of None \<Rightarrow> 0 | Some i \<Rightarrow> unat (counter (sorted_array sca ! unat i)))"

lemma new_sca_inv: "sca_inv getKey 0 new_sorted_counter_array" "degree new_sorted_counter_array k = 0"
  by (simp_all add: sca_inv_def new_sorted_counter_array_def new_counter_by_index_length_def keys_of_def cnts_def
      indexed_def buckets_def above_def equal_to_def degree_def)

section \<open>A new element\<close>

lemma indexed_None: "indexed K ht \<Longrightarrow> length K < 2 ^ 64 \<Longrightarrow> ht k = None \<longleftrightarrow> k \<notin> set K"
proof -
  assume K: "indexed K ht" and len: "length K < 2 ^ 64"
  have "ht (K ! j) = Some (word_of_nat j)" if "j < length K" for j
    using K that len unat_of_nat_small [of j, where 'a = 64] by (simp add: indexed_def)
  then show ?thesis using K by (auto simp: indexed_def in_set_conv_nth not_Some_eq [symmetric])
qed

lemma indexed_append:
  assumes "indexed K ht" and "k \<notin> set K" and "length K < 2 ^ 32"
  shows "indexed (K @ [k]) (ht(k \<mapsto> word_of_nat (length K)))"
proof -
  have u: "unat (word_of_nat (length K) :: u64) = length K" using assms(3) by (intro unat_of_nat_small) simp
  have at: "i = word_of_nat (length K) \<longleftrightarrow> unat i = length K" for i :: u64
    using word_of_unat [of i] u by metis
  have old: "ht k' = Some i \<longleftrightarrow> unat i < length K \<and> K ! unat i = k'" for k' i
    using assms(1) by (simp add: indexed_def)
  have nth: "(K @ [k]) ! unat i = (if unat i < length K then K ! unat i else k)" if "unat i < Suc (length K)" for i :: u64
    using that by (simp add: nth_append)
  have "(ht(k \<mapsto> word_of_nat (length K))) k' = Some i \<longleftrightarrow> unat i < Suc (length K) \<and> (K @ [k]) ! unat i = k'" for k' i
  proof (cases "unat i < length K")
    case True
    then have "K ! unat i \<noteq> k" using assms(2) nth_mem by metis
    with True show ?thesis using old [of k' i] at [of i] nth [of i] by (simp only: fun_upd_apply) auto
  next
    case False
    then show ?thesis using old [of k' i] at [of i] nth [of i] by (simp only: fun_upd_apply) auto
  qed
  then show ?thesis by (simp add: indexed_def)
qed

lemma bucket_new:
  assumes "buckets C (r # rest)" and "length C < 2 ^ 32"
  shows "buckets (C @ [1]) (r\<lparr>cb_size := cb_size r + 1\<rparr> # rest)"
proof -
  have 0: "equal_to C 1 \<le> unat (cb_size r)" "unat (cb_size r) \<le> Suc (equal_to C 1)"
    using assms(1) by (auto simp: buckets_def)
  then have "unat (cb_size r + 1) = unat (cb_size r) + 1"
    using equal_to_le [of C 1] assms(2) unat_add_of_nat [of "cb_size r" 1] by simp
  moreover have "above (C @ [1]) (Suc b) = above C (Suc b)" "equal_to (C @ [1]) (Suc b) = equal_to C (Suc b) + of_bool (b = 0)" for b
    by (simp_all add: above_def equal_to_def)
  ultimately show ?thesis using assms(1) 0 by (auto simp: buckets_def nth_Cons' less_Suc_eq_0_disj)
qed

lemma add_element_correct:
  assumes "sca_inv getKey n sca" and "n < 2 ^ 31" and "hash_table sca (getKey e) = None"
  shows "\<exists>sca'. sorted_counter_array_add_element getKey e sca = Inr sca' \<and> sca_inv getKey (Suc n) sca' \<and>
    (\<forall>k. degree sca' k = degree sca k + of_bool (k = getKey e))"
proof -
  let ?arr = "sorted_array sca"
  obtain r rest where sc: "sorted_counter sca = r # rest"
    using assms(1) by (cases "sorted_counter sca") (auto simp: sca_inv_def buckets_def)
  have len: "length ?arr < 2 ^ 32" using assms(1,2) by (simp add: sca_inv_def)
  have new: "getKey e \<notin> set (keys_of getKey sca)"
    using indexed_None [of "keys_of getKey sca" "hash_table sca" "getKey e"] assms(1,3) len by (simp add: sca_inv_def keys_of_def)
  define sca' where "sca' = \<lparr>sorted_array = ?arr @ [\<lparr>counter = 1, element = e\<rparr>],
    hash_table = (hash_table sca)(getKey e \<mapsto> word_of_nat (length ?arr)), sorted_counter = r\<lparr>cb_size := cb_size r + 1\<rparr> # rest\<rparr>"
  have run: "sorted_counter_array_add_element getKey e sca = Inr sca'"
    by (simp add: sorted_counter_array_add_element_def sc sca'_def)
  have view: "keys_of getKey sca' = keys_of getKey sca @ [getKey e]" "cnts sca' = cnts sca @ [1]"
    by (simp_all add: keys_of_def cnts_def sca'_def)
  have "indexed (keys_of getKey sca') (hash_table sca')"
    using indexed_append [OF _ new] assms(1) len by (simp add: view(1)) (simp add: sca'_def sca_inv_def keys_of_def)
  moreover have "buckets (cnts sca') (sorted_counter sca')"
    using bucket_new [of "cnts sca" r rest] assms(1) len by (simp add: view(2)) (simp add: sca'_def sca_inv_def sc cnts_def)
  moreover have "sorted_wrt (\<ge>) (cnts sca')"
    using assms(1) by (auto simp: view(2) sorted_wrt_append sca_inv_def buckets_def Suc_le_eq)
  ultimately have "sca_inv getKey (Suc n) sca'"
    using assms(1) new unfolding sca_inv_def view by (auto simp: sca'_def sc)
  moreover have "degree sca' k = degree sca k + of_bool (k = getKey e)" for k
  proof -
    have "unat i < length ?arr" if "hash_table sca k = Some i" for i
      using assms(1) that by (auto simp: sca_inv_def indexed_def keys_of_def)
    moreover have "unat (word_of_nat (length ?arr) :: u64) = length ?arr" using len by (intro unat_of_nat_small) simp
    ultimately show ?thesis using assms(3)
      by (auto simp: degree_def sca'_def nth_append split: option.split)
  qed
  ultimately show ?thesis using run by blast
qed

section \<open>A known element\<close>

lemma indexed_iff:
  assumes "distinct K" and "length K < 2 ^ 64"
  shows "indexed K ht \<longleftrightarrow> (\<forall>j < length K. ht (K ! j) = Some (word_of_nat j)) \<and> (\<forall>k. k \<notin> set K \<longrightarrow> ht k = None)"
proof
  assume "indexed K ht"
  moreover have "unat (word_of_nat j :: u64) = j" if "j < length K" for j
    using that assms(2) by (intro unat_of_nat_small) simp
  ultimately show "(\<forall>j < length K. ht (K ! j) = Some (word_of_nat j)) \<and> (\<forall>k. k \<notin> set K \<longrightarrow> ht k = None)"
    using indexed_None [OF _ assms(2), of ht] by (simp add: indexed_def)
next
  assume ht: "(\<forall>j < length K. ht (K ! j) = Some (word_of_nat j)) \<and> (\<forall>k. k \<notin> set K \<longrightarrow> ht k = None)"
  have "ht k = Some i \<longleftrightarrow> unat i < length K \<and> K ! unat i = k" for k i
  proof
    assume i: "ht k = Some i"
    with ht obtain j where j: "j < length K" "k = K ! j" by (metis in_set_conv_nth option.distinct(1))
    then have "i = word_of_nat j" using ht i by simp
    moreover have "unat (word_of_nat j :: u64) = j" using j(1) assms(2) by (intro unat_of_nat_small) simp
    ultimately show "unat i < length K \<and> K ! unat i = k" using j by simp
  next
    assume i: "unat i < length K \<and> K ! unat i = k"
    then have "ht k = Some (word_of_nat (unat i))" using ht by blast
    then show "ht k = Some i" by (simp only: word_of_unat)
  qed
  then show "indexed K ht" by (simp add: indexed_def)
qed

lemma indexed_swap:
  assumes "indexed K ht" and "distinct K" and "length K < 2 ^ 64" and "i < length K" and "q < length K"
  shows "indexed (K[i := K ! q, q := K ! i]) (ht(K ! i := ht (K ! q), K ! q := ht (K ! i)))"
proof -
  let ?K = "K[i := K ! q, q := K ! i]" and ?ht = "ht(K ! i := ht (K ! q), K ! q := ht (K ! i))"
  have old: "\<And>j. j < length K \<Longrightarrow> ht (K ! j) = Some (word_of_nat j)" "\<And>k. k \<notin> set K \<Longrightarrow> ht k = None"
    using assms(1) indexed_iff [OF assms(2,3)] by simp_all
  have K: "distinct ?K" "set ?K = set K" "length ?K = length K"
    using assms by (simp_all add: distinct_swap set_swap)
  have "?ht (?K ! j) = Some (word_of_nat j)" if "j < length K" for j
  proof -
    consider "j = q" | "j = i" "j \<noteq> q" | "j \<noteq> i" "j \<noteq> q" by blast
    then show ?thesis
    proof cases
      case 1
      then show ?thesis using old(1) assms(4,5) by (simp add: nth_eq_iff_index_eq [OF assms(2)])
    next
      case 2
      then show ?thesis using old(1) assms(4,5) by simp
    next
      case 3
      then have "K ! j \<noteq> K ! i" "K ! j \<noteq> K ! q" using that assms(4,5) by (simp_all add: nth_eq_iff_index_eq [OF assms(2)])
      then show ?thesis using 3 old(1) [OF that] by simp
    qed
  qed
  moreover have "?ht k = None" if "k \<notin> set K" for k
  proof -
    have "k \<noteq> K ! i" "k \<noteq> K ! q" using that assms(4,5) by auto
    then show ?thesis using old(2) [OF that] by simp
  qed
  ultimately show ?thesis using indexed_iff [OF K(1)] K(2,3) assms(3) by simp
qed

definition bump_buckets :: "nat \<Rightarrow> u64 \<Rightarrow> counter_by_index_length list \<Rightarrow> counter_by_index_length list" where
  \<comment> \<open>what an increment of an element with counter \<open>c\<close> does to the runs\<close>
  "bump_buckets c ix sc =
     (let sc1 = shrink_bucket (c - 1) sc;
          sc2 = (if c = length sc1 then sc1 @ [new_counter_by_index_length 0 1] else sc1);
          run = sc2 ! c
      in sc2[c := if cb_size run = 0 then \<lparr>cb_index = ix, cb_size = 1\<rparr> else run\<lparr>cb_size := cb_size run + 1\<rparr>])"

lemma length_bump_buckets: "length (bump_buckets c ix sc) = (if c = length sc then Suc (length sc) else length sc)"
  by (simp add: bump_buckets_def Let_def shrink_bucket_def)

lemma nth_bump_buckets:
  assumes "0 < c" and "c \<le> length sc" and "b < length (bump_buckets c ix sc)"
  shows "bump_buckets c ix sc ! b =
    (if b = c then if c = length sc then \<lparr>cb_index = 0, cb_size = 2\<rparr>
       else if cb_size (sc ! c) = 0 then \<lparr>cb_index = ix, cb_size = 1\<rparr> else (sc ! c)\<lparr>cb_size := cb_size (sc ! c) + 1\<rparr>
     else if b = c - 1 then \<lparr>cb_index = cb_index (sc ! b) + 1, cb_size = cb_size (sc ! b) - 1\<rparr> else sc ! b)"
  using assms by (auto simp: bump_buckets_def Let_def shrink_bucket_def new_counter_by_index_length_def nth_append)

lemma buckets_bump:
  assumes "buckets C sc" and "q < length C" and "C ! q = c" and "q = above C c" and "unat ix = q" and "length C < 2 ^ 32"
  shows "buckets (C[q := Suc c]) (bump_buckets c ix sc)"
proof -
  let ?C = "C[q := Suc c]" and ?sc = "bump_buckets c ix sc"
  have c: "0 < c" "c \<le> length sc" using assms(1-3) nth_mem by (auto simp: buckets_def)
  have old: "unat (cb_index (sc ! b)) = above C (Suc b)" "equal_to C (Suc b) \<le> unat (cb_size (sc ! b))"
    "unat (cb_size (sc ! b)) \<le> Suc (equal_to C (Suc b))" if "b < length sc" for b
    using assms(1) that by (simp_all add: buckets_def)
  note nth = nth_bump_buckets [OF c, of _ ix]
  note new = bump_counts [OF assms(2,3)]
  have ctr: "0 < x \<and> x \<le> length ?sc" if "x \<in> set ?C" for x
  proof -
    have "x \<in> insert (Suc c) (set C)" using that set_update_subset_insert by fast
    then show ?thesis using assms(1) c by (auto simp: length_bump_buckets buckets_def)
  qed
  have eq_small: "equal_to C v < 2 ^ 32" "above C v < 2 ^ 32" for v
    using equal_to_le [of C v] above_le [of C v] assms(6) by linarith+
  have "unat (cb_index (?sc ! b)) = above ?C (Suc b) \<and> equal_to ?C (Suc b) \<le> unat (cb_size (?sc ! b)) \<and>
      unat (cb_size (?sc ! b)) \<le> Suc (equal_to ?C (Suc b))" if b: "b < length ?sc" for b
  proof -
    consider (top) "b = c" "c = length sc" | (reset) "b = c" "c < length sc" "cb_size (sc ! c) = 0"
      | (grow) "b = c" "c < length sc" "cb_size (sc ! c) \<noteq> 0" | (shrink) "b = c - 1" | (other) "b \<noteq> c" "b \<noteq> c - 1"
      using c(2) by linarith
    then show ?thesis
    proof cases
      case top
      have "above C (Suc c) = 0" "equal_to C (Suc c) = 0"
        using assms(1) top(2) by (auto simp: above_def equal_to_def filter_empty_conv buckets_def)
      then show ?thesis using nth [OF b] top new [of "Suc c"] by simp
    next
      case reset
      then have "equal_to C (Suc c) = 0" using old(2) [OF reset(2)] by simp
      then show ?thesis using nth [OF b] reset new [of "Suc c"] above_Suc [of C c] assms(4,5) by simp
    next
      case grow
      have "unat (cb_size (sc ! c) + 1) = unat (cb_size (sc ! c)) + 1"
        using unat_add_of_nat [of "cb_size (sc ! c)" 1] old(3) [OF grow(2)] eq_small(1) [of "Suc c"] by simp
      then show ?thesis using nth [OF b] grow new [of "Suc c"] old [OF grow(2)] by simp
    next
      case shrink
      have b': "b < length sc" "Suc b = c" using shrink c by auto
      have pos: "0 < equal_to C c" using equal_to_pos [OF assms(2)] assms(3) by simp
      have "unat (cb_index (sc ! b) + 1) = unat (cb_index (sc ! b)) + 1"
        using unat_add_of_nat [of "cb_index (sc ! b)" 1] old(1) [OF b'(1)] eq_small(2) [of "Suc b"] by simp
      moreover have "unat (cb_size (sc ! b) - 1) = unat (cb_size (sc ! b)) - 1"
        using unat_sub_of_nat [of 1 "cb_size (sc ! b)"] old(2) [OF b'(1)] pos b'(2) by simp
      moreover have "b \<noteq> c" using b'(2) by simp
      ultimately show ?thesis using nth [OF b] shrink new [of c] old [OF b'(1)] b'(2) pos by auto (arith+)
    next
      case other
      then have "b < length sc" using b c(2) by (auto simp: length_bump_buckets split: if_splits)
      moreover have "Suc b \<noteq> c" using other(2) by auto
      ultimately show ?thesis using nth [OF b] other new [of "Suc b"] old [of b] by simp
    qed
  qed
  moreover have "?sc \<noteq> []" using c length_bump_buckets [of c ix sc] by (auto split: if_splits)
  ultimately show ?thesis using ctr by (simp add: buckets_def)
qed

lemma swap_counts:
  assumes "i < length C" and "q < length C" and "C ! i = c" and "C ! q = c"
  shows "C[i := Suc c, i := C[i := Suc c] ! q, q := Suc c] = C[q := Suc c]"
  using assms by (intro nth_equalityI) (auto simp: nth_list_update)

lemma incr_element_step:
  assumes inv: "sca_inv getKey n sca" and n: "n < 2 ^ 31" and k: "hash_table sca k = Some ix"
    and c: "c = cnts sca ! unat ix" and q: "q = above (cnts sca) c"
  shows "\<exists>sca' qx. sorted_counter_array_incr_element getKey k ix sca = Inr sca' \<and> unat qx = q \<and> q < length (cnts sca) \<and>
    cnts sca ! q = c \<and> cnts sca' = (cnts sca)[q := Suc c] \<and>
    keys_of getKey sca' = (keys_of getKey sca)[unat ix := keys_of getKey sca ! q, q := k] \<and>
    hash_table sca' = (hash_table sca)(k := Some qx, keys_of getKey sca ! q := Some ix) \<and>
    sorted_counter sca' = bump_buckets c qx (sorted_counter sca)"
proof -
  let ?arr = "sorted_array sca" and ?sc = "sorted_counter sca" and ?C = "cnts sca" and ?K = "keys_of getKey sca"
  let ?i = "unat ix" and ?ce = "sorted_array sca ! unat ix"
  have len: "length ?C = length ?arr" "length ?K = length ?arr" by (simp_all add: cnts_def keys_of_def)
  have i: "?i < length ?arr" "?K ! ?i = k" using inv k by (auto simp: sca_inv_def indexed_def len)
  have desc: "sorted_wrt (\<ge>) ?C" and bk: "buckets ?C ?sc" and idx: "indexed ?K (hash_table sca)" and dist: "distinct ?K"
    using inv by (simp_all add: sca_inv_def)
  note front = bump_desc [OF desc _ c [symmetric] q]
  have qi: "q \<le> ?i" "?C ! q = c" using front i(1) by (simp_all add: len)
  then have qlt: "q < length ?arr" using i(1) by simp
  have cpos: "0 < c" "c \<le> length ?sc" using bk i(1) nth_mem [of ?i ?C] by (auto simp: buckets_def c len)
  have cn: "c \<le> Suc n" using cpos inv by (simp add: sca_inv_def)
  have cnt: "unat (counter ?ce) = c" using i(1) by (simp add: c cnts_def)
  have up: "unat (counter ?ce + 1) = Suc c" using unat_add_of_nat [of "counter ?ce" 1] cnt cn n by simp
  define b where "b = c - 1"
  have cb: "c - Suc 0 = b" by (simp add: b_def)
  have down: "unat (counter ?ce + 1 - 2) = b"
    using unat_sub_of_nat [of 2 "counter ?ce + 1"] up cpos(1) by (simp add: b_def)
  have b: "b < length ?sc" "Suc b = c" using cpos by (auto simp: b_def)
  have ix_q: "unat (cb_index (?sc ! b)) = q" and sz: "0 < cb_size (?sc ! b)"
  proof -
    have old: "unat (cb_index (?sc ! b)) = above ?C c" "equal_to ?C c \<le> unat (cb_size (?sc ! b))"
      using bk b by (auto simp: buckets_def)
    then show "unat (cb_index (?sc ! b)) = q" using q by simp
    show "0 < cb_size (?sc ! b)" using old(2) equal_to_pos [of ?i ?C] i(1) by (simp add: len c [symmetric] word_less_nat_alt)
  qed
  define qx where "qx = cb_index (?sc ! b)"
  have k2: "hash_table sca (?K ! q) = Some qx" using idx qlt ix_q by (simp add: indexed_def len qx_def)
  define arr1 where "arr1 = ?arr[?i := ?ce\<lparr>counter := counter ?ce + 1\<rparr>]"
  have el: "getKey (element (arr1 ! q)) = ?K ! q" using qlt i(1) by (cases "q = ?i") (simp_all add: arr1_def keys_of_def)
  have ai: "arr1 ! ?i = ?ce\<lparr>counter := counter ?ce + 1\<rparr>" "length arr1 = length ?arr" using i(1) by (simp_all add: arr1_def)
  have at_q: "counter (arr1[?i := arr1 ! q, q := arr1 ! ?i] ! q) - 1 = counter ?ce" using ai qlt by simp
  define ht2 where "ht2 = (hash_table sca)(k := Some qx, ?K ! q := Some ix)"
  have the_k: "the (ht2 k) = qx"
  proof (cases "k = ?K ! q")
    case True
    then show ?thesis using k k2 by (simp add: ht2_def)
  qed (simp add: ht2_def)
  define sca' where "sca' = \<lparr>sorted_array = arr1[?i := arr1 ! q, q := arr1 ! ?i], hash_table = ht2,
    sorted_counter = bump_buckets c qx ?sc\<rparr>"
  have found: "first_bucket ?sc b = Some b" using b(1) sz by (simp add: first_bucket.simps)
  have sc2: "c < length (if c = length (shrink_bucket b ?sc) then shrink_bucket b ?sc @ [new_counter_by_index_length 0 1]
      else shrink_bucket b ?sc)" using cpos by (simp add: shrink_bucket_def)
  have "sorted_counter_array_incr_element getKey k ix sca = incr_added getKey k ?i b (sca\<lparr>sorted_array := arr1\<rparr>)"
    using i(1) found down by (simp add: sorted_counter_array_incr_element_def Let_def arr1_def)
  also have "\<dots> = Inr sca'"
    using qlt k k2 sc2 the_k
    by (simp add: incr_added_def Let_def ix_q ai el sorted_counter_array_swap2_def at_q [unfolded ai] cnt ht2_def [symmetric]
        sca'_def bump_buckets_def cb)
  finally have run: "sorted_counter_array_incr_element getKey k ix sca = Inr sca'" .
  have "cnts sca' = ?C[q := Suc c]"
  proof -
    let ?f = "\<lambda>ce :: 'a counter_element. unat (counter ce)"
    have f: "map ?f arr1 = ?C[?i := Suc c]" by (simp add: arr1_def map_update cnts_def up)
    have at: "?f (arr1 ! ?i) = Suc c" "?f (arr1 ! q) = ?C[?i := Suc c] ! q"
      using ai(1) up nth_map [of q arr1 ?f] qlt ai(2) by (simp_all add: f)
    have "cnts sca' = (map ?f arr1)[?i := ?f (arr1 ! q), q := ?f (arr1 ! ?i)]"
      by (simp add: cnts_def sca'_def map_update)
    also have "\<dots> = ?C[q := Suc c]"
      unfolding f at using swap_counts [OF _ _ c [symmetric] qi(2)] i(1) qlt by (simp add: len)
    finally show ?thesis .
  qed
  moreover have "keys_of getKey sca' = ?K[?i := ?K ! q, q := k]"
  proof -
    have "map (\<lambda>ce. getKey (element ce)) arr1 = ?K" using i(1) by (simp add: arr1_def map_update keys_of_def list_update_same_conv)
    then show ?thesis using el i by (simp add: keys_of_def sca'_def map_update ai)
  qed
  ultimately show ?thesis using run ix_q qlt qi(2) by (intro exI [of _ sca'] exI [of _ qx]) (simp add: sca'_def ht2_def qx_def len)
qed

lemma degree_cnts:
  assumes "sca_inv getKey m s"
  shows "degree s k = (case hash_table s k of None \<Rightarrow> 0 | Some j \<Rightarrow> cnts s ! unat j)"
proof (cases "hash_table s k")
  case (Some j)
  then have "unat j < length (sorted_array s)" using assms by (auto simp: sca_inv_def indexed_def keys_of_def)
  then show ?thesis using Some by (simp add: degree_def cnts_def)
qed (simp add: degree_def)

lemma incr_element_correct:
  assumes inv: "sca_inv getKey n sca" and n: "n < 2 ^ 31" and k: "hash_table sca k = Some ix"
  shows "\<exists>sca'. sorted_counter_array_incr_element getKey k ix sca = Inr sca' \<and> sca_inv getKey (Suc n) sca' \<and>
    (\<forall>k'. degree sca' k' = degree sca k' + of_bool (k' = k))"
proof -
  let ?C = "cnts sca" and ?K = "keys_of getKey sca" and ?i = "unat ix"
  define c where "c = ?C ! ?i"
  define q where "q = above ?C c"
  obtain sca' qx where run: "sorted_counter_array_incr_element getKey k ix sca = Inr sca'"
    and q': "unat qx = q" "q < length ?C" "?C ! q = c" and view: "cnts sca' = ?C[q := Suc c]" "keys_of getKey sca' = ?K[?i := ?K ! q, q := k]"
      "hash_table sca' = (hash_table sca)(k := Some qx, ?K ! q := Some ix)"
      "sorted_counter sca' = bump_buckets c qx (sorted_counter sca)"
    using incr_element_step [OF inv n k c_def q_def] by blast
  have len: "length ?K = length ?C" "length (sorted_array sca) = length ?C" "length (sorted_array sca') = length (cnts sca')"
    by (simp_all add: keys_of_def cnts_def)
  have small: "length ?C < 2 ^ 32" using inv n len(2) by (simp add: sca_inv_def)
  have idx: "indexed ?K (hash_table sca)" and dist: "distinct ?K" using inv by (simp_all add: sca_inv_def)
  have i: "?i < length ?K" "?K ! ?i = k" using idx k by (auto simp: indexed_def)
  have kq: "hash_table sca (?K ! q) = Some qx" using idx q' by (simp add: indexed_def len)
  have "indexed (keys_of getKey sca') (hash_table sca')"
    using indexed_swap [OF idx dist _ i(1), of q] small q'(2) i(2) k kq by (simp add: view len)
  moreover have "buckets (cnts sca') (sorted_counter sca')"
    unfolding view using buckets_bump [OF _ q'(2,3) q_def q'(1) small] inv by (simp add: sca_inv_def)
  moreover have "sorted_wrt (\<ge>) (cnts sca')"
    unfolding view using bump_desc(3) [OF _ _ c_def [symmetric] q_def] inv i(1) by (simp add: sca_inv_def len)
  moreover have "distinct (keys_of getKey sca')" using dist i q'(2) by (simp add: view len distinct_swap [of ?i _ q] i(2) [symmetric])
  moreover have "length (sorted_counter sca') \<le> Suc (Suc n)"
    using inv by (auto simp: view(4) length_bump_buckets sca_inv_def)
  ultimately have inv': "sca_inv getKey (Suc n) sca'"
    using inv len by (simp add: sca_inv_def view(1) len(3))
  note deg = degree_cnts [of getKey]
  have "degree sca' k' = degree sca k' + of_bool (k' = k)" for k'
  proof -
    have sw: "?C ! ?i = c" "?C[q := Suc c] ! ?i = (if ?i = q then Suc c else c)" "?C[q := Suc c] ! q = Suc c"
      using q'(2) by (simp_all add: c_def)
    have same: "?i = q \<longleftrightarrow> ?K ! q = k" using i q'(2) dist by (auto simp: len nth_eq_iff_index_eq)
    consider (front) "k' = ?K ! q" | (key) "k' = k" "k' \<noteq> ?K ! q" | (other) "k' \<noteq> k" "k' \<noteq> ?K ! q" by blast
    then show ?thesis
    proof cases
      case front
      then show ?thesis unfolding deg [OF inv'] deg [OF inv] view using sw same kq q' by simp
    next
      case key
      then show ?thesis unfolding deg [OF inv'] deg [OF inv] view using sw k q' by simp
    next
      case other
      have "unat j \<noteq> q" if "hash_table sca k' = Some j" for j using idx that other(2) by (auto simp: indexed_def)
      then show ?thesis unfolding deg [OF inv'] deg [OF inv] view using other by (auto split: option.split)
    qed
  qed
  with run inv' show ?thesis by blast
qed

lemma incr_correct:
  assumes "sca_inv getKey n sca" and "n < 2 ^ 31"
  shows "\<exists>sca'. sorted_counter_array_incr getKey e sca = Inr sca' \<and> sca_inv getKey (Suc n) sca' \<and>
    (\<forall>k. degree sca' k = degree sca k + of_bool (k = getKey e))"
proof (cases "hash_table sca (getKey e)")
  case None
  then show ?thesis using add_element_correct [OF assms None] by (simp add: sorted_counter_array_incr_def)
next
  case (Some ix)
  then show ?thesis using incr_element_correct [OF assms Some] by (simp add: sorted_counter_array_incr_def)
qed

section \<open>Counters as an interface\<close>

fun incr_seq :: "('e \<Rightarrow> 's \<Rightarrow> 's res) \<Rightarrow> 'e list \<Rightarrow> 's \<Rightarrow> 's res" where
  "incr_seq incr [] s = Inr s"
| "incr_seq incr (e # es) s = rbind (incr e s) (incr_seq incr es)"

text \<open>
  What the clients of a counter rely on: an increment succeeds as long as there is room, and adds
  one to the count of its key and of no other.
\<close>

locale counting =
  fixes empty :: 's
    and incr :: "'e \<Rightarrow> 's \<Rightarrow> 's res"
    and key :: "'e \<Rightarrow> u64"
    and count_of :: "'s \<Rightarrow> u64 \<Rightarrow> nat"
    and invar :: "nat \<Rightarrow> 's \<Rightarrow> bool"
    and room :: nat
  assumes invar_empty: "invar 0 empty"
    and count_empty: "count_of empty k = 0"
    and incr_ok: "invar n s \<Longrightarrow> n < room \<Longrightarrow>
      \<exists>s'. incr e s = Inr s' \<and> invar (Suc n) s' \<and> (\<forall>k. count_of s' k = count_of s k + of_bool (k = key e))"
begin

lemma incr_all_from:
  "invar n s \<Longrightarrow> n + length es \<le> room \<Longrightarrow>
   \<exists>s'. incr_seq incr es s = Inr s' \<and> invar (n + length es) s' \<and> (\<forall>k. count_of s' k = count_of s k + count_list (map key es) k)"
proof (induction es arbitrary: n s)
  case Nil
  then show ?case by simp
next
  case (Cons e es)
  from incr_ok [OF Cons.prems(1), of e] Cons.prems(2) obtain s1 where
    s1: "incr e s = Inr s1" "invar (Suc n) s1" "\<forall>k. count_of s1 k = count_of s k + of_bool (k = key e)" by auto
  from Cons.IH [OF s1(2)] Cons.prems(2) obtain s' where
    "incr_seq incr es s1 = Inr s'" "invar (Suc n + length es) s'" "\<forall>k. count_of s' k = count_of s1 k + count_list (map key es) k" by auto
  with s1 show ?case by auto
qed

lemma counts_all:
  "length es \<le> room \<Longrightarrow>
   \<exists>s'. incr_seq incr es empty = Inr s' \<and> invar (length es) s' \<and> (\<forall>k. count_of s' k = count_list (map key es) k)"
  using incr_all_from [OF invar_empty, of es] by (simp add: count_empty)

end

interpretation sca: counting new_sorted_counter_array "sorted_counter_array_incr getKey" getKey degree "sca_inv getKey" "2 ^ 31"
  for getKey
proof (unfold_locales, goal_cases)
  case 1
  show ?case by (rule new_sca_inv)
next
  case (2 k)
  show ?case by (rule new_sca_inv)
next
  case (3 n s e)
  then show ?case by (rule incr_correct)
qed

section \<open>What is counted\<close>

lemma counted_rows:
  assumes "length es \<le> 2 ^ 31"
  obtains sca where "incr_seq (sorted_counter_array_incr getKey) es new_sorted_counter_array = Inr sca"
    "\<And>k. degree sca k = count_list (map getKey es) k" "distinct (keys_of getKey sca)" "set (keys_of getKey sca) = getKey ` set es"
    "\<And>ce. ce \<in> set (sorted_array sca) \<Longrightarrow> unat (counter ce) = count_list (map getKey es) (getKey (element ce))"
    "sorted_wrt (\<ge>) (map (\<lambda>ce. unat (counter ce)) (sorted_array sca))" "length (sorted_array sca) \<le> length es"
proof -
  obtain sca where run: "incr_seq (sorted_counter_array_incr getKey) es new_sorted_counter_array = Inr sca"
    and inv: "sca_inv getKey (length es) sca" and deg: "\<And>k. degree sca k = count_list (map getKey es) k"
    using sca.counts_all [OF assms, of getKey] by blast
  let ?K = "keys_of getKey sca" and ?n = "count_list (map getKey es)"
  have idx: "indexed ?K (hash_table sca)" "distinct ?K" "length ?K < 2 ^ 64"
    using inv assms by (simp_all add: sca_inv_def keys_of_def)
  have row: "unat (counter ce) = ?n (getKey (element ce))"
    if ce: "ce \<in> set (sorted_array sca)" for ce
  proof -
    obtain j where j: "j < length (sorted_array sca)" "ce = sorted_array sca ! j" using ce by (auto simp: in_set_conv_nth)
    have "hash_table sca (?K ! j) = Some (word_of_nat j)" using idx j(1) indexed_iff [OF idx(2,3)] by (simp add: keys_of_def)
    moreover have "unat (word_of_nat j :: u64) = j" using j(1) idx(3) by (intro unat_of_nat_small) (simp add: keys_of_def)
    ultimately show ?thesis using deg [of "?K ! j"] j by (simp add: degree_def keys_of_def)
  qed
  have keys: "set ?K = getKey ` set es"
  proof -
    have "k \<in> set ?K \<longleftrightarrow> degree sca k \<noteq> 0" for k
    proof
      assume "k \<in> set ?K"
      then obtain j where j: "j < length ?K" "k = ?K ! j" by (auto simp: in_set_conv_nth)
      then have "degree sca k = cnts sca ! j"
        using indexed_iff [OF idx(2,3), of "hash_table sca"] idx unat_of_nat_small [of j, where 'a = 64]
        by (simp add: degree_cnts [OF inv])
      moreover have "cnts sca ! j \<in> set (cnts sca)" using j(1) by (simp add: cnts_def keys_of_def)
      ultimately show "degree sca k \<noteq> 0" using inv by (auto simp: sca_inv_def buckets_def)
    next
      assume "degree sca k \<noteq> 0"
      then show "k \<in> set ?K" using indexed_None [OF idx(1,3), of k] by (auto simp: degree_def split: option.splits)
    qed
    then show ?thesis by (auto simp: deg count_list_0_iff)
  qed
  have len: "length ?K \<le> length es"
    using keys card_length [of "map getKey es"] idx(2) by (metis distinct_card length_map set_map)
  show ?thesis using inv len
    by (intro that [of sca] run deg idx(2) keys row) (simp_all add: sca_inv_def cnts_def keys_of_def)
qed

text \<open>
  (C7) The sorted counter array counts. After any sequence of fewer than \<open>2 ^ 31\<close> increments of
  elements whose keys do not change, every increment has succeeded, the table of positions leads
  from every key to its number of increments, exactly the incremented keys are present, each once,
  and the counters of the array descend: the first element is the most frequent one.
\<close>

theorem sorted_counter_array_counts:
  assumes "length es \<le> 2 ^ 31"
  shows "\<exists>sca. incr_seq (sorted_counter_array_incr getKey) es new_sorted_counter_array = Inr sca \<and>
    (\<forall>k. degree sca k = count_list (map getKey es) k) \<and>
    mset (map (\<lambda>ce. (getKey (element ce), unat (counter ce))) (sorted_array sca)) =
      image_mset (\<lambda>k. (k, count_list (map getKey es) k)) (mset_set (getKey ` set es)) \<and>
    sorted_wrt (\<ge>) (map (\<lambda>ce. unat (counter ce)) (sorted_array sca))"
proof -
  obtain sca where run: "incr_seq (sorted_counter_array_incr getKey) es new_sorted_counter_array = Inr sca"
    and deg: "\<And>k. degree sca k = count_list (map getKey es) k" and keys: "distinct (keys_of getKey sca)" "set (keys_of getKey sca) = getKey ` set es"
    and row: "\<And>ce. ce \<in> set (sorted_array sca) \<Longrightarrow> unat (counter ce) = count_list (map getKey es) (getKey (element ce))"
    and desc: "sorted_wrt (\<ge>) (map (\<lambda>ce. unat (counter ce)) (sorted_array sca))"
    by (rule counted_rows [OF assms, of getKey]) blast
  let ?n = "count_list (map getKey es)"
  have "map (\<lambda>ce. (getKey (element ce), unat (counter ce))) (sorted_array sca) = map (\<lambda>k. (k, ?n k)) (keys_of getKey sca)"
    using row by (simp add: keys_of_def)
  then have "mset (map (\<lambda>ce. (getKey (element ce), unat (counter ce))) (sorted_array sca)) = image_mset (\<lambda>k. (k, ?n k)) (mset (keys_of getKey sca))"
    by (simp only: mset_map)
  also have "mset (keys_of getKey sca) = mset_set (getKey ` set es)" using mset_set_set [OF keys(1)] by (simp only: keys(2))
  finally show ?thesis using run deg desc by blast
qed

theorem sorted_counter_array_counts_witness:
  "\<exists>sca. incr_seq (sorted_counter_array_incr getKey_offset) [5, 7, 7, 5, 7] new_sorted_counter_array = Inr sca \<and>
    degree sca 7 = 3 \<and> degree sca 5 = 2 \<and> degree sca 9 = 0"
  using sorted_counter_array_counts [of "[5, 7, 7, 5, 7]" getKey_offset] by (auto simp: getKey_offset_def)

section \<open>Blocks that are overwritten\<close>

fun tracked_writes ::
    "('a \<times> block_info) list \<Rightarrow> 'a block_mem \<Rightarrow> 'a dedup_degree option \<Rightarrow> ('a block_mem \<times> 'a dedup_degree option) res" where
  \<comment> \<open>writes of blocks as the benchmark performs them: the entry of the content tracker is overwritten,
     then its address is counted\<close>
  "tracked_writes [] mem dd = Inr (mem, dd)"
| "tracked_writes ((a, b) # ws) mem dd =
     rbind (dedup_degree_add_block_info_write (mem(a := b)) a dd) (\<lambda>dd'. tracked_writes ws (mem(a := b)) dd')"

text \<open>
  The degrees of duplication of blocks are not those of the blocks written. The counter
  keeps addresses of the content tracker, which the benchmark overwrites: after content 10 is
  written at one place, overwritten there by content 20 and written again at another place, the
  counter reports content 20 as the most duplicated one, with two occurrences, although it was
  written once and content 10 twice.
\<close>

lemma overwritten_block_miscounted:
  "\<exists>mem d. tracked_writes [(0 :: nat, \<lparr>cont_id = 10, procid = -1, ts = -1\<rparr>), (0, \<lparr>cont_id = 20, procid = -1, ts = -1\<rparr>),
      (1, \<lparr>cont_id = 10, procid = -1, ts = -1\<rparr>)] mem0 (Some new_dedup_degree) = Inr (mem, Some d) \<and>
    get_nth_most_duplicate (Some d) = Inr (Some 0) \<and> cont_id (mem 0) = 20 \<and>
    degree (dedup_writes d) 20 = 2 \<and> degree (dedup_writes d) 10 = 1"
proof -
  note defs = dedup_degree_add_block_info_write_def new_dedup_degree_def new_sorted_counter_array_def
    sorted_counter_array_incr_def sorted_counter_array_add_element_def getKey_block_info_def new_counter_by_index_length_def
    sorted_counter_array_incr_element_def incr_added_def sorted_counter_array_swap2_def shrink_bucket_def first_bucket.simps
  show ?thesis
    by (simp add: defs Let_def degree_def get_nth_most_duplicate_def get_nth_more_duplicate_def nth_element_def)
qed

end
