(* ===== verification/Fsp_Correct.thy ===== *)
theory Fsp_Correct
  imports Fsp_Protocol
begin

text \<open>
  Correctness of the fault protocol: the image of a request is read back as the request, the
  server is the fault table of theory \<open>Fbd_Registry\<close> behind a mode filter, and a client call
  over a transport that delivers its image is the corresponding registration at the device.
\<close>

section \<open>Images\<close>

lemma length_to_image [simp]: "rq_ok r \<Longrightarrow> length (to_image r) = 112"
  by (simp add: rq_ok_def to_image_def)

lemma slice_append_skip:
  "length xs \<le> i \<Longrightarrow> slice i n (xs @ ys) = slice (i - length xs) n ys"
  by (simp add: slice_def)

lemma slice_append_here: "length xs = n \<Longrightarrow> slice 0 n (xs @ ys) = xs"
  by (simp add: slice_def)

lemma slice_0_all: "length xs = n \<Longrightarrow> slice 0 n xs = xs"
  by (simp add: slice_def)

lemma args_size_le: "(ucast (of_le (to_le 4 (ucast (n :: u32)))) :: u32) = n"
proof -
  have "take_bit 32 (ucast n :: u64) = ucast n"
    by (rule bit_word_eqI) (auto simp: bit_simps dest: bit_imp_le_length)
  then show ?thesis
    by (simp add: of_le_to_le) (rule bit_word_eqI, simp add: bit_simps)
qed

lemma of_image_to_image:
  assumes "rq_ok r"
  shows "of_image (to_image r) = r"
proof -
  let ?h = "[rq_operation r, rq_fault r, rq_mode r, if rq_persistent r then 1 else 0]"
  have len: "length (take 4 (rq_pad r)) = 4" "length (rq_union r) = 32" "length (rq_args r) = 64"
    "length (drop 4 (rq_pad r)) = 4"
    using assms by (simp_all add: rq_ok_def)
  have img: "to_image r = ?h @ take 4 (rq_pad r) @ rq_union r @ to_le 4 (ucast (rq_args_size r)) @ rq_args r @ drop 4 (rq_pad r)"
    by (simp add: to_image_def)
  have parts: "slice 4 4 (to_image r) = take 4 (rq_pad r)" "slice 8 32 (to_image r) = rq_union r"
    "slice 40 4 (to_image r) = to_le 4 (ucast (rq_args_size r))" "slice 44 64 (to_image r) = rq_args r"
    "slice 108 4 (to_image r) = drop 4 (rq_pad r)"
    unfolding img using len by (simp_all add: slice_append_skip slice_append_here slice_0_all del: append_Cons)
  have "of_image (to_image r) =
      \<lparr>rq_operation = rq_operation r, rq_fault = rq_fault r, rq_mode = rq_mode r, rq_persistent = rq_persistent r,
       rq_pad = take 4 (rq_pad r) @ drop 4 (rq_pad r), rq_union = rq_union r, rq_args_size = rq_args_size r, rq_args = rq_args r\<rparr>"
    unfolding of_image_def parts args_size_le by (simp add: to_image_def)
  then show ?thesis by simp
qed

section \<open>The server is the fault table behind a mode filter\<close>

definition request_cmd :: "fbd_user_settings \<Rightarrow> u64 \<Rightarrow> fbd_hash \<Rightarrow> fsp_request \<Rightarrow> int + reg_cmd" where
  \<comment> \<open>the registration a request asks for, or the status with which it is refused\<close>
  "request_cmd us dsize junk req =
     (let fault = (if rq_fault req = FBD_FAULT_BIT_FLIP then Some (bit_flip_on (rq_operation req) (rq_persistent req))
            else if rq_fault req = FBD_FAULT_SLOW_DISK then Some (slow_on (rq_operation req) (rq_persistent req) (arg_ms req))
            else if rq_fault req = FBD_FAULT_MEDIUM then Some (medium_on (rq_operation req) (rq_persistent req))
            else None);
          add = (\<lambda>cmd. case fault of None \<Rightarrow> Inl FBD_STS_NOT_FOUND | Some f \<Rightarrow> Inr (cmd f));
          digest = (\<lambda>cmd. if rh_hash_type req = FBD_HASH_MD5 \<or> rh_hash_type req = FBD_HASH_XXH3_128
                          then add (cmd (snd (fsp_hash_to_fbd_hash req junk))) else Inl FBD_STS_INVALID_HASH_TYPE) in
      if rq_mode req = FBD_MODE_BLOCK \<and> block_mode us then add (Add_Block (rb_size req) (rb_offSet req))
      else if rq_mode req = FBD_MODE_HASH \<and> hash_mode us then digest Add_Hash
      else if rq_mode req = FBD_MODE_DEDUP \<and> dedup_mode us then digest Add_Dedup
      else if rq_mode req = FBD_MODE_DEVICE \<and> device_mode us then add (Add_Block (ucast dsize) 0)
      else if rq_mode req = FBD_MODE_RESET_ALL then Inr Reset_All
      else Inl FBD_STS_INVALID_MODE)"

lemma handle_request_cmd:
  "handle_request junk dev req =
     (case request_cmd (d_settings dev) (d_size dev) junk req of
        Inl status \<Rightarrow> Inr (status, dev)
      | Inr c \<Rightarrow> run_cmd dev c)"
  by (simp add: handle_request_def request_cmd_def handle_block_requests_def handle_hash_requests_def
      handle_dedup_requests_def handle_device_requests_def named_adders fsp_hash_to_fbd_hash_def Let_def)

lemma request_cmd_ok: "request_cmd us dsize junk req = Inr c \<Longrightarrow> cmd_ok c"
  by (auto simp: request_cmd_def cmd_ok_def Let_def split: if_splits option.splits)

lemma add_body_ranges:
  "add_fault_with_operation dev pos m p fault persistent op extra = Inr (s, dev') \<Longrightarrow>
   \<exists>rs. dev' = dev\<lparr>d_ranges := rs\<rparr>"
  by (cases pos) (auto simp: add_fault_with_operation_def Let_def rbind_Inr_iff add_range_fault_def
      split: option.splits intro: exI [of _ "d_ranges dev"])

lemma run_cmd_ranges: "run_cmd dev c = Inr (s, dev') \<Longrightarrow> \<exists>rs. dev' = dev\<lparr>d_ranges := rs\<rparr>"
  by (cases c)
    (auto simp: block_add_def hash_add_def dedup_add_def fbd_add_block_fault_with_operation_def
      fbd_add_hash_fault_with_operation_def fbd_add_dedup_fault_with_operation_def rbind_Inr_iff
      fbd_remove_all_faults_def dest: add_body_ranges)

fun spec_serve :: "u8 \<Rightarrow> fbd_user_settings \<Rightarrow> u64 \<Rightarrow> fbd_hash \<Rightarrow> fault_spec \<Rightarrow> fsp_request list
    \<Rightarrow> (int list \<times> fault_spec) res" where
  "spec_serve ht us dsize junk t [] = Inr ([], t)"
| "spec_serve ht us dsize junk t (req # reqs) =
     rbind (case request_cmd us dsize junk req of Inl status \<Rightarrow> Inr (status, t) | Inr c \<Rightarrow> spec_cmd ht t c)
       (\<lambda>(s, t'). rbind (spec_serve ht us dsize junk t' reqs) (\<lambda>(ss, t''). Inr (s # ss, t'')))"

lemma handle_request_refines:
  assumes "reg_wf dev" and "hash_ok dev"
  shows "abs_result (handle_request junk dev req) =
      (case request_cmd (d_settings dev) (d_size dev) junk req of
         Inl status \<Rightarrow> Inr (status, reg_map dev) | Inr c \<Rightarrow> spec_cmd (d_hash_type dev) (reg_map dev) c)"
    and "handle_request junk dev req = Inr (s, dev') \<Longrightarrow> \<exists>rs. dev' = dev\<lparr>d_ranges := rs\<rparr> \<and> reg_wf dev'"
proof -
  note ref = run_cmd_refines [OF assms request_cmd_ok]
  show "abs_result (handle_request junk dev req) =
      (case request_cmd (d_settings dev) (d_size dev) junk req of
         Inl status \<Rightarrow> Inr (status, reg_map dev) | Inr c \<Rightarrow> spec_cmd (d_hash_type dev) (reg_map dev) c)"
    using ref by (auto simp: handle_request_cmd split: sum.split)
  assume "handle_request junk dev req = Inr (s, dev')"
  then show "\<exists>rs. dev' = dev\<lparr>d_ranges := rs\<rparr> \<and> reg_wf dev'"
    using ref assms(1)
    by (auto simp: handle_request_cmd reg_step_ok_def split: sum.splits dest: run_cmd_ranges
        intro: exI [of _ "d_ranges dev"])
qed

definition abs_served :: "(int list \<times> fbd_device \<times> bytes) res \<Rightarrow> (int list \<times> fault_spec) res" where
  "abs_served r = (case r of Inl e \<Rightarrow> Inl e | Inr (ss, dev, _) \<Rightarrow> Inr (ss, reg_map dev))"

lemma abs_served_simps [simp]:
  "abs_served (Inl e) = Inl e" "abs_served (Inr (ss, dev, img)) = Inr (ss, reg_map dev)"
  by (simp_all add: abs_served_def)


section \<open>The client over a transport\<close>

text \<open>
  What a client relies on: when it has sent the image of a request, the answer it receives is
  what the peer's handler returned for this request, and the peer's device is what the handler
  left behind.
\<close>

locale fsp_transport =
  fixes socket :: "'s fsp_sock" and peer :: "'s \<Rightarrow> fbd_device" and ready :: "'s \<Rightarrow> bool" and junk :: fbd_hash
  assumes exchange: "ready s \<Longrightarrow> length img = 112 \<Longrightarrow>
    handle_request junk (peer s) (of_image img) = Inr (r, dev) \<Longrightarrow>
    \<exists>n s1 s2. sock_send socket s img = (n, s1) \<and> n \<noteq> -1 \<and> sock_recv socket s1 = (Some r, s2) \<and>
      peer s2 = dev \<and> ready s2"
begin

lemma handle_send_request:
  assumes "ready s" and "rq_ok req" and "handle_request junk (peer s) req = Inr (r, dev)"
  shows "\<exists>s'. fsp_handle_send_request socket s req = Inr (r, s') \<and> peer s' = dev \<and> ready s'"
proof -
  have "handle_request junk (peer s) (of_image (to_image req)) = Inr (r, dev)"
    using assms(2,3) by (simp add: of_image_to_image)
  from exchange [OF assms(1) length_to_image [OF assms(2)] this] show ?thesis
    by (auto simp: fsp_handle_send_request_def fsp_send_request_def fsp_recv_response_def)
qed

lemma send_new_request:
  assumes "ready s" and "new = Inr req" and "rq_ok req"
    and "request_cmd (d_settings (peer s)) (d_size (peer s)) junk req = Inr c"
    and "run_cmd (peer s) c = Inr (r, dev)"
  shows "\<exists>s'. rbind new (\<lambda>req. fsp_handle_send_request socket s req) = Inr (r, s') \<and> peer s' = dev \<and> ready s'"
  using handle_send_request [OF assms(1,3), of r dev] assms(2,4,5) by (simp add: handle_request_cmd)

end

text \<open>The transport the system has: a local stream socket to the server's loop.\<close>

type_synonym loop_state = "fbd_device \<times> bytes \<times> int list"

definition loop_send :: "fbd_hash \<Rightarrow> loop_state \<Rightarrow> bytes \<Rightarrow> int \<times> loop_state" where
  "loop_send junk s chunk =
     (case s of (dev, img, out) \<Rightarrow>
        (int (length chunk),
         case fsp_serve junk dev img [chunk] of
           Inl e \<Rightarrow> (dev, img, out)
         | Inr (rs, dev', img') \<Rightarrow> (dev', img', out @ rs)))"

definition loop_recv :: "loop_state \<Rightarrow> int option \<times> loop_state" where
  "loop_recv s = (case s of (dev, img, []) \<Rightarrow> (None, s) | (dev, img, r # rs) \<Rightarrow> (Some r, (dev, img, rs)))"

definition loop_sock :: "fbd_hash \<Rightarrow> loop_state fsp_sock" where
  "loop_sock junk = \<lparr>sock_send = loop_send junk, sock_recv = loop_recv\<rparr>"

definition loop_ready :: "loop_state \<Rightarrow> bool" where
  "loop_ready s = (case s of (dev, img, out) \<Rightarrow> length img = 112 \<and> out = [])"

interpretation lo: fsp_transport "loop_sock junk" fst loop_ready junk
proof
  fix s :: loop_state and img r dev
  assume *: "loop_ready s" "length img = 112" "handle_request junk (fst s) (of_image img) = Inr (r, dev)"
  obtain d i out where s: "s = (d, i, out)" by (cases s)
  have "blit 0 img i = img" using * by (simp add: s loop_ready_def blit_def)
  moreover have "img \<noteq> []" using *(2) by auto
  ultimately show "\<exists>n s1 s2. sock_send (loop_sock junk) s img = (n, s1) \<and> n \<noteq> -1 \<and>
      sock_recv (loop_sock junk) s1 = (Some r, s2) \<and> fst s2 = dev \<and> loop_ready s2"
    using * by (auto simp: s loop_sock_def loop_send_def loop_recv_def loop_ready_def)
qed

section \<open>Reading back what a client packs\<close>

lemma new_request_ok [simp]: "rq_ok fresh \<Longrightarrow> rq_ok (fsp_new_request fresh op f p)"
  by (simp add: rq_ok_def fsp_new_request_def)

lemma set_args_ok:
  assumes "rq_ok r" and "length args \<le> 64"
  obtains r' where "fsp_set_request_args r args = Inr r'" "rq_ok r'" "rq_union r' = rq_union r"
    "rq_mode r' = rq_mode r" "rq_operation r' = rq_operation r" "rq_fault r' = rq_fault r"
    "rq_persistent r' = rq_persistent r" "take (length args) (rq_args r') = args"
  using assms by (auto simp: fsp_set_request_args_def Let_def rq_ok_def blit_def)

lemma size_le: "(ucast (of_le (to_le 4 (ucast (sz :: u32)))) :: u32) = sz"
  by (rule args_size_le)

lemma block_request_fields:
  assumes "rq_ok fresh" and "length args \<le> 64"
  obtains r where "fsp_new_request_block fresh op fault sz off p args = Inr r" "rq_ok r"
    "rq_mode r = FBD_MODE_BLOCK" "rq_operation r = op" "rq_fault r = fault" "rq_persistent r = p"
    "rb_size r = sz" "rb_offSet r = off" "take (length args) (rq_args r) = args"
proof -
  let ?r = "fsp_new_request_block_ptr (fsp_new_request fresh op fault p) sz off"
  have ok: "rq_ok ?r"
    using assms(1) by (simp add: rq_ok_def fsp_new_request_block_ptr_def fsp_new_request_def)
  have "rq_union ?r = to_le 4 (ucast sz) @ replicate 4 0 @ to_le 8 off @ replicate 16 0"
    by (simp add: fsp_new_request_block_ptr_def fsp_new_request_def blit_def drop_Cons' numeral_eq_Suc)
  moreover from set_args_ok [OF ok assms(2)] obtain r where
    "fsp_set_request_args ?r args = Inr r" "rq_ok r" "rq_union r = rq_union ?r" "rq_mode r = rq_mode ?r"
    "rq_operation r = rq_operation ?r" "rq_fault r = rq_fault ?r" "rq_persistent r = rq_persistent ?r"
    "take (length args) (rq_args r) = args" by blast
  ultimately show ?thesis
    by (intro that [of r])
      (simp_all add: fsp_new_request_block_def fsp_new_request_block_ptr_def fsp_new_request_def
        rb_size_def rb_offSet_def size_le slice_def)
qed

lemma digest_request_fields:
  assumes "rq_ok fresh" and "length args \<le> 64" and "length content = unat n"
    and "xxh3_digest lib content = (lo, hi)" and "m = FBD_MODE_HASH \<or> m = FBD_MODE_DEDUP"
  defines "mk \<equiv> if m = FBD_MODE_HASH then fsp_new_request_hash else fsp_new_request_dedup"
  obtains r where "mk lib stack fresh op fault n content p FBD_HASH_XXH3_128 args = Inr r"
    "rq_ok r" "rq_mode r = m" "rq_operation r = op" "rq_fault r = fault" "rq_persistent r = p"
    "rh_hash_type r = FBD_HASH_XXH3_128" "\<And>junk. fsp_hash_to_fbd_hash r junk = (FBD_STS_OK, store_xxh3 lo hi junk)"
    "take (length args) (rq_args r) = args"
proof -
  let ?r = "(fsp_new_request fresh op fault p)\<lparr>rq_mode := m\<rparr>"
  let ?u = "[1] @ replicate 7 0 @ to_le 8 lo @ to_le 8 hi @ replicate 8 0"
  have ok: "rq_ok (?r\<lparr>rq_union := ?u\<rparr>)"
    using assms(1) by (simp add: rq_ok_def fsp_new_request_def)
  have hp: "fsp_new_request_hash_ptr lib stack ?r n content FBD_HASH_XXH3_128 = Inr (?r\<lparr>rq_union := ?u\<rparr>)"
    using assms(3,4)
    by (simp add: fsp_new_request_hash_ptr_def fsp_new_request_def blit_def numeral_eq_Suc)
  from set_args_ok [OF ok assms(2)] obtain r where
    r: "fsp_set_request_args (?r\<lparr>rq_union := ?u\<rparr>) args = Inr r" "rq_ok r" "rq_union r = ?u"
    "rq_mode r = m" "rq_operation r = op" "rq_fault r = fault" "rq_persistent r = p"
    "take (length args) (rq_args r) = args"
    by (auto simp: fsp_new_request_def)
  show ?thesis
  proof (rule that [of r])
    show "mk lib stack fresh op fault n content p FBD_HASH_XXH3_128 args = Inr r"
      using hp r(1) assms(5) by (auto simp: mk_def fsp_new_request_hash_def fsp_new_request_dedup_def)
    show "rh_hash_type r = FBD_HASH_XXH3_128" by (simp add: rh_hash_type_def r(3))
    then show "fsp_hash_to_fbd_hash r junk = (FBD_STS_OK, store_xxh3 lo hi junk)" for junk
      by (simp add: fsp_hash_to_fbd_hash_def rh_hash_def r(3) slice_def)
  qed (use r in simp_all)
qed

lemma client_block_exchange:
  assumes "rq_ok fresh" and "length img = 112" and "run_cmd dev (Add_Block sz off f) = Inr (r, dev')"
    and "length args \<le> 64"
    and "\<And>req. rq_mode req = FBD_MODE_BLOCK \<Longrightarrow> rq_operation req = op \<Longrightarrow> rq_fault req = fault \<Longrightarrow>
      rq_persistent req = p \<Longrightarrow> rb_size req = sz \<Longrightarrow> rb_offSet req = off \<Longrightarrow>
      take (length args) (rq_args req) = args \<Longrightarrow>
      request_cmd (d_settings dev) (d_size dev) junk req = Inr (Add_Block sz off f)"
  shows "\<exists>img'. rbind (fsp_new_request_block fresh op fault sz off p args)
      (\<lambda>req. fsp_handle_send_request (loop_sock junk) (dev, img, []) req) = Inr (r, (dev', img', []))"
proof -
  have ready: "loop_ready (dev, img, [])" using assms(2) by (simp add: loop_ready_def)
  from block_request_fields [OF assms(1,4), of op fault sz off p] obtain req where
    req: "fsp_new_request_block fresh op fault sz off p args = Inr req" "rq_ok req"
      "rq_mode req = FBD_MODE_BLOCK" "rq_operation req = op" "rq_fault req = fault" "rq_persistent req = p"
      "rb_size req = sz" "rb_offSet req = off" "take (length args) (rq_args req) = args" by blast
  from assms(5) [OF req(3-9)] assms(3) lo.send_new_request [OF ready req(1,2)] show ?thesis
    by (fastforce simp: loop_ready_def)
qed

text \<open>
  (C18) A client call for a block fault is the registration at the device. When the driver
  runs in block mode and registering the fault succeeds or reports a duplicate, the client's
  function returns that status, with the size, the offset, the operation, the persistence and
  the delay of the call, and the device is what the registration leaves.
\<close>

theorem client_block_call:
  assumes "rq_ok fresh" and "length img = 112" and "block_mode (d_settings dev)"
  shows "(\<forall>r dev'. block_add dev (sz, off) (bit_flip_on op p) = Inr (r, dev') \<longrightarrow>
      (\<exists>img'. fsp_add_bit_flip_block fresh (loop_sock junk) (dev, img, []) sz off op p = Inr (r, (dev', img', [])))) \<and>
    (\<forall>r dev'. block_add dev (sz, off) (slow_on op p ms) = Inr (r, dev') \<longrightarrow>
      (\<exists>img'. fsp_add_slow_disk_block fresh (loop_sock junk) (dev, img, []) sz off op p ms = Inr (r, (dev', img', [])))) \<and>
    (\<forall>r dev'. block_add dev (sz, off) (medium_on op p) = Inr (r, dev') \<longrightarrow>
      (\<exists>img'. fsp_add_medium_error_block fresh (loop_sock junk) (dev, img, []) sz off op p = Inr (r, (dev', img', []))))"
proof (intro conjI allI impI)
  fix r dev'
  show "\<exists>img'. fsp_add_bit_flip_block fresh (loop_sock junk) (dev, img, []) sz off op p = Inr (r, (dev', img', []))"
    if "block_add dev (sz, off) (bit_flip_on op p) = Inr (r, dev')"
    unfolding fsp_add_bit_flip_block_def
    by (rule client_block_exchange [OF assms(1,2), where f = "bit_flip_on op p"])
      (use that assms(3) in \<open>simp_all add: request_cmd_def\<close>)
  show "\<exists>img'. fsp_add_slow_disk_block fresh (loop_sock junk) (dev, img, []) sz off op p ms = Inr (r, (dev', img', []))"
    if "block_add dev (sz, off) (slow_on op p ms) = Inr (r, dev')"
    unfolding fsp_add_slow_disk_block_def
    by (rule client_block_exchange [OF assms(1,2), where f = "slow_on op p ms"])
      (use that assms(3) in \<open>simp_all add: request_cmd_def arg_ms_def\<close>)
  show "\<exists>img'. fsp_add_medium_error_block fresh (loop_sock junk) (dev, img, []) sz off op p = Inr (r, (dev', img', []))"
    if "block_add dev (sz, off) (medium_on op p) = Inr (r, dev')"
    unfolding fsp_add_medium_error_block_def
    by (rule client_block_exchange [OF assms(1,2), where f = "medium_on op p"])
      (use that assms(3) in \<open>simp_all add: request_cmd_def\<close>)
qed

section \<open>Faults by content, end to end\<close>

lemma store_xxh3_parts [simp]:
  "xxh3_low64 (store_xxh3 lo hi h) = lo" "xxh3_high64 (store_xxh3 lo hi h) = hi"
  by (simp_all add: xxh3_low64_def xxh3_high64_def store_xxh3_def)

lemma client_digest_exchange:
  assumes "rq_ok fresh" and "length img = 112" and "xxh3_digest lib content = (lo, hi)"
    and "length content = unat n" and "length args \<le> 64" and "m = FBD_MODE_HASH \<or> m = FBD_MODE_DEDUP"
    and "run_cmd dev c = Inr (r, dev')"
    and "\<And>req. rq_mode req = m \<Longrightarrow> rq_operation req = op \<Longrightarrow> rq_fault req = fault \<Longrightarrow>
      rq_persistent req = p \<Longrightarrow> rh_hash_type req = FBD_HASH_XXH3_128 \<Longrightarrow>
      fsp_hash_to_fbd_hash req junk = (FBD_STS_OK, store_xxh3 lo hi junk) \<Longrightarrow>
      take (length args) (rq_args req) = args \<Longrightarrow>
      request_cmd (d_settings dev) (d_size dev) junk req = Inr c"
  shows "\<exists>img'. rbind ((if m = FBD_MODE_HASH then fsp_new_request_hash else fsp_new_request_dedup)
        lib stack fresh op fault n content p FBD_HASH_XXH3_128 args)
      (\<lambda>req. fsp_handle_send_request (loop_sock junk) (dev, img, []) req) = Inr (r, (dev', img', []))"
proof -
  have ready: "loop_ready (dev, img, [])" using assms(2) by (simp add: loop_ready_def)
  from digest_request_fields [OF assms(1,5,4,3,6), of stack op fault p] obtain req where
    req: "(if m = FBD_MODE_HASH then fsp_new_request_hash else fsp_new_request_dedup)
        lib stack fresh op fault n content p FBD_HASH_XXH3_128 args = Inr req" "rq_ok req"
      "rq_mode req = m" "rq_operation req = op" "rq_fault req = fault" "rq_persistent req = p"
      "rh_hash_type req = FBD_HASH_XXH3_128" "fsp_hash_to_fbd_hash req junk = (FBD_STS_OK, store_xxh3 lo hi junk)"
      "take (length args) (rq_args req) = args" by metis
  from assms(8) [OF req(3-9)] assms(7) lo.send_new_request [OF ready req(1,2)] show ?thesis
    by (fastforce simp: loop_ready_def)
qed

definition digest_range :: "u8 \<Rightarrow> fbd_hash \<Rightarrow> fbd_fault \<Rightarrow> fbd_range_fault" where
  "digest_range m h f = \<lparr>rf_mode = m, rf_faults = [f], rf_ptr = Hash_Ptr h\<rparr>"

lemma add_hash_empty:
  "d_ranges dev = [] \<Longrightarrow> new_fault f \<Longrightarrow>
   run_cmd dev (Add_Hash h f) = Inr (FBD_STS_OK, dev\<lparr>d_ranges := [digest_range FBD_MODE_HASH h f]\<rparr>)"
  by (simp add: hash_add_def fbd_add_hash_fault_with_operation_def get_range_hash_def
      add_fault_with_operation_def add_fault_def add_range_fault_def fbd_new_range_fault_def
      fbd_new_hash_fault_def digest_range_def fbd_new_fault_self new_fault_def)

lemma digest_range_hit:
  assumes "d_hash_type dev = FBD_HASH_XXH3_128"
  shows "range_hit dev (Some (store_xxh3 lo' hi' junk')) sz off (digest_range FBD_MODE_HASH (store_xxh3 lo hi junk) f) =
    Inr (FBD_STS_OK, (lo', hi') = (lo, hi))"
  using assms by (simp add: range_hit_def digest_range_def ptr_hash_def fbd_hash_compare_def)

lemma xxh3_block_hash:
  assumes "d_hash_type dev = FBD_HASH_XXH3_128" and "hash_mode (d_settings dev)" and "4096 \<le> length block"
    and "xxh3_digest lib (take 4096 block) = (lo, hi)"
  shows "block_hash lib junk dev block = Inr (Some (store_xxh3 lo hi junk))"
  using assms by (simp add: block_hash_def fbd_string_to_hash_def Let_def not_less)

lemma digest_bit_flip_writes:
  assumes d_def: "d = dev\<lparr>d_ranges := [digest_range FBD_MODE_HASH (store_xxh3 lo hi junk) (bit_flip_on FBD_OP_WRITE True)]\<rparr>"
    and "d_hash_type dev = FBD_HASH_XXH3_128" and "hash_mode (d_settings dev)" and "4096 \<le> length block"
  shows "\<exists>w'. fbd_check_and_inject_write_fault lib junk' d w block 4096 off =
      Inr (FBD_STS_OK, d, w', if xxh3_digest lib (take 4096 block) = (lo, hi) then flip_first block else block) \<and>
      disk w' = disk w"
proof -
  let ?f = "bit_flip_on FBD_OP_WRITE True"
  let ?r = "digest_range FBD_MODE_HASH (store_xxh3 lo hi junk) ?f"
  let ?dev = "dev\<lparr>d_ranges := [?r]\<rparr>"
  have wf: "reg_wf ?dev"
    by (simp add: reg_wf_def digest_range_def range_key_def faults_ok_def fault_ok_def fbd_new_fault_def)
  obtain lo' hi' where d': "xxh3_digest lib (take 4096 block) = (lo', hi')"
    by (cases "xxh3_digest lib (take 4096 block)")
  have bh: "block_hash lib junk' ?dev block = Inr (Some (store_xxh3 lo' hi' junk'))"
    using xxh3_block_hash [OF _ _ assms(4) d', of ?dev junk'] assms(2,3) by simp
  have hit: "range_hit ?dev (Some (store_xxh3 lo' hi' junk')) 4096 off ?r = Inr (FBD_STS_OK, (lo', hi') = (lo, hi))"
    using digest_range_hit [of ?dev] assms(2) by simp
  have surv: "survivors FBD_OP_WRITE ?r = [?r]" "snd (fire FBD_OP_WRITE (rf_faults ?r)) = [?f]"
    by (simp_all add: survivors_def digest_range_def armed_def fbd_new_fault_def)
  show ?thesis
  proof (cases "(lo', hi') = (lo, hi)")
    case True
    have "block \<noteq> []" using assms(4) by auto
    with check_and_inject_first_hit [OF wf, of FBD_OP_WRITE "[]" ?r "[]" lib junk' block _ 4096 off w, OF _ _ bh]
      hit True surv
    show ?thesis
      by (auto simp: d_def fbd_check_and_inject_write_fault_def d' fbd_new_fault_def)
  next
    case False
    then have "range_hit ?dev (Some (store_xxh3 lo' hi' junk')) 4096 off ?r = Inr (FBD_STS_OK, False)"
      using hit by metis
    with False bh show ?thesis
      by (auto simp: d_def fbd_check_and_inject_write_fault_def fbd_check_and_inject_fault_def d')
  qed
qed

text \<open>
  (C19) A fault by content, end to end. In hash mode with XXH3 digests, a client registers a
  persistent bit flip for writes of a given block content. From then on every write of a block
  with a content of this digest has bit 0 of its first byte inverted, and every write of a block
  with another digest passes unchanged.
\<close>

theorem content_fault_end_to_end:
  assumes "rq_ok fresh" and "length img = 112" and "d_hash_type dev = FBD_HASH_XXH3_128"
    and "hash_mode (d_settings dev)" and "d_ranges dev = []" and "length content = 4096"
  shows "\<exists>dev' img'. fsp_add_bit_flip_hash_write lib stack fresh (loop_sock junk) (dev, img, []) 4096 content True =
      Inr (FBD_STS_OK, (dev', img', [])) \<and>
    (\<forall>w block off junk'. 4096 \<le> length block \<longrightarrow>
      (\<exists>w'. fbd_check_and_inject_write_fault lib junk' dev' w block 4096 off =
         Inr (FBD_STS_OK, dev', w',
              if xxh3_digest lib (take 4096 block) = xxh3_digest lib content then flip_first block else block) \<and>
       disk w' = disk w))"
proof -
  obtain lo hi where d: "xxh3_digest lib content = (lo, hi)" by (cases "xxh3_digest lib content")
  let ?f = "bit_flip_on FBD_OP_WRITE True"
  let ?r = "digest_range FBD_MODE_HASH (store_xxh3 lo hi junk) ?f"
  let ?dev = "dev\<lparr>d_ranges := [?r]\<rparr>"
  have "\<exists>img'. rbind ((if FBD_MODE_HASH = FBD_MODE_HASH then fsp_new_request_hash else fsp_new_request_dedup)
        lib stack fresh FBD_OP_WRITE FBD_FAULT_BIT_FLIP 4096 content True FBD_HASH_XXH3_128 [])
      (\<lambda>req. fsp_handle_send_request (loop_sock junk) (dev, img, []) req) = Inr (FBD_STS_OK, (?dev, img', []))"
    by (rule client_digest_exchange [OF assms(1,2) d _ _ _ add_hash_empty [OF assms(5)]])
      (use assms(4,6) in \<open>simp_all add: request_cmd_def\<close>)
  then obtain img' where call: "fsp_add_bit_flip_hash_write lib stack fresh (loop_sock junk) (dev, img, []) 4096 content True =
      Inr (FBD_STS_OK, (?dev, img', []))"
    by (auto simp: fsp_add_bit_flip_hash_write_def fsp_add_bit_flip_hash_def)
  have "\<exists>w'. fbd_check_and_inject_write_fault lib junk' ?dev w block 4096 off =
      Inr (FBD_STS_OK, ?dev, w', if xxh3_digest lib (take 4096 block) = (lo, hi) then flip_first block else block) \<and>
      disk w' = disk w"
    if "4096 \<le> length block" for w block off junk'
    by (rule digest_bit_flip_writes [OF refl assms(3,4) that])
  with call d show ?thesis by auto
qed

section \<open>Two deviations\<close>

text \<open>
  The client function for a bit flip on writes and reads of a deduplicated content
  exchanges two arguments: whatever persistence is asked for, the fault is persistent, and it
  is registered for writes when persistence was asked for and for no operation otherwise.
\<close>

lemma dedup_WR_registers_wrong_fault:
  assumes "rq_ok fresh" and "length img = 112" and "dedup_mode (d_settings dev)"
    and "length content = unat n" and "xxh3_digest lib content = (lo, hi)"
    and "dedup_add dev (store_xxh3 lo hi junk) (bit_flip_on (if p then FBD_OP_WRITE else FBD_OP_NONE) True) = Inr (r, dev')"
  shows "\<exists>img'. fsp_add_bit_flip_dedup_WR lib stack fresh (loop_sock junk) (dev, img, []) n content p =
    Inr (r, (dev', img', []))"
proof -
  let ?f = "bit_flip_on (if p then FBD_OP_WRITE else FBD_OP_NONE) True"
  have "run_cmd dev (Add_Dedup (store_xxh3 lo hi junk) ?f) = Inr (r, dev')"
    using assms(6) by simp
  from client_digest_exchange [OF assms(1,2,5,4) _ _ this, of "[]" FBD_MODE_DEDUP
      "if p then FBD_OP_WRITE else FBD_OP_NONE" FBD_FAULT_BIT_FLIP True junk stack]
  show ?thesis
    using assms(3)
    by (simp add: fsp_add_bit_flip_dedup_WR_def fsp_add_bit_flip_dedup_def request_cmd_def)
qed


section \<open>Concrete evaluations\<close>

definition zero_request :: fsp_request where
  "zero_request = \<lparr>rq_operation = 0, rq_fault = 0, rq_mode = 0, rq_persistent = False, rq_pad = replicate 8 0,
     rq_union = replicate 32 0, rq_args_size = 0, rq_args = replicate 64 0\<rparr>"

lemma zero_request_ok [simp]: "rq_ok zero_request"
  by (simp add: zero_request_def rq_ok_def)

definition xxh3_device :: fbd_device where
  "xxh3_device = (demo_device [])\<lparr>d_hash_type := FBD_HASH_XXH3_128,
     d_settings := \<lparr>block_mode = True, hash_mode = True, dedup_mode = True, device_mode = True\<rparr>\<rparr>"

lemma xxh3_device_simps [simp]:
  "d_hash_type xxh3_device = FBD_HASH_XXH3_128" "d_ranges xxh3_device = []"
  "d_settings xxh3_device = \<lparr>block_mode = True, hash_mode = True, dedup_mode = True, device_mode = True\<rparr>"
  by (simp_all add: xxh3_device_def)


theorem client_block_call_witness:
  "\<exists>dev' img'. fsp_add_slow_disk_block zero_request (loop_sock []) (demo_device [], replicate 112 0, [])
      4096 8192 FBD_OP_READ True 25 = Inr (FBD_STS_OK, (dev', img', [])) \<and>
    faults_at dev' (Block_Key 4096 8192) = [slow_on FBD_OP_READ True 25]"
proof -
  have "block_add (demo_device []) (4096, 8192) (slow_on FBD_OP_READ True 25) =
      Inr (FBD_STS_OK, demo_device [demo_range [slow_on FBD_OP_READ True 25]])"
    by (simp add: block_add_def fbd_add_block_fault_with_operation_def get_range_block_def
        add_fault_with_operation_def add_fault_def add_range_fault_def fbd_new_range_fault_def
        demo_range_def fbd_new_fault_def)
  with client_block_call [of zero_request "replicate 112 0" "demo_device []" 4096 8192 FBD_OP_READ True "[]" 25]
  show ?thesis by (auto simp: faults_at_def reg_map_def)
qed

theorem content_fault_end_to_end_witness:
  "\<exists>dev' img'. fsp_add_bit_flip_hash_write demo_lib [] zero_request (loop_sock []) (xxh3_device, replicate 112 0, [])
      4096 (replicate 4096 65) True = Inr (FBD_STS_OK, (dev', img', [])) \<and>
    (\<exists>w'. fbd_check_and_inject_write_fault demo_lib [] dev' (demo_world [1]) (replicate 4096 66) 4096 0 =
       Inr (FBD_STS_OK, dev', w', flip_first (replicate 4096 66)))"
proof -
  from content_fault_end_to_end [of zero_request "replicate 112 0" xxh3_device "replicate 4096 65" demo_lib "[]" "[]"]
  obtain dev' img' where call:
    "fsp_add_bit_flip_hash_write demo_lib [] zero_request (loop_sock []) (xxh3_device, replicate 112 0, [])
      4096 (replicate 4096 65) True = Inr (FBD_STS_OK, (dev', img', []))"
    and inj: "\<forall>w block off junk'. 4096 \<le> length block \<longrightarrow>
      (\<exists>w'. fbd_check_and_inject_write_fault demo_lib junk' dev' w block 4096 off =
         Inr (FBD_STS_OK, dev', w',
              if xxh3_digest demo_lib (take 4096 block) = xxh3_digest demo_lib (replicate 4096 65)
              then flip_first block else block) \<and> disk w' = disk w)"
    by (auto simp del: take_replicate)
  from inj [rule_format, of "replicate 4096 66" "[]" "demo_world [1]" 0] call show ?thesis
    by (auto simp: demo_lib_def)
qed

lemma dedup_WR_registers_wrong_fault_witness:
  "\<exists>dev' img'. fsp_add_bit_flip_dedup_WR demo_lib [] zero_request (loop_sock []) (xxh3_device, replicate 112 0, [])
      1 [65] False = Inr (FBD_STS_OK, (dev', img', [])) \<and>
    map rf_faults (d_ranges dev') = [[bit_flip_on FBD_OP_NONE True]]"
proof -
  have "dedup_add xxh3_device (store_xxh3 1 2 []) (bit_flip_on FBD_OP_NONE True) =
      Inr (FBD_STS_OK, xxh3_device\<lparr>d_ranges := [digest_range FBD_MODE_DEDUP (store_xxh3 1 2 []) (bit_flip_on FBD_OP_NONE True)]\<rparr>)"
    by (simp add: dedup_add_def fbd_add_dedup_fault_with_operation_def get_range_dedup_def
        add_fault_with_operation_def add_fault_def add_range_fault_def fbd_new_range_fault_def
        fbd_new_hash_fault_def fbd_new_dedup_fault_def digest_range_def fbd_new_fault_def)
  with dedup_WR_registers_wrong_fault [of zero_request "replicate 112 0" xxh3_device "[65]" 1 demo_lib 1 2 "[]" False
      FBD_STS_OK "xxh3_device\<lparr>d_ranges := [digest_range FBD_MODE_DEDUP (store_xxh3 1 2 []) (bit_flip_on FBD_OP_NONE True)]\<rparr>" "[]"]
  obtain img' where "fsp_add_bit_flip_dedup_WR demo_lib [] zero_request (loop_sock []) (xxh3_device, replicate 112 0, [])
      1 [65] False = Inr (FBD_STS_OK, (xxh3_device\<lparr>d_ranges :=
        [digest_range FBD_MODE_DEDUP (store_xxh3 1 2 []) (bit_flip_on FBD_OP_NONE True)]\<rparr>, img', []))"
    by (auto simp: demo_lib_def)
  moreover have "map rf_faults (d_ranges (xxh3_device\<lparr>d_ranges :=
        [digest_range FBD_MODE_DEDUP (store_xxh3 1 2 []) (bit_flip_on FBD_OP_NONE True)]\<rparr>)) = [[bit_flip_on FBD_OP_NONE True]]"
    by (simp add: digest_range_def)
  ultimately show ?thesis by metis
qed


end
