(* ===== verification/Dedis_Faults_Correct.thy ===== *)
theory Dedis_Faults_Correct
  imports Dedis_Faults Dedis_Degree_Correct Fsp_Correct
begin

text \<open>
  Correctness of \<^verbatim>\<open>dedisbench/benchcore/faults/fault.c\<close>: the block that a fault is asked for, the request
  that reaches the driver, and what the benchmark records about it.
\<close>

section \<open>Contents of the chosen block\<close>

lemma fault_block_content:
  assumes "length (block_header b) < unat bsize" and "unat bsize \<le> 4096"
  shows "\<exists>content. fault_block b bsize = Inr content \<and> get_block_content b (unat bsize) = Inr content \<and>
    length content = unat bsize"
proof -
  let ?n = "unat bsize" and ?h = "block_header b"
  let ?buf = "blit 0 (replicate ?n (CHR ''a'')) (CHR ''a'' # replicate 4095 NUL)"
  have buf: "?buf = replicate ?n (CHR ''a'') @ replicate (4096 - ?n) NUL"
    using assms by (cases ?n) (auto simp: blit_def)
  have "take ?n (blit 0 (?h @ [NUL]) ?buf) = blit 0 (?h @ [NUL]) (replicate ?n (CHR ''a''))"
    unfolding buf using assms(1) by (simp add: blit_def take_Cons')
  then show ?thesis
    using assms by (simp add: fault_block_def get_block_content_def sprintf_at_def blit_def)
qed

lemma length_bytes_of [simp]: "length (bytes_of s) = length s"
  by (simp add: bytes_of_def)

section \<open>What is recorded\<close>

definition recorded :: "(u64 \<Rightarrow> u32) \<Rightarrow> (block_ptr \<Rightarrow> block_info) \<Rightarrow> faults_statistics \<Rightarrow> block_ptr \<Rightarrow> int \<Rightarrow> faults_statistics" where
  \<comment> \<open>the statistics after the answer \<open>r\<close> of the driver\<close>
  "recorded ghash mem fs bl r =
     (if r = FBD_STS_DUP_FAULT then fs\<lparr>tot_faults_dup := tot_faults_dup fs + 1\<rparr>
      else if r > 0 then (injected_add ghash mem fs bl)\<lparr>tot_faults_injected := tot_faults_injected fs + 1\<rparr>
      else fs)"

lemma recorded_contains:
  assumes "r > 0" and "r \<noteq> FBD_STS_DUP_FAULT"
  shows "injected_contains ghash mem (recorded ghash mem fs bl r) (cont_id (mem bl))"
proof (cases "find_pos (same_entry ghash mem (cont_id (mem bl))) (injected_faults fs)")
  case None
  then show ?thesis using assms
    by (auto simp: recorded_def injected_add_def injected_contains_def same_entry_def)
next
  case (Some i)
  from find_pos_SomeD [OF this] have "i < length (injected_faults fs)"
    and "fst (injected_faults fs ! i) = ghash (cont_id (mem bl))" by (auto simp: same_entry_def)
  then have "(ghash (cont_id (mem bl)), bl) \<in> set ((injected_faults fs)[i := (fst (injected_faults fs ! i), bl)])"
    by (metis set_update_memI)
  with Some assms show ?thesis
    by (auto simp: recorded_def injected_add_def injected_contains_def same_entry_def Let_def intro!: bexI)
qed

lemma inject_fault_answer:
  assumes "next_failure (env_ghash env) mem (fc_dist fc) dd bsize fi fs p = Inr (content, bl, fi')"
    and "fault_extra fc = Inr extra"
    and "fc_mode fc = 1 \<and> ask = fsp_add_generic_hash (env_lib env) (env_stack env) (env_fresh env) (env_sock env) s bsize
          (bytes_of content) (word_of_int (fc_operation fc)) (word_of_int (fc_type fc)) (fc_persistent fc) FBD_HASH_XXH3_128 extra \<or>
      fc_mode fc = 0 \<and> ask = fsp_add_generic_block (env_fresh env) (env_sock env) s bsize off (word_of_int (fc_operation fc))
          (word_of_int (fc_type fc)) (fc_persistent fc) extra \<or>
      fc_mode fc = 2 \<and> ask = fsp_add_generic_dedup (env_lib env) (env_stack env) (env_fresh env) (env_sock env) s bsize
          (bytes_of content) (word_of_int (fc_operation fc)) (word_of_int (fc_type fc)) (fc_persistent fc) FBD_HASH_XXH3_128 extra"
    and "ask = Inr (r, s')"
  shows "inject_fault env s mem fc dd bsize fi fs p off = Inr (recorded (env_ghash env) mem fs bl r, fi', s')"
  using assms by (elim disjE conjE) (simp_all add: inject_fault_def recorded_def Let_def)

section \<open>Requests by content\<close>

definition fault_command :: "fault_conf \<Rightarrow> fbd_hash \<Rightarrow> reg_cmd option" where
  \<comment> \<open>the registration that a fault by content asks for; a slow disk is treated below\<close>
  "fault_command fc h =
     (let op = word_of_int (fc_operation fc);
          f = (if fc_type fc = 1 then Some (bit_flip_on op (fc_persistent fc))
               else if fc_type fc = 3 then Some (medium_on op (fc_persistent fc)) else None);
          add = (if fc_mode fc = 1 then Add_Hash h else Add_Dedup h)
      in if fc_mode fc = 1 \<or> fc_mode fc = 2 then map_option add f else None)"

definition fault_mode_on :: "fault_conf \<Rightarrow> fbd_user_settings \<Rightarrow> bool" where
  "fault_mode_on fc us = (if fc_mode fc = 1 then hash_mode us else if fc_mode fc = 2 then dedup_mode us else False)"

lemma inject_fault_by_content:
  assumes "rq_ok (env_fresh env)" and "length img = 112" and "env_sock env = loop_sock junk"
    and "fault_mode_on fc (d_settings dev)"
    and "next_failure (env_ghash env) mem (fc_dist fc) dd bsize fi fs p = Inr (content, bl, fi')"
    and "length content = unat bsize" and "xxh3_digest (env_lib env) (bytes_of content) = (lo, hi)"
    and "fault_command fc (store_xxh3 lo hi junk) = Some c" and "run_cmd dev c = Inr (r, dev')"
  shows "\<exists>img'. inject_fault env (dev, img, []) mem fc dd bsize fi fs p off =
    Inr (recorded (env_ghash env) mem fs bl r, fi', (dev', img', []))"
proof -
  let ?op = "word_of_int (fc_operation fc) :: u8" and ?k = "word_of_int (fc_type fc) :: u8"
  let ?m = "if fc_mode fc = 1 then FBD_MODE_HASH else FBD_MODE_DEDUP"
  have mode: "fc_mode fc = 1 \<or> fc_mode fc = 2" and kind: "fc_type fc = 1 \<or> fc_type fc = 3"
    using assms(8) by (auto simp: fault_command_def Let_def split: if_splits)
  then have extra: "fault_extra fc = Inr []" by (auto simp: fault_extra_def)
  have "\<exists>img'. rbind ((if ?m = FBD_MODE_HASH then fsp_new_request_hash else fsp_new_request_dedup)
      (env_lib env) (env_stack env) (env_fresh env) ?op ?k bsize (bytes_of content) (fc_persistent fc) FBD_HASH_XXH3_128 [])
    (\<lambda>req. fsp_handle_send_request (loop_sock junk) (dev, img, []) req) = Inr (r, (dev', img', []))"
    by (rule client_digest_exchange [OF assms(1,2,7) _ _ _ assms(9)])
      (use assms(4,6,8) mode kind in \<open>auto simp: request_cmd_def fault_command_def fault_mode_on_def Let_def\<close>)
  then obtain img' where "rbind ((if ?m = FBD_MODE_HASH then fsp_new_request_hash else fsp_new_request_dedup)
      (env_lib env) (env_stack env) (env_fresh env) ?op ?k bsize (bytes_of content) (fc_persistent fc) FBD_HASH_XXH3_128 [])
    (\<lambda>req. fsp_handle_send_request (loop_sock junk) (dev, img, []) req) = Inr (r, (dev', img', []))" ..
  with inject_fault_answer [OF assms(5) extra, of _ "(dev, img, [])" off r "(dev', img', [])"] mode assms(3)
  show ?thesis
    by (auto simp: fsp_add_generic_hash_def fsp_add_generic_dedup_def)
qed

section \<open>The most duplicated block without a fault\<close>

lemma get_nth_more_duplicate_nth:
  assumes "n \<le> length (sorted_array (dedup_writes d))" and "length (sorted_array (dedup_writes d)) < 2 ^ 32"
  shows "get_nth_more_duplicate (Some d) (word_of_nat n) =
    (if n < length (sorted_array (dedup_writes d)) then Inr (Some (element (sorted_array (dedup_writes d) ! n))) else Inl Out_Of_Bounds)"
proof -
  have u: "unat (word_of_nat n :: u32) = n" "unat (word_of_nat (length (sorted_array (dedup_writes d))) :: u32) = length (sorted_array (dedup_writes d))"
    using assms by (auto intro!: unat_of_nat_small)
  then have "\<not> (word_of_nat n :: u32) > word_of_nat (length (sorted_array (dedup_writes d)))"
    using assms(1) by (simp add: word_less_nat_alt)
  then show ?thesis by (simp add: get_nth_more_duplicate_def nth_element_def u Let_def)
qed

lemma skip_injected_finds:
  assumes "ix < length (sorted_array (dedup_writes d))" and "length (sorted_array (dedup_writes d)) < 2 ^ 32"
  shows "skip_injected found mem d ix (element (sorted_array (dedup_writes d) ! ix)) =
    (case find_pos (\<lambda>ce. \<not> found (cont_id (mem (element ce)))) (drop ix (sorted_array (dedup_writes d))) of
       Some j \<Rightarrow> Inr (element (sorted_array (dedup_writes d) ! (ix + j))) | None \<Rightarrow> Inl Out_Of_Bounds)"
  using assms(1)
proof (induction "length (sorted_array (dedup_writes d)) - ix" arbitrary: ix)
  case 0
  then show ?case by simp
next
  case (Suc k)
  let ?arr = "sorted_array (dedup_writes d)"
  have split: "drop ix ?arr = ?arr ! ix # drop (Suc ix) ?arr" using Suc.prems by (simp add: Cons_nth_drop_Suc)
  note nth = get_nth_more_duplicate_nth [of "Suc ix", OF _ assms(2)]
  show ?case
  proof (cases "found (cont_id (mem (element (?arr ! ix))))")
    case False
    then show ?thesis by (subst skip_injected.simps) (simp add: split)
  next
    case found: True
    then have step: "skip_injected found mem d ix (element (?arr ! ix)) =
        (if Suc ix < length ?arr then skip_injected found mem d (Suc ix) (element (?arr ! Suc ix)) else Inl Out_Of_Bounds)"
      using Suc.prems nth by (subst skip_injected.simps) simp
    show ?thesis
    proof (cases "Suc ix < length ?arr")
      case True
      then have IH: "skip_injected found mem d (Suc ix) (element (?arr ! Suc ix)) =
          (case find_pos (\<lambda>ce. \<not> found (cont_id (mem (element ce)))) (drop (Suc ix) ?arr) of
             Some j \<Rightarrow> Inr (element (?arr ! (Suc ix + j))) | None \<Rightarrow> Inl Out_Of_Bounds)"
        using Suc.hyps by (intro Suc.hyps(1)) simp_all
      show ?thesis using True found by (simp add: step split IH split: option.split)
    next
      case False
      then show ?thesis using found by (simp add: step split)
    qed
  qed
qed

lemma select_top_dup:
  assumes "length (sorted_array (dedup_writes d)) < 2 ^ 32" and "avoid_repeat_faults fr"
  shows "select_block ghash mem TOP_DUP (Some d) (Some fr) fs p =
    (case find_pos (\<lambda>ce. \<not> injected_contains ghash mem fs (cont_id (mem (element ce)))) (sorted_array (dedup_writes d)) of
       Some j \<Rightarrow> Inr (element (sorted_array (dedup_writes d) ! j), Some fr) | None \<Rightarrow> Inl Out_Of_Bounds)"
proof (cases "sorted_array (dedup_writes d)")
  case Nil
  then show ?thesis using assms get_nth_more_duplicate_nth [of 0 d] by (simp add: select_block_def)
next
  case (Cons a list)
  then show ?thesis
    using assms get_nth_more_duplicate_nth [of 0 d] skip_injected_finds [of 0 d "injected_contains ghash mem fs" mem]
    by (simp add: select_block_def split: option.split)
qed

lemma incr_seq_degree:
  assumes "incr_seq (sorted_counter_array_incr (getKey_block_info mem)) (filter (\<lambda>e. procid (mem e) < 0) es) (dedup_writes d) = Inr sca"
  shows "incr_seq (dedup_degree_add_block_info_write mem) es (Some d) =
    Inr (Some (d\<lparr>dedup_writes := sca, unique_blocks_writes := unique_blocks_writes d @ filter (\<lambda>e. procid (mem e) \<ge> 0) es\<rparr>))"
  using assms
proof (induction es arbitrary: d)
  case Nil
  then show ?case by simp
next
  case (Cons e es)
  then show ?case
    by (cases "procid (mem e) \<ge> 0")
      (auto simp: dedup_degree_add_block_info_write_def rbind_Inr_iff)
qed


section \<open>Requests with a delay\<close>

lemma next_failure_content:
  assumes "select_block ghash mem dist dd fi fs p = Inr (bl, fi')"
    and "length (block_header (mem bl)) < unat bsize" and "unat bsize \<le> 4096"
  obtains content where "next_failure ghash mem dist dd bsize fi fs p = Inr (content, bl, fi')"
    "get_block_content (mem bl) (unat bsize) = Inr content" "length content = unat bsize"
  using fault_block_content [OF assms(2,3)] assms(1) by (auto simp: next_failure_def)

lemma block_request_delay:
  assumes "rq_ok fresh" and "length args = 4" and "fsp_new_request_block fresh op fault sz off p args = Inr req"
  shows "arg_ms req = of_le (args @ [0] @ slice 5 3 (rq_args fresh))"
proof -
  have "length (rq_args fresh) = 64" using assms(1) by (simp add: rq_ok_def)
  then have "take 8 (blit 0 args ((rq_args fresh)[4 := 0])) = args @ [0] @ slice 5 3 (rq_args fresh)"
    using assms(2)
    by (intro nth_equalityI) (auto simp: blit_def slice_def nth_append nth_Cons' min_def split: nat.split)
  then show ?thesis
    using assms(2,3)
    by (auto simp: fsp_new_request_block_def fsp_set_request_args_def fsp_new_request_block_ptr_def fsp_new_request_def
        arg_ms_def Let_def)
qed

text \<open>
  The delay of a slow disk. The benchmark passes the four bytes of the delay, the driver
  reads eight: the fifth is the zero behind the arguments, the other three are whatever the fresh
  memory of the request holds. The delay that is registered for the block is the one of the
  configuration only when they are zero.
\<close>

lemma slow_disk_delay_has_junk:
  assumes "rq_ok (env_fresh env)" and "length img = 112" and "env_sock env = loop_sock junk"
    and "block_mode (d_settings dev)" and "fc_mode fc = 0" and "fc_type fc = 2" and "fc_extra fc = Some ms"
    and "select_block (env_ghash env) mem (fc_dist fc) dd fi fs p = Inr (bl, fi')"
    and "length (block_header (mem bl)) < unat bsize" and "unat bsize \<le> 4096"
    and "block_add dev (bsize, off) (slow_on (word_of_int (fc_operation fc)) (fc_persistent fc)
      (of_le (to_le 4 (ucast ms) @ [0] @ slice 5 3 (rq_args (env_fresh env))))) = Inr (r, dev')"
  shows "\<exists>img'. inject_fault env (dev, img, []) mem fc dd bsize fi fs p off =
    Inr (recorded (env_ghash env) mem fs bl r, fi', (dev', img', []))"
proof -
  let ?op = "word_of_int (fc_operation fc) :: u8" and ?args = "to_le 4 (ucast ms)"
  have extra: "fault_extra fc = Inr ?args" using assms(6,7) by (simp add: fault_extra_def)
  obtain content where nf: "next_failure (env_ghash env) mem (fc_dist fc) dd bsize fi fs p = Inr (content, bl, fi')"
    using next_failure_content [OF assms(8,9,10)] by blast
  from block_request_fields [OF assms(1), of ?args ?op FBD_FAULT_SLOW_DISK bsize off "fc_persistent fc"] obtain req where
    req: "fsp_new_request_block (env_fresh env) ?op FBD_FAULT_SLOW_DISK bsize off (fc_persistent fc) ?args = Inr req" "rq_ok req"
      "rq_mode req = FBD_MODE_BLOCK" "rq_operation req = ?op" "rq_fault req = FBD_FAULT_SLOW_DISK"
      "rq_persistent req = fc_persistent fc" "rb_size req = bsize" "rb_offSet req = off" by auto
  have "request_cmd (d_settings dev) (d_size dev) junk req =
      Inr (Add_Block bsize off (slow_on ?op (fc_persistent fc) (of_le (?args @ [0] @ slice 5 3 (rq_args (env_fresh env))))))"
    using block_request_delay [OF assms(1) _ req(1)] req assms(4) by (simp add: request_cmd_def)
  with lo.send_new_request [of "(dev, img, [])", OF _ req(1,2)] assms(2,11)
  have "\<exists>img'. rbind (fsp_new_request_block (env_fresh env) ?op FBD_FAULT_SLOW_DISK bsize off (fc_persistent fc) ?args)
      (\<lambda>req. fsp_handle_send_request (loop_sock junk) (dev, img, []) req) = Inr (r, (dev', img', []))"
    by (fastforce simp: loop_ready_def)
  with inject_fault_answer [OF nf extra, of _ "(dev, img, [])" off r] assms(3,5,6) show ?thesis
    by (auto simp: fsp_add_generic_block_def)
qed

section \<open>Witnesses\<close>

definition demo_mem :: "block_ptr \<Rightarrow> block_info" where
  "demo_mem q = (case q of
     Tracker pos i \<Rightarrow> \<lparr>cont_id = (if i = 0 then 5 else 7), procid = -1, ts = -1\<rparr>
   | _ \<Rightarrow> \<lparr>cont_id = 3, procid = -1, ts = -1\<rparr>)"

definition demo_runtime :: fault_runtime where
  "demo_runtime = \<lparr>runtime_faults = [], last_block = [demo_mem (Last_Block 0)], next_block = [demo_mem (Next_Block 0)],
     runtime_nprocs = 1, nunique_injected = 0, avoid_repeat_faults = True\<rparr>"

definition no_faults :: faults_statistics where
  "no_faults = \<lparr>tot_faults_injected = 0, tot_faults_dup = 0, tot_failures = 0, injected_faults = []\<rparr>"

definition demo_env :: "loop_state fault_env" where
  "demo_env = \<lparr>env_ghash = ucast, env_lib = demo_lib, env_stack = [], env_fresh = zero_request\<lparr>rq_args := replicate 64 255\<rparr>,
     env_sock = loop_sock []\<rparr>"

definition demo_fault :: fault_conf where
  "demo_fault = \<lparr>fc_mode = 0, fc_measure = OPS_F, fc_when = 1, fc_dist = DIST_GEN, fc_type = 2, fc_persistent = True, fc_proc_id = 0,
     fc_operation = 1, fc_extra_type = FAULT_CONF_EXTRA_TIME, fc_extra = Some 5\<rparr>"


lemma demo_header: "length (block_header (demo_mem (Last_Block 0))) < unat (64 :: u32)"
  by (simp add: block_header_def demo_mem_def show_u64_def) code_simp

lemma slow_disk_delay_has_junk_example:
  "\<exists>img' dev'. inject_fault demo_env (demo_device [], replicate 112 0, []) demo_mem demo_fault None 64 (Some demo_runtime)
      no_faults 0 8192 = Inr (recorded ucast demo_mem no_faults (Last_Block 0) FBD_STS_OK, Some demo_runtime, (dev', img', [])) \<and>
    map rf_faults (d_ranges dev') = [[slow_on FBD_OP_WRITE True 0xFFFFFF0000000005]]"
proof -
  let ?f = "slow_on FBD_OP_WRITE True 0xFFFFFF0000000005"
  let ?dev = "(demo_device [])\<lparr>d_ranges := [\<lparr>rf_mode = FBD_MODE_BLOCK, rf_faults = [?f], rf_ptr = Block_Ptr \<lparr>bf_size = 64, bf_offSet = 8192\<rparr>\<rparr>]\<rparr>"
  have delay: "of_le (to_le 4 5 @ [0] @ slice 5 3 (replicate 64 255)) = 0xFFFFFF0000000005" by code_simp
  have "block_add (demo_device []) (64, 8192) ?f = Inr (FBD_STS_OK, ?dev)"
    by (simp add: block_add_def fbd_add_block_fault_with_operation_def get_range_block_def add_fault_with_operation_def
        add_fault_def add_range_fault_def fbd_new_range_fault_def fbd_new_block_fault_def fbd_new_fault_def)
  then have "\<exists>img'. inject_fault demo_env (demo_device [], replicate 112 0, []) demo_mem demo_fault None 64 (Some demo_runtime)
      no_faults 0 8192 = Inr (recorded (env_ghash demo_env) demo_mem no_faults (Last_Block 0) FBD_STS_OK, Some demo_runtime, (?dev, img', []))"
    using delay demo_header
    by (intro slow_disk_delay_has_junk [where junk = "[]" and ms = 5])
      (simp_all add: demo_env_def demo_fault_def select_block_def finfo_get_last_block_def zero_request_def rq_ok_def)
  then show ?thesis by (auto simp: demo_env_def)
qed

end
