(* ===== verification/Dedis_On_Device.thy ===== *)
theory Dedis_On_Device
  imports Dedis_Launch_Correct Dedis_Faults_Correct
begin

text \<open>
  The benchmark on the faulty block device: system calls on the raw device are the callbacks of
  the driver. The instance \<open>dev\<close> of the interfaces \<open>block_file\<close> and \<open>shared_file\<close> shows that the device
  without faults is a file of blocks that several processes can use.
\<close>

definition chars_of :: "bytes \<Rightarrow> string" where
  "chars_of b = map (\<lambda>x. char_of (unat x)) b"

lemma chars_of_bytes_of [simp]: "chars_of (bytes_of s) = s"
proof -
  have "char_of (unat (of_char c :: u8)) = c" for c
  proof -
    have "unat (word_of_nat (of_char c) :: u8) = of_char c" by (intro unat_of_nat_small) simp
    then show ?thesis by (simp add: of_nat_of_char)
  qed
  then show ?thesis by (simp add: chars_of_def bytes_of_def comp_def)
qed

lemma length_chars_of [simp]: "length (chars_of b) = length b"
  by (simp add: chars_of_def)

definition dev_io :: "hash_lib \<Rightarrow> fbd_hash \<Rightarrow> (fbd_device \<times> world) file_io" where
  \<comment> \<open>direct I/O: every \<^verbatim>\<open>pwrite\<close> and \<^verbatim>\<open>pread\<close> is one request to the driver, and an error of the driver is the
     result -1\<close>
  "dev_io lib junk =
     \<lparr>io_open = (\<lambda>creat direct path f. (3, f)),
      io_pwrite = (\<lambda>fd buf offset (dev, w).
        case device_write lib junk dev w (bytes_of buf) offset (word_of_nat (length buf)) of
          Some (Inr (errno, dev', w', _)) \<Rightarrow> (if errno = 0 then int (length buf) else -1, (dev', w'))
        | _ \<Rightarrow> (-1, (dev, w))),
      io_pread = (\<lambda>fd n offset (dev, w).
        case device_read lib junk dev w (replicate (unat n) 0) offset (ucast n) of
          Some (Inr (errno, dev', w', b)) \<Rightarrow> if errno = 0 then (int (length b), chars_of b, (dev', w')) else (-1, [], (dev', w'))
        | _ \<Rightarrow> (-1, [], (dev, w))),
      io_fsync = (\<lambda>fd f. f), io_close = (\<lambda>fd f. f), io_system = (\<lambda>command f. (0, f))\<rparr>"

definition dev_block :: "fbd_device \<times> world \<Rightarrow> nat \<Rightarrow> string" where
  "dev_block f k = chars_of (slice (k * 4096) 4096 (disk (snd f)))"

definition dev_ready :: "nat \<Rightarrow> fbd_device \<times> world \<Rightarrow> bool" where
  "dev_ready cap f \<longleftrightarrow> hash_ok (fst f) \<and> d_ranges (fst f) = [] \<and> calm (snd f) \<and> 4096 * cap \<le> length (disk (snd f)) \<and> length (disk (snd f)) < 2 ^ 64"

lemma dev_write_block:
  assumes "dev_ready cap f" and "length buf = 4096" and "k < cap"
  shows "\<exists>r f'. io_pwrite (dev_io lib junk) fd buf (word_of_nat (k * 4096)) f = (r, f') \<and> dev_ready cap f' \<and> dev_block f' = (dev_block f)(k := buf)"
proof -
  obtain dev w where f: "f = (dev, w)" by (cases f)
  let ?off = "word_of_nat (k * 4096) :: u64"
  have "k * 4096 + 4096 \<le> 4096 * cap" using assms(3) by simp
  then have off: "k * 4096 + 4096 \<le> length (disk w)" "length (disk w) < 2 ^ 64" using assms(1) by (auto simp: dev_ready_def f)
  then have u: "unat ?off = k * 4096" by (intro unat_of_nat_small) simp
  obtain w' where w': "device_write lib junk dev w (bytes_of buf) ?off 4096 = Some (Inr (0, dev, w', bytes_of buf))" "calm w'"
    "disk w' = blit (k * 4096) (bytes_of buf) (disk w)"
    by (rule transparent_write [of dev "bytes_of buf" 4096 w ?off lib junk])
      (use assms(1,2) off in \<open>simp_all add: dev_ready_def f u del: of_nat_mult\<close>)
  have "dev_block (dev, w') j = ((dev_block f)(k := buf)) j" for j
  proof (cases "j = k")
    case True
    then show ?thesis
      using slice_blit_same [of "k * 4096" "bytes_of buf" "disk w"] off assms(2) w'(3) by (simp add: dev_block_def)
  next
    case False
    then have "slice (j * 4096) 4096 (disk w') = slice (j * 4096) 4096 (disk w)"
      unfolding w'(3) using off assms(2) by (intro slice_blit_other) auto
    with False show ?thesis by (simp add: dev_block_def f)
  qed
  then show ?thesis
    using w' assms(1,2) off by (auto simp: dev_io_def f dev_ready_def simp del: of_nat_mult)
qed

lemma dev_read_block:
  assumes "dev_ready cap f" and "k < cap"
  shows "\<exists>f'. io_pread (dev_io lib junk) fd (word_of_nat 4096) (word_of_nat (k * 4096)) f = (int 4096, dev_block f k, f') \<and>
    dev_ready cap f' \<and> dev_block f' = dev_block f"
proof -
  obtain dev w where f: "f = (dev, w)" by (cases f)
  let ?off = "word_of_nat (k * 4096) :: u64"
  have "k * 4096 + 4096 \<le> 4096 * cap" using assms(2) by simp
  then have off: "k * 4096 + 4096 \<le> length (disk w)" "length (disk w) < 2 ^ 64" using assms(1) by (auto simp: dev_ready_def f)
  then have u: "unat ?off = k * 4096" by (intro unat_of_nat_small) simp
  obtain w' where w': "device_read lib junk dev w (replicate 4096 0) ?off 4096 =
      Some (Inr (0, dev, w', slice (k * 4096) 4096 (disk w)))" "calm w'" "disk w' = disk w"
    by (rule transparent_read [of dev "replicate 4096 0" 4096 w ?off lib junk])
      (use assms(1) off in \<open>simp_all add: dev_ready_def f u del: of_nat_mult\<close>)
  then show ?thesis
    using assms(1) off by (auto simp: dev_io_def f dev_ready_def dev_block_def fun_eq_iff simp del: of_nat_mult)
qed

interpretation dev: shared_file "dev_io lib junk" 3 path 4096 "min cap (2 ^ 52 - 1)" dev_block "dev_ready (min cap (2 ^ 52 - 1))" "dev_ready (min cap (2 ^ 52 - 1))"
proof (unfold_locales, goal_cases)
  case 2
  have "4096 * min cap (2 ^ 52 - 1) \<le> 4096 * (2 ^ 52 - 1 :: nat)" by (intro mult_le_mono2) simp
  then show ?case by simp
next
  case (8 f k)
  then have "k * 4096 + 4096 \<le> length (disk (snd f))" by (auto simp: dev_ready_def)
  then show ?case by (simp add: dev_block_def)
qed (use dev_write_block dev_read_block in \<open>auto simp: dev_io_def\<close>)

section \<open>Populating the device and checking it\<close>

definition bench_ready :: "user_confs \<Rightarrow> nat \<Rightarrow> duplicates_info \<Rightarrow> fbd_device \<times> world \<Rightarrow> bool" where
  \<comment> \<open>a benchmark on \<open>m\<close> blocks of 4096 bytes of the raw device: no faults are registered, the device
     is large enough, a distribution is loaded and the tracker has an entry for every block\<close>
  "bench_ready conf m info f \<longleftrightarrow>
     block_size conf = 4096 \<and> filesize conf = word_of_nat (m * 4096) \<and> integrity conf \<ge> 1 \<and> rawdevice conf = 1 \<and>
     populate_kind conf \<noteq> DDPOP \<and> dev_ready m f \<and> dist_ready info \<and> statistics_fit conf info \<and> tracker_fits 0 m info"

lemma dev_ready_cap: "dev_ready m f \<Longrightarrow> m \<le> 2 ^ 52"
  by (auto simp: dev_ready_def)

lemma bench_populated:
  assumes "bench_ready conf m info f"
  obtains info' f' where "populate init_rand g (dev_io lib junk) clock stat conf info f = Some (Inr (filesize conf, info', f'))"
    "dev_ready m f'" "\<forall>j < m. get_block_content (content_tracker info' ! 0 ! j) 4096 = Inr (dev_block f' j)"
    "tracker_fits 0 m info'" "dist_ready info'" "statistics_fit conf info'"
proof -
  have m: "min m (2 ^ 52 - 1) = m" "m \<le> min m (2 ^ 52 - 1)"
    using assms by (auto simp: bench_ready_def dev_ready_def)
  have "dev.sized m conf m"
    unfolding dev.sized_def using assms m by (simp add: bench_ready_def)
  then obtain info' f' where p: "populate init_rand g (dev_io lib junk) clock stat conf info f = Some (Inr (filesize conf, info', f'))"
    "dev_ready m f'" "dev.tracked f' 0 info' m" "tracker_fits 0 m info'" "dist_ready info'" "statistics_fit conf info'"
    using assms m(1) dev.populate_device [where cap = m and conf = conf and m = m and f = f and info = info and path = "rawpath conf"]
    unfolding bench_ready_def m(1) by metis
  then show ?thesis using that by (simp add: dev.tracked_def)
qed

lemma bench_checked:
  assumes "bench_ready conf m info0 f0" and "dev_ready m f" and "tracker_fits 0 m info"
    and "\<forall>j < m. (\<exists>c. get_block_content (content_tracker info ! 0 ! j) 4096 = Inr c) \<and>
      (get_block_content (content_tracker info ! 0 ! j) 4096 \<noteq> Inr (dev_block f j) \<longrightarrow> (\<exists>i. check_block_content (dev_block f j) = Inr i))"
  defines "bad \<equiv> filter (\<lambda>j. let bf = content_tracker info ! 0 ! j in
      ts bf \<noteq> 0 \<and> cont_id bf \<noteq> 0 \<and> get_block_content bf 4096 \<noteq> Inr (dev_block f j)) [0..<m]"
  shows "\<exists>f'. check_integrity (dev_io lib junk) junk' True conf info f =
    Some (Inr (int (length bad), map (\<lambda>j. Compared (Error_Checking (cont_id (content_tracker info ! 0 ! j)))) bad, f'))"
proof -
  have m: "min m (2 ^ 52 - 1) = m" "m \<le> min m (2 ^ 52 - 1)"
    using assms(1) by (auto simp: bench_ready_def dev_ready_def)
  have "dev.sized m conf m"
    unfolding dev.sized_def using assms(1) m by (simp add: bench_ready_def)
  moreover have "dev.checkable f 0 info m"
    using assms(4) by (auto simp: dev.checkable_def dev.damaged_def Let_def)
  ultimately have "\<exists>f'. check_integrity (dev_io lib junk) junk' True conf info f =
    Some (Inr (int (length (filter (dev.damaged f 0 info) [0..<m])), map (dev.error_at 0 info) (filter (dev.damaged f 0 info) [0..<m]), f'))"
    using assms(1-3) m(1) dev.check_device [where cap = m and conf = conf and m = m and f = f and info = info and path = "rawpath conf"]
    unfolding bench_ready_def m(1) by metis
  moreover have "filter (dev.damaged f 0 info) [0..<m] = bad" by (simp add: bad_def dev.damaged_def [abs_def])
  moreover have "dev.error_at 0 info = (\<lambda>j. Compared (Error_Checking (cont_id (content_tracker info ! 0 ! j))))"
    by (simp add: fun_eq_iff dev.error_at_def)
  ultimately show ?thesis by simp
qed

text \<open>
  (C5) What the benchmark writes through the driver is what it reads. Populating the raw device
  with realistic contents ends and reports the bytes of the file, every block on the disk is the
  one the content tracker has for it, and the integrity check that follows reports no error.
\<close>

theorem populated_device_is_intact:
  assumes "bench_ready conf m info f"
  shows "\<exists>info' f' f''. populate init_rand g (dev_io lib junk) clock stat conf info f = Some (Inr (filesize conf, info', f')) \<and>
    (\<forall>j < m. get_block_content (content_tracker info' ! 0 ! j) 4096 = Inr (dev_block f' j)) \<and>
    check_integrity (dev_io lib junk) junk' True conf info' f' = Some (Inr (0, [], f''))"
proof -
  obtain info' f' where p: "populate init_rand g (dev_io lib junk) clock stat conf info f = Some (Inr (filesize conf, info', f'))"
    "dev_ready m f'" "\<forall>j < m. get_block_content (content_tracker info' ! 0 ! j) 4096 = Inr (dev_block f' j)" "tracker_fits 0 m info'"
    by (rule bench_populated [OF assms])
  have none: "filter (\<lambda>j. let bf = content_tracker info' ! 0 ! j in
      ts bf \<noteq> 0 \<and> cont_id bf \<noteq> 0 \<and> get_block_content bf 4096 \<noteq> Inr (dev_block f' j)) [0..<m] = []"
    using p(3) by (auto simp: filter_empty_conv)
  from bench_checked [OF assms p(2,4), of lib junk junk'] p(3)
  have "\<exists>f''. check_integrity (dev_io lib junk) junk' True conf info' f' = Some (Inr (0, [], f''))"
    unfolding none by simp
  with p(1,3) show ?thesis by blast
qed

section \<open>Running the benchmark on the device\<close>


section \<open>A flipped bit\<close>

definition flip_block :: "nat \<Rightarrow> fbd_device \<times> world \<Rightarrow> fbd_device \<times> world" where
  \<comment> \<open>what an injected bit flip leaves on the disk: bit 0 of the first byte of block \<open>k\<close> is inverted\<close>
  "flip_block k f = (fst f, (snd f)\<lparr>disk := (disk (snd f))[k * 4096 := disk (snd f) ! (k * 4096) XOR 1]\<rparr>)"

lemma flipped_digit:
  assumes "is_digit (char_of (unat (x :: u8)))"
  shows "is_digit (char_of (unat (x XOR 1)))" and "char_of (unat (x XOR 1)) \<noteq> char_of (unat x)"
proof -
  have "unat x < 256" using unat_less [of x] by simp
  then have "48 \<le> unat x \<and> unat x \<le> 57" using assms by (simp add: is_digit_def)
  then have "unat x = 48 \<or> unat x = 49 \<or> unat x = 50 \<or> unat x = 51 \<or> unat x = 52 \<or>
      unat x = 53 \<or> unat x = 54 \<or> unat x = 55 \<or> unat x = 56 \<or> unat x = 57" by arith
  then have "x = 48 \<or> x = 49 \<or> x = 50 \<or> x = 51 \<or> x = 52 \<or> x = 53 \<or> x = 54 \<or> x = 55 \<or> x = 56 \<or> x = 57"
    by (simp add: word_unat_eq_iff)
  then show "is_digit (char_of (unat (x XOR 1)))" "char_of (unat (x XOR 1)) \<noteq> char_of (unat x)"
    by (auto simp: is_digit_def)
qed

lemma flip_block_other:
  assumes "j \<noteq> k"
  shows "dev_block (flip_block k f) j = dev_block f j"
proof (cases "j < k")
  case True
  then have "j * 4096 + 4096 \<le> k * 4096" by simp
  then show ?thesis by (simp add: dev_block_def flip_block_def slice_def drop_update_swap take_update_cancel)
next
  case False
  then have "k * 4096 < j * 4096" using assms by simp
  then show ?thesis by (simp add: dev_block_def flip_block_def slice_def drop_update_cancel)
qed

lemma flip_block_same:
  assumes "k * 4096 + 4096 \<le> length (disk (snd f))" and "get_block_content b 4096 = Inr (dev_block f k)"
  shows "dev_block (flip_block k f) k \<noteq> dev_block f k" and "\<exists>i. check_block_content (dev_block (flip_block k f) k) = Inr i"
proof -
  let ?s = "slice (k * 4096) 4096 (disk (snd f))" and ?x = "disk (snd f) ! (k * 4096)"
  obtain d ds where num: "show_u64 (cont_id b) = d # ds" using show_u64_token(1) by (cases "show_u64 (cont_id b)") auto
  have digits: "\<forall>c \<in> set (d # ds). is_digit c" using show_nat_digits [of "unat (cont_id b)"] num by (simp add: show_u64_def)
  have "sprintf_at (replicate 4096 (CHR ''a'')) (block_header b) = Inr (dev_block f k)" using assms(2) by (simp only: get_block_content_def)
  from sprintf_at_Inr [OF this] obtain rest where "dev_block f k = block_header b @ NUL # rest" by blast
  then have blk: "dev_block f k = (d # ds) @ header_tail b @ NUL # rest" by (simp only: block_header_tail num append_assoc)
  have k: "k * 4096 < length (disk (snd f))" using assms(1) by simp
  let ?t = "slice (Suc (k * 4096)) (4096 - 1) (disk (snd f))"
  have s: "?s = ?x # ?t" using slice_Cons [OF k] by simp
  have x: "char_of (unat ?x) = d" "chars_of ?t = ds @ header_tail b @ NUL # rest"
    using blk unfolding dev_block_def s by (simp_all add: chars_of_def)
  have "slice (k * 4096) 4096 ((disk (snd f))[k * 4096 := ?x XOR 1]) = (?x XOR 1) # ?t"
    using slice_Cons [of "k * 4096" "(disk (snd f))[k * 4096 := ?x XOR 1]" 4096] k by (simp add: slice_def)
  then have flipped: "dev_block (flip_block k f) k = (char_of (unat (?x XOR 1)) # ds) @ header_tail b @ NUL # rest"
    using x(2) by (simp add: dev_block_def flip_block_def chars_of_def)
  have "is_digit (char_of (unat ?x))" using x(1) digits by simp
  note fl = flipped_digit [OF this]
  show "dev_block (flip_block k f) k \<noteq> dev_block f k" using flipped blk fl(2) x(1) by simp
  have "length (dev_block (flip_block k f) k) = 4096" using assms(1) by (simp add: dev_block_def flip_block_def)
  then show "\<exists>i. check_block_content (dev_block (flip_block k f) k) = Inr i"
    by (intro check_numbered_block [OF _ _ _ flipped]) (use digits fl(1) in auto)
qed

text \<open>
  (C15) A flipped bit is found, unless the block has content 0. After populating the device,
  bit 0 of the first byte of one block is inverted on the disk, as the driver does for a bit-flip
  fault. The integrity check then reports exactly this block, with the content it should have;
  for content 0 it reports nothing, because it takes such a block for one that was never written.
\<close>

theorem flipped_block_is_reported:
  assumes "bench_ready conf m info f" and "k < m"
  shows "\<exists>info' f' f''. populate init_rand g (dev_io lib junk) clock stat conf info f = Some (Inr (filesize conf, info', f')) \<and>
    (let bf = content_tracker info' ! 0 ! k; seen = ts bf \<noteq> 0 \<and> cont_id bf \<noteq> 0 in
     check_integrity (dev_io lib junk) junk' True conf info' (flip_block k f') =
       Some (Inr (if seen then 1 else 0, if seen then [Compared (Error_Checking (cont_id bf))] else [], f'')))"
proof -
  obtain info' f' where p: "populate init_rand g (dev_io lib junk) clock stat conf info f = Some (Inr (filesize conf, info', f'))"
    "dev_ready m f'" "\<forall>j < m. get_block_content (content_tracker info' ! 0 ! j) 4096 = Inr (dev_block f' j)" "tracker_fits 0 m info'"
    by (rule bench_populated [OF assms(1)])
  let ?f = "flip_block k f'" and ?bf = "content_tracker info' ! 0 ! k"
  have ready: "dev_ready m ?f" using p(2) by (simp add: dev_ready_def flip_block_def calm_def)
  have "k * 4096 + 4096 \<le> length (disk (snd f'))" using p(2) assms(2) by (auto simp: dev_ready_def)
  from flip_block_same [OF this p(3) [rule_format, OF assms(2)]]
  have fl: "dev_block ?f k \<noteq> dev_block f' k" "\<exists>i. check_block_content (dev_block ?f k) = Inr i" .
  have other: "dev_block ?f j = dev_block f' j" if "j \<noteq> k" for j using flip_block_other [OF that] .
  have only: "filter (\<lambda>j. let bf = content_tracker info' ! 0 ! j in
      ts bf \<noteq> 0 \<and> cont_id bf \<noteq> 0 \<and> get_block_content bf 4096 \<noteq> Inr (dev_block ?f j)) [0..<m] =
      (if ts ?bf \<noteq> 0 \<and> cont_id ?bf \<noteq> 0 then [k] else [])"
  proof -
    have "(let bf = content_tracker info' ! 0 ! j in ts bf \<noteq> 0 \<and> cont_id bf \<noteq> 0 \<and> get_block_content bf 4096 \<noteq> Inr (dev_block ?f j)) \<longleftrightarrow>
        j = k \<and> ts ?bf \<noteq> 0 \<and> cont_id ?bf \<noteq> 0" if "j \<in> set [0..<m]" for j
      using that p(3) fl(1) other [of j] by (cases "j = k") (auto simp: Let_def)
    then have "filter (\<lambda>j. let bf = content_tracker info' ! 0 ! j in
        ts bf \<noteq> 0 \<and> cont_id bf \<noteq> 0 \<and> get_block_content bf 4096 \<noteq> Inr (dev_block ?f j)) [0..<m] =
      filter (\<lambda>j. j = k \<and> ts ?bf \<noteq> 0 \<and> cont_id ?bf \<noteq> 0) [0..<m]" by (rule filter_cong [OF refl])
    also have "filter (\<lambda>j. j = k) [0..<m] = [k]"
      using assms(2) by (induction m) (auto simp: less_Suc_eq)
    then have "filter (\<lambda>j. j = k \<and> ts ?bf \<noteq> 0 \<and> cont_id ?bf \<noteq> 0) [0..<m] = (if ts ?bf \<noteq> 0 \<and> cont_id ?bf \<noteq> 0 then [k] else [])"
      by simp
    finally show ?thesis .
  qed
  have "(\<exists>c. get_block_content (content_tracker info' ! 0 ! j) 4096 = Inr c) \<and>
      (get_block_content (content_tracker info' ! 0 ! j) 4096 \<noteq> Inr (dev_block ?f j) \<longrightarrow> (\<exists>i. check_block_content (dev_block ?f j) = Inr i))"
    if "j < m" for j using that p(3) fl(2) other [of j] by (cases "j = k") auto
  with bench_checked [OF assms(1) ready p(4), of lib junk junk'] only p(1) show ?thesis
    by (auto simp: Let_def split: if_splits)
qed

section \<open>Witnesses\<close>

definition demo_bench :: user_confs where
  "demo_bench = (initial_conf 0)\<lparr>block_size := 4096, filesize := 8192, integrity := 1, rawdevice := 1, populate_kind := 1, nprocs := 1\<rparr>"

definition demo_tracked :: duplicates_info where
  "demo_tracked = demo_info\<lparr>content_tracker := [[no_block, no_block]], di_statistics := [0, 0]\<rparr>"

definition demo_rng :: "u32 rng" where
  "demo_rng = \<lparr>gen_rand32 = (\<lambda>s. (s, s + 3)), gen_rand64 = (\<lambda>s. Inr (ucast s, s + 3))\<rparr>"

definition demo_disk :: "fbd_device \<times> world" where
  "demo_disk = (demo_device [], demo_world (replicate 8192 0))"

lemma demo_bench_ready: "bench_ready demo_bench 2 demo_tracked demo_disk"
  using demo_info_ok
  by (simp add: bench_ready_def demo_bench_def demo_tracked_def demo_disk_def dev_ready_def dist_ready_def statistics_fit_def
      tracker_fits_def demo_world_def calm_def dist_ok_def accumulated_def)

theorem populated_device_is_intact_witness:
  "\<exists>info' f' f''. populate ucast demo_rng (dev_io demo_lib []) (\<lambda>i k. 77) (initial_stats) demo_bench demo_tracked demo_disk =
      Some (Inr (8192, info', f')) \<and>
    check_integrity (dev_io demo_lib []) (\<lambda>i. NUL) True demo_bench info' f' = Some (Inr (0, [], f''))"
  using populated_device_is_intact [OF demo_bench_ready, of ucast demo_rng demo_lib "[]" "\<lambda>i k. 77" initial_stats "\<lambda>i. NUL"]
  by (auto simp: demo_bench_def)

theorem flipped_block_is_reported_witness:
  "\<exists>info' f' f''. populate ucast demo_rng (dev_io demo_lib []) (\<lambda>i k. 77) (initial_stats) demo_bench demo_tracked demo_disk =
      Some (Inr (8192, info', f')) \<and>
    (let bf = content_tracker info' ! 0 ! 1; seen = ts bf \<noteq> 0 \<and> cont_id bf \<noteq> 0 in
     check_integrity (dev_io demo_lib []) (\<lambda>i. NUL) True demo_bench info' (flip_block 1 f') =
       Some (Inr (if seen then 1 else 0, if seen then [Compared (Error_Checking (cont_id bf))] else [], f'')))"
  using flipped_block_is_reported [OF demo_bench_ready, of 1 ucast demo_rng demo_lib "[]" "\<lambda>i k. 77" initial_stats "\<lambda>i. NUL"]
  by (simp add: demo_bench_def)

definition demo_run :: user_confs where
  \<comment> \<open>one process that writes and one that reads, each with a block of its own\<close>
  "demo_run = demo_bench\<lparr>totblocks := 2, testtype := PEAK, number_ops := 2, accesstype := SEQUENTIAL, mixedIO := 1, nprocs := 2,
     integrity := 3\<rparr>"

definition demo_tick :: tick where
  "demo_tick = \<lparr>tk_unique = 77, tk_t1 = 50000000, tk_t2 = 50000100, tk_lap = 50000200, tk_end = 50000300\<rparr>"

definition demo_os :: "(u32, fbd_device \<times> world, loop_state) run_os" where
  "demo_os = \<lparr>os_init_rand = ucast, os_rng = demo_rng, os_nurand = \<lparr>a_nurand = 0, c_nurand = 0\<rparr>, os_io = dev_io demo_lib [], os_fault = demo_env,
     os_opened = (\<lambda>name. True), os_begin_at = (\<lambda>r. 50000000), os_base_at = (\<lambda>r. 50000000), os_ticks = (\<lambda>r k. demo_tick),
     os_buffer = (\<lambda>i. NUL), os_stack = 0, os_keys = map snd, os_address = (\<lambda>p. 0)\<rparr>"


end
