(* ===== verification/Dedis_Rate.thy ===== *)
theory Dedis_Rate
  imports Dedis_Run_Correct Dedis_Faults_Correct
begin

text \<open>
  Limits of a run: the rate of a nominal test, and what happens to faults, snapshots, counters and
  reads outside the cases that the benchmark was written for.
\<close>

section \<open>What a round may change\<close>

lemma obind_Inr_iff: "obind m f = Some (Inr y) \<longleftrightarrow> (\<exists>x. m = Some (Inr x) \<and> f x = Some (Inr y))"
  by (auto simp: obind_def split: option.splits sum.splits)

lemma inject_if_frame:
  "inject_if env opbit before nf off st = Inr st' \<Longrightarrow> \<exists>fs fi s. st' = st\<lparr>rs_fstats := fs, rs_faults := fi, rs_sock := s\<rparr>"
proof -
  assume eq: "inject_if env opbit before nf off st = Inr st'"
  have same: "st = st\<lparr>rs_fstats := rs_fstats st, rs_faults := rs_faults st, rs_sock := rs_sock st\<rparr>" by simp
  show ?thesis
  proof (cases "st' = st")
    case True
    then show ?thesis using same by metis
  next
    case False
    then show ?thesis using eq by (auto simp: inject_if_def rbind_Inr_iff split: option.splits if_splits)
  qed
qed

definition pace :: "('s, 'f, 'n) run_state \<Rightarrow> u64 \<times> int \<times> u64 \<times> nat" where
  \<comment> \<open>operations, elapsed time, the last lap and the round\<close>
  "pace st = (tot_ops (rs_stat st), rs_elapsed st, rs_base st, rs_round st)"

lemma run_statistics_pace: "run_statistics conf b info stat = Inr (info', stat') \<Longrightarrow> tot_ops stat' = tot_ops stat"
  by (auto simp: run_statistics_def Let_def split: if_splits)

lemma track_pace:
  "track_write env off b st = Inr st' \<Longrightarrow> pace st' = pace st"
  "track_read env off st = Inr (bf, st') \<Longrightarrow> pace st' = pace st"
  "time_op env t st = Inr st' \<Longrightarrow> pace st' = pace st"
  by (auto simp: track_write_def track_read_def time_op_def Let_def rbind_Inr_iff pace_def split: if_splits)

lemma inject_pace: "inject_if env opbit before nf off st = Inr st' \<Longrightarrow> pace st' = pace st"
  by (drule inject_if_frame) (auto simp: pace_def)

lemma run_write_pace:
  assumes "run_write env nf t st = Some (Inr st')"
  shows "pace st' = pace st"
proof -
  from assms obtain off buf info1 stat1 b s fi info2 stat2 acc st1 r f1 st2 st3 where
    w: "write_request (re_rng env) (rs_rng st) (tk_unique t) (re_nurand env) (re_conf env) (rs_info st) (rs_stat st) (re_idproc env) =
        Some (Inr (off, buf, info1, stat1, b, s))"
    "run_statistics (re_conf env) b info1 stat1 = Inr (info2, stat2)"
    "inject_if env 1 True nf off (st\<lparr>rs_rng := s, rs_faults := fi, rs_info := info2, rs_stat := stat2, rs_accesses := acc\<rparr>) = Inr st1"
    "inject_if env 1 False nf off (st1\<lparr>rs_file := f1\<rparr>) = Inr st2"
    "track_write env off b (st2\<lparr>rs_file := r\<rparr>) = Inr st3" "time_op env t st3 = Inr st'"
    by (auto simp: run_write_def Let_def obind_Inr_iff rbind_Inr_iff split_beta)
  have "tot_ops stat1 = tot_ops (rs_stat st)"
    using w(1) get_writecontent_stat by (fastforce simp: write_request_def obind_Inr_iff stat_clock_def)
  with run_statistics_pace [OF w(2)] inject_pace [OF w(3)] inject_pace [OF w(4)] track_pace(1) [OF w(5)] track_pace(3) [OF w(6)]
  show ?thesis by (simp add: pace_def)
qed

lemma pace_read:
  "pace (st\<lparr>rs_errors := r, rs_lines := ls, rs_stat := (if c then (rs_stat st)\<lparr>misses_read := k\<rparr> else rs_stat st)\<rparr>) = pace st"
  by (simp add: pace_def)

lemma run_read_pace:
  assumes "run_read env nf t st = Some (Inr st')"
  shows "pace st' = pace st"
proof -
  from assms obtain off s acc st1 f1 bf st2 st3 st4 where
    w: "inject_if env 2 True nf off (st\<lparr>rs_rng := s, rs_accesses := acc\<rparr>) = Inr st1"
    "track_read env off (st1\<lparr>rs_file := f1\<rparr>) = Inr (bf, st2)" "inject_if env 2 False nf off st2 = Inr st3"
    "time_op env t st4 = Inr st'" "pace st4 = pace st3"
    by (simp add: run_read_def Let_def obind_Inr_iff split_beta) (metis pace_read)
  with inject_pace [OF w(1)] track_pace(2) [OF w(2)] inject_pace [OF w(3)] track_pace(3) [OF w(4)]
  show ?thesis by (simp add: pace_def)
qed

lemma count_op_pace:
  assumes "count_op env st = Inr st'"
  shows "tot_ops (rs_stat st') = tot_ops (rs_stat st) + (if warm env st then 1 else 0)" "rs_elapsed st' = rs_elapsed st" "rs_base st' = rs_base st"
    "rs_round st' = rs_round st"
  using assms by (auto simp: count_op_def store_snapshot_def Let_def rbind_Inr_iff split: if_splits)

lemma run_op_pace:
  assumes "run_op env nf t st = Some (Inr st')"
  shows "tot_ops (rs_stat st') = tot_ops (rs_stat st) \<or> tot_ops (rs_stat st') = tot_ops (rs_stat st) + 1"
    "rs_elapsed st' = rs_elapsed st" "rs_base st' = rs_base st" "rs_round st' = rs_round st"
proof -
  from assms obtain st1 where st1: "run_write env nf t st = Some (Inr st1) \<or> run_read env nf t st = Some (Inr st1)" "count_op env st1 = Inr st'"
    by (auto simp: run_op_def obind_Inr_iff split: if_splits)
  then have "pace st1 = pace st" using run_write_pace run_read_pace by blast
  with count_op_pace [OF st1(2)]
  show "tot_ops (rs_stat st') = tot_ops (rs_stat st) \<or> tot_ops (rs_stat st') = tot_ops (rs_stat st) + 1"
    "rs_elapsed st' = rs_elapsed st" "rs_base st' = rs_base st" "rs_round st' = rs_round st"
    by (auto simp: pace_def)
qed

section \<open>The rate of a nominal test\<close>

definition paced :: "('s, 'f, 'n) run_env \<Rightarrow> ('s, 'f, 'n) run_state \<Rightarrow> bool" where
  \<comment> \<open>all processes together are at most one operation each ahead of the rate\<close>
  "paced env st \<longleftrightarrow> uint (tot_ops (rs_stat st)) * re_nproc env * 1000000 \<le> re_ratio env * rs_elapsed st + re_nproc env * 1000000"

definition forward :: "('s, 'f, 'n) run_env \<Rightarrow> ('s, 'f, 'n) run_state \<Rightarrow> bool" where
  \<comment> \<open>the clock does not go back\<close>
  "forward env st \<longleftrightarrow> rs_base st \<le> tk_lap (re_clock env (rs_round st))"

lemma run_step_forward:
  assumes "run_step env st = Some (Inr st')" and "forward env st" and "\<forall>k. tk_lap (re_clock env k) \<le> tk_lap (re_clock env (Suc k))"
  shows "rs_elapsed st \<le> rs_elapsed st'" and "forward env st'"
    and "tot_ops (rs_stat st') \<noteq> tot_ops (rs_stat st) \<Longrightarrow>
      tot_ops (rs_stat st') = tot_ops (rs_stat st) + 1 \<and> (testtype (re_conf env) = PEAK \<or> below_rate env st)"
proof -
  let ?t = "re_clock env (rs_round st)"
  have "\<not> rs_elapsed st \<le> 0" using assms(1) by (auto simp: run_step_def obind_Inr_iff Let_def)
  with assms(1) obtain nf fi st2 where
    st2: "(if testtype (re_conf env) = PEAK \<or> below_rate env (st\<lparr>rs_faults := fi\<rparr>) then run_op env nf ?t (st\<lparr>rs_faults := fi\<rparr>)
          else Some (Inr (st\<lparr>rs_faults := fi\<rparr>))) = Some (Inr st2)"
    and st': "st' = st2\<lparr>rs_elapsed := rs_elapsed st2 + (uint (tk_lap ?t) - uint (rs_base st2)), rs_base := tk_lap ?t,
      rs_begin_time := seconds (tk_end ?t), rs_round := Suc (rs_round st2)\<rparr>"
    by (auto simp: run_step_def Let_def obind_Inr_iff lap_time_def)
  have same: "rs_elapsed st2 = rs_elapsed st" "rs_base st2 = rs_base st" "rs_round st2 = rs_round st"
    and ops: "tot_ops (rs_stat st2) \<noteq> tot_ops (rs_stat st) \<Longrightarrow>
      tot_ops (rs_stat st2) = tot_ops (rs_stat st) + 1 \<and> (testtype (re_conf env) = PEAK \<or> below_rate env st)"
    using st2 run_op_pace [of env nf ?t "st\<lparr>rs_faults := fi\<rparr>" st2] by (auto simp: below_rate_def split: if_splits)
  have "uint (rs_base st) \<le> uint (tk_lap ?t)" using assms(2) by (simp add: forward_def word_le_def)
  then show "rs_elapsed st \<le> rs_elapsed st'" by (simp add: st' same)
  show "forward env st'" using assms(3) by (simp add: forward_def st' same)
  show "tot_ops (rs_stat st') \<noteq> tot_ops (rs_stat st) \<Longrightarrow>
      tot_ops (rs_stat st') = tot_ops (rs_stat st) + 1 \<and> (testtype (re_conf env) = PEAK \<or> below_rate env st)"
    using ops by (simp add: st')
qed

lemma paced_step:
  assumes "run_step env st = Some (Inr st')" and "forward env st" and "\<forall>k. tk_lap (re_clock env k) \<le> tk_lap (re_clock env (Suc k))"
    and "paced env st" and "testtype (re_conf env) \<noteq> PEAK" and "0 < re_nproc env" and "0 \<le> re_ratio env"
    and "re_ratio env * rs_elapsed st + re_nproc env * 1000000 < 2 ^ 64 * 1000000"
  shows "paced env st'"
proof -
  let ?n = "uint (tot_ops (rs_stat st))" and ?p = "re_nproc env"
  note fw = run_step_forward [OF assms(1-3)]
  have mono: "re_ratio env * rs_elapsed st \<le> re_ratio env * rs_elapsed st'" using fw(1) assms(7) by (rule mult_left_mono)
  show ?thesis
  proof (cases "tot_ops (rs_stat st') = tot_ops (rs_stat st)")
    case True
    then show ?thesis using assms(4) mono by (simp add: paced_def)
  next
    case False
    from fw(3) [OF this] assms(5) have op: "tot_ops (rs_stat st') = tot_ops (rs_stat st) + 1" "below_rate env st" by auto
    have "?n * ?p * 1000000 < 2 ^ 64 * 1000000" using assms(4,8) unfolding paced_def by linarith
    then have np: "?n * ?p < 2 ^ 64" by linarith
    have "?p < 2 ^ 64 \<or> ?n = 0"
    proof (cases "?n = 0")
      case False
      then have "1 \<le> ?n" using uint_ge_0 [of "tot_ops (rs_stat st)"] by linarith
      then have "1 * ?p \<le> ?n * ?p" using assms(6) by (intro mult_right_mono) simp_all
      then show ?thesis using np by simp
    qed simp
    then have "uint (tot_ops (rs_stat st) * word_of_int ?p) = ?n * ?p"
      using np assms(6) by (auto simp: uint_word_arith_bintrs take_bit_int_eq_self uint_word_of_int_eq)
    then have "?n * ?p * 1000000 < re_ratio env * rs_elapsed st" using op(2) by (simp add: below_rate_def)
    moreover have "uint (tot_ops (rs_stat st) + 1) * ?p \<le> (?n + 1) * ?p"
      using uint_add_le [of "tot_ops (rs_stat st)" 1] assms(6) by (intro mult_right_mono) simp_all
    ultimately show ?thesis using mono by (simp add: paced_def op(1) algebra_simps)
  qed
qed

lemma run_loop_paced:
  assumes "run_loop env st = Some (Inr st')" and "forward env st" and "\<forall>k. tk_lap (re_clock env k) \<le> tk_lap (re_clock env (Suc k))"
    and "testtype (re_conf env) \<noteq> PEAK" and "0 < re_nproc env" and "0 \<le> re_ratio env"
  shows "rs_elapsed st \<le> rs_elapsed st' \<and>
    (paced env st \<longrightarrow> re_ratio env * rs_elapsed st' + re_nproc env * 1000000 < 2 ^ 64 * 1000000 \<longrightarrow> paced env st')"
  using assms
proof (induction env st "Inr st' :: (_, _, _) run_state res" rule: run_loop.raw_induct [rotated, consumes 1])
  case (1 loop env st)
  show ?case
  proof (cases "running env st")
    case True
    with 1(2) obtain st1 where st1: "run_step env st = Some (Inr st1)" "loop env st1 = Some (Inr st')" by (auto simp: obind_Inr_iff)
    note fw = run_step_forward [OF st1(1) 1(3,4)]
    note IH = 1(1) [OF st1(2) fw(2) 1(4-7)]
    have le: "rs_elapsed st \<le> rs_elapsed st'" using fw(1) IH by simp
    then have "re_ratio env * rs_elapsed st \<le> re_ratio env * rs_elapsed st'" using 1(7) by (intro mult_left_mono)
    then show ?thesis using le IH paced_step [OF st1(1) 1(3,4) _ 1(5-7)] by fastforce
  next
    case False
    with 1(2) show ?thesis by simp
  qed
qed


section \<open>Faults, snapshots, counters and reads\<close>

text \<open>
  A process that is ahead of its rate loses the fault that is due: the schedule releases it, and the
  round ends without an operation and without an injection.
\<close>

lemma idle_round_drops_fault:
  assumes "next_fault_conf (rs_faults st) (nat (re_idproc env)) (tot_ops (rs_stat st)) (word_of_int (rs_elapsed st)) = Inr (Some fc, fi)"
    and "testtype (re_conf env) \<noteq> PEAK" and "\<not> below_rate env st" and "0 < rs_elapsed st"
  shows "\<exists>st'. run_step env st = Some (Inr st') \<and> rs_faults st' = fi \<and> rs_fstats st' = rs_fstats st \<and> rs_sock st' = rs_sock st"
  using assms by (simp add: run_step_def Let_def lap_time_def below_rate_def)

text \<open>
  The arrays of snapshots have 1000 entries and no check: the snapshot after the thousandth is stored
  outside.
\<close>

lemma snapshot_overrun:
  assumes "warm env st" and "iter_snap (rs_stat st) = 1000" and "unat (last_snap_time (rs_stat st)) + 30000000 \<le> unat (t1snap (rs_stat st))"
  shows "count_op env st = Inl Out_Of_Bounds"
  using assms by (simp add: count_op_def store_snapshot_def Let_def warm_def)

text \<open>
  With an output distribution a block without duplicates is counted twice, once when its content is
  generated and once by the loop.
\<close>

lemma unique_block_counted_twice:
  assumes "get_writecontent g s t conf info stat p = Some (Inr (buf, info1, stat1, b, s'))" and "distout conf = 1"
    and "cont_id b \<ge> duplicated_blocks info1" and "run_statistics conf b info1 stat1 = Inr (info2, stat2)"
  shows "uni stat2 = uni stat + 2" and "zerod stat2 = zerod stat + 2" and "zerodups info2 = zerodups info1 + 1"
proof -
  from assms(1) obtain c info' s1 where c: "get_contentid g s info = Some (Inr (c, info', s1))"
    unfolding get_writecontent_def obind_Inr_iff by auto
  have "uni stat1 = uni stat + 1 \<and> zerod stat1 = zerod stat + 1"
  proof (cases "c \<ge> duplicated_blocks info'")
    case True
    then show ?thesis using assms(1) c by (auto simp: get_writecontent_def Let_def rbind_Inr_iff)
  next
    case False
    then have "cont_id b = c" "info1 = info'" using assms(1) c by (auto simp: get_writecontent_def Let_def rbind_Inr_iff)
    then show ?thesis using False assms(3) by simp
  qed
  then show "uni stat2 = uni stat + 2" "zerod stat2 = zerod stat + 2" "zerodups info2 = zerodups info1 + 1"
    using assms(2-4) by (auto simp: run_statistics_def Let_def split: if_splits)
qed

text \<open>
  A read looks its block up in the content tracker, which is allocated only for integrity checks, an
  output distribution or faults: in a read test without these the first read follows a null pointer.
\<close>

lemma read_without_tracker:
  assumes "accesses_ok (re_nurand env) (re_conf env)" and "rawdevice (re_conf env) \<noteq> 1" and "block_size (re_conf env) \<noteq> 0"
    and "length (rs_accesses st) = unat (totblocks (re_conf env))" and "content_tracker (rs_info st) = []"
  shows "run_read env None t st = Some (Inl Wild_Pointer)"
proof -
  let ?conf = "re_conf env"
  from get_ioposition_file_block [OF assms(1,2), of "re_rng env" "rs_rng st" "rs_stat st" "re_idproc env"] obtain p s' i where
    p: "get_ioposition (re_rng env) (rs_rng st) (re_nurand env) ?conf (rs_stat st) (re_idproc env) = Some (Inr (p, s'))"
    "i < unat (totblocks ?conf)" "unat p = i * unat (block_size ?conf)" unfolding in_blocks_def by blast
  have "0 < unat (block_size ?conf)" using assms(3) by (simp add: unat_gt_0 word_gt_0)
  then have "block_index ?conf p = Inr i" using assms(3) p(3) by (simp add: block_index_def unat_div)
  then show ?thesis
    using p(1,2) assms(4,5) by (simp add: run_read_def read_request_def bump_access_def inject_if_def track_read_def Let_def split_beta)
qed

section \<open>Concrete evaluations\<close>

definition demo_pace_env :: "(nat, unit, loop_state) run_env" where
  "demo_pace_env = \<lparr>re_rng = demo_rng,
     re_io = \<lparr>io_open = (\<lambda>creat direct path f. (3, f)), io_pwrite = (\<lambda>fd buf offset f. (int (length buf), f)),
       io_pread = (\<lambda>fd k offset f. (0, [], f)), io_fsync = (\<lambda>fd f. f), io_close = (\<lambda>fd f. f), io_system = (\<lambda>command f. (0, f))\<rparr>,
     re_fault = demo_env, re_conf = (initial_conf 0)\<lparr>testtype := NOMINAL\<rparr>, re_nurand = \<lparr>a_nurand = 0, c_nurand = 0\<rparr>, re_fd = 3,
     re_idproc = 0, re_nproc = 2, re_ratio = 3, re_iotype = IO_WRITE, re_end_time = 51, re_end_size = 100, re_ru_begin = 50, re_log_open = False,
     re_clock = (\<lambda>k. \<lparr>tk_unique = 0, tk_t1 = 0, tk_t2 = 0, tk_lap = 50500000, tk_end = 51000000\<rparr>), re_junk = (\<lambda>i. NUL)\<rparr>"

definition demo_pace_state :: "(nat, unit, loop_state) run_state" where
  \<comment> \<open>two operations in the first second: ahead of a rate of three for two processes\<close>
  "demo_pace_state = \<lparr>rs_stat = initial_stats\<lparr>tot_ops := 2\<rparr>, rs_snaps = [], rs_info = empty_info, rs_faults = None,
     rs_fstats = \<lparr>tot_faults_injected = 0, tot_faults_dup = 0, tot_failures = 0, injected_faults = []\<rparr>, rs_degree = None, rs_accesses = [],
     rs_errors = 0, rs_lines = [], rs_log = [], rs_rng = 0, rs_file = (), rs_sock = (demo_device [], [], []), rs_round = 0,
     rs_begin_time = 50, rs_begin_size = 0, rs_elapsed = 1000000, rs_base = 50000000\<rparr>"

lemma demo_pace_loop: "\<exists>st'. run_loop demo_pace_env demo_pace_state = Some (Inr st') \<and> rs_elapsed st' = 1500000 \<and> tot_ops (rs_stat st') = 2"
proof -
  have step: "run_step demo_pace_env demo_pace_state = Some (Inr (demo_pace_state\<lparr>rs_elapsed := 1500000, rs_base := 50500000,
      rs_begin_time := 51, rs_round := 1\<rparr>))"
    by (simp add: run_step_def demo_pace_env_def demo_pace_state_def next_fault_conf_def below_rate_def lap_time_def seconds_def initial_stats_def)
  have "running demo_pace_env demo_pace_state" by (simp add: running_def demo_pace_env_def demo_pace_state_def)
  moreover have "\<not> running demo_pace_env (demo_pace_state\<lparr>rs_elapsed := 1500000, rs_base := 50500000, rs_begin_time := 51, rs_round := 1\<rparr>)"
    by (simp add: running_def demo_pace_env_def)
  ultimately show ?thesis using step by (subst run_loop.simps, simp, subst run_loop.simps) (simp add: demo_pace_state_def)
qed


end
