(* ===== verification/Dedis_Berk.thy ===== *)
theory Dedis_Berk
  imports Dedis_Plot "HOL-Library.AList"
begin

text \<open>
  \<^verbatim>\<open>dedisbench/utils/db/berk.c\<close>: counters in files of Berkeley DB. The library is a parameter \<open>libdb\<close>: which
  directories it can open, the empty database, lookups, insertions, which can fail, and the records
  in the order of a cursor. A handle is None after the database has been closed by an error path;
  every further use of it is an error. The locale \<open>hash_db\<close> states what is relied on.
\<close>

section \<open>Databases\<close>

datatype db_answer = DB_FOUND u64 | DB_NOTFOUND | DB_FAILED

record ('k, 'd) libdb =
  db_opens :: "string \<Rightarrow> bool"
  db_empty :: 'd
  db_lookup :: "'d \<Rightarrow> 'k \<Rightarrow> db_answer"
  db_insert :: "'d \<Rightarrow> 'k \<Rightarrow> u64 \<Rightarrow> 'd option"
  db_records :: "'d \<Rightarrow> ('k \<times> u64) list"

type_synonym 'd db_files = "string \<Rightarrow> 'd option"

definition db_file :: "string \<Rightarrow> string" where
  \<comment> \<open>the file of the database in its home directory\<close>
  "db_file home = (if home \<noteq> [] \<and> last home = CHR ''/'' then home @ ''dht.db'' else home @ ''/dht.db'')"

definition init_db :: "('k, 'd) libdb \<Rightarrow> string \<Rightarrow> 'd db_files \<Rightarrow> 'd option res" where
  "init_db lib nome files =
     (if 200 \<le> length nome then Inl Out_Of_Bounds
      else Inr (if db_opens lib nome
                then Some (case files (db_file nome) of None \<Rightarrow> db_empty lib | Some d \<Rightarrow> d) else None))"

definition close_db :: "string \<Rightarrow> 'd option \<Rightarrow> 'd db_files \<Rightarrow> 'd db_files res" where
  \<comment> \<open>closing a handle that an error path has closed before is undefined\<close>
  "close_db nome dbp files = (case dbp of None \<Rightarrow> Inl Wild_Pointer | Some d \<Rightarrow> Inr (files(db_file nome := Some d)))"

definition remove_db :: "string \<Rightarrow> 'd db_files \<Rightarrow> 'd db_files" where
  \<comment> \<open>the name of the file is put behind the name of the directory without a slash\<close>
  "remove_db nome files = files(nome @ ''dht.db'' := None)"

definition put_handle :: "('k, 'd) libdb \<Rightarrow> 'd option \<Rightarrow> 'k \<Rightarrow> u64 \<Rightarrow> 'd option res" where
  \<comment> \<open>after an error the database is closed, and the caller is told that all went well\<close>
  "put_handle lib dbp k v = (case dbp of None \<Rightarrow> Inl Wild_Pointer | Some d \<Rightarrow> Inr (db_insert lib d k v))"

definition get_handle :: "('k, 'd) libdb \<Rightarrow> 'd option \<Rightarrow> 'k \<Rightarrow> db_answer res" where
  "get_handle lib dbp k = (case dbp of None \<Rightarrow> Inl Wild_Pointer | Some d \<Rightarrow> Inr (db_lookup lib d k))"

definition put_db :: "(string, 'd) libdb \<Rightarrow> 'd option \<Rightarrow> string \<Rightarrow> u64 \<Rightarrow> 'd option res" where
  "put_db lib dbp hash cont = put_handle lib dbp hash cont"

definition get_db :: "(string, 'd) libdb \<Rightarrow> 'd option \<Rightarrow> string \<Rightarrow> db_answer res" where
  "get_db lib dbp hash = get_handle lib dbp hash"

definition put_db_print :: "(u64, 'd) libdb \<Rightarrow> 'd option \<Rightarrow> u64 \<Rightarrow> u64 \<Rightarrow> 'd option res" where
  "put_db_print lib dbp hash cont = put_handle lib dbp hash cont"

definition get_db_print :: "(u64, 'd) libdb \<Rightarrow> 'd option \<Rightarrow> u64 \<Rightarrow> db_answer res" where
  "get_db_print lib dbp hash = get_handle lib dbp hash"

definition record_line :: "('k \<Rightarrow> string) \<Rightarrow> 'k \<times> u64 \<Rightarrow> string" where
  "record_line shw r = shw (fst r) @ BLANK # show_u64 (snd r) @ [NEWLINE]"

definition print_elements :: "(string, 'd) libdb \<Rightarrow> 'd option \<Rightarrow> string res" where
  "print_elements lib dbp =
     (case dbp of None \<Rightarrow> Inl Wild_Pointer | Some d \<Rightarrow> Inr (concat (map (record_line id) (db_records lib d))))"

section \<open>The distribution and its histogram\<close>

datatype cumul_line = Zero_Line u64 | Interval_Line int int u64

fun count_records :: "bool \<Rightarrow> (u64 \<times> u64) list \<Rightarrow> u64 list \<Rightarrow> int \<Rightarrow> (cumul_line list \<times> u64 list \<times> int) res" where
  \<comment> \<open>the loop over the cursor; \<open>fpcumul\<close> tells whether there is a file for the histogram\<close>
  "count_records fpcumul [] dups mx = Inr ([], dups, mx)"
| "count_records fpcumul ((key, cont) # rs) dups mx =
     (if key = 0
      then if \<not> fpcumul then Inl Wild_Pointer
           else rbind (count_records fpcumul rs (dups[0 := cont]) mx) (\<lambda>(ls, r). Inr (Zero_Line cont # ls, r))
      else let p = access_pos key;
               dups' = (if p \<ge> int (length dups) then dups @ replicate (length dups) 0 else dups)
           in if 0 \<le> p \<and> nat p < length dups'
              then count_records fpcumul rs (dups'[nat p := dups' ! nat p + cont]) (max p mx)
              else Inl Out_Of_Bounds)"

fun merge_small :: "nat \<Rightarrow> u64 list \<Rightarrow> u64 list res" where
  \<comment> \<open>the loop \<^verbatim>\<open>for(i=max; i >= 0 && dups[i] <= 300; i--)\<close>, which adds \<^verbatim>\<open>dups[i]\<close> to \<^verbatim>\<open>dups[i-1]\<close>\<close>
  "merge_small 0 dups = (if dups ! 0 \<le> 300 then Inl Out_Of_Bounds else Inr dups)"
| "merge_small (Suc i) dups =
     (if dups ! Suc i \<le> 300 then merge_small i (dups[i := dups ! i + dups ! Suc i, Suc i := 0]) else Inr dups)"

function cumul_lines :: "u64 list \<Rightarrow> nat \<Rightarrow> int \<Rightarrow> int \<Rightarrow> cumul_line list" where
  \<comment> \<open>the loop \<^verbatim>\<open>while(i<dups_len)\<close>; \<^verbatim>\<open>int\<close> products wrap around\<close>
  "cumul_lines dups i init final =
     (if i < length dups
      then (if dups ! i \<noteq> 0 then [Interval_Line init (final div 2) (dups ! i)] else []) @
           (if Suc i < length dups \<and> dups ! Suc i \<noteq> 0
            then [Interval_Line (final div 2) (to_int (init * 10)) (dups ! Suc i)] else []) @
           cumul_lines dups (i + 2) final (to_int (final * 10))
      else [])"
  by pat_completeness auto
termination
  by (relation "measure (\<lambda>(dups, i, init, final). length dups - i)") auto

declare cumul_lines.simps [simp del]

definition print_elements_print :: "(u64, 'd) libdb \<Rightarrow> 'd option \<Rightarrow> bool \<Rightarrow> (string \<times> cumul_line list) res" where
  "print_elements_print lib dbp fpcumul =
     (case dbp of None \<Rightarrow> Inl Wild_Pointer | Some d \<Rightarrow>
        rbind (count_records fpcumul (db_records lib d) (replicate 50 0) 0) (\<lambda>(zs, dups, mx).
        rbind (merge_small (nat mx) dups) (\<lambda>dups'.
          let ls = cumul_lines dups' 1 1 10 in
          if \<not> fpcumul \<and> ls \<noteq> [] then Inl Wild_Pointer
          else Inr (concat (map (record_line show_u64) (db_records lib d)), zs @ ls))))"

end
