(* ===== verification/Ini_Parse.thy ===== *)
theory Ini_Parse
  imports C_Text
begin

text \<open>
  \<^verbatim>\<open>dedisbench/parserconf/inih/ini.c\<close>: the parser of configuration files, as it is built for the
  benchmark: values may go on in indented lines, a byte order mark is skipped, inline comments start
  with \<^verbatim>\<open>#\<close>, lines are read into a buffer of 200 bytes, and parsing goes on after errors. The handler is
  an argument; it returns 0 for an entry it does not accept, and may leave the program.
\<close>

section \<open>Strings\<close>

definition rstrip :: "string \<Rightarrow> string" where
  "rstrip s = rev (dropWhile is_space (rev s))"

definition lskip :: "string \<Rightarrow> string" where
  "lskip s = dropWhile is_space s"

fun split_at_chars :: "string option \<Rightarrow> bool \<Rightarrow> string \<Rightarrow> string \<times> string" where
  \<comment> \<open>the loop of \<^verbatim>\<open>find_chars_or_comment\<close>: the text before the position that is returned, and from it on\<close>
  "split_at_chars chars was_space [] = ([], [])"
| "split_at_chars chars was_space (c # cs) =
     (if (case chars of None \<Rightarrow> False | Some w \<Rightarrow> c \<in> set w) \<or> was_space \<and> c = CHR ''#'' then ([], c # cs)
      else case split_at_chars chars (is_space c) cs of (a, b) \<Rightarrow> (c # a, b))"

definition find_chars_or_comment :: "string \<Rightarrow> string option \<Rightarrow> string \<times> string" where
  "find_chars_or_comment s chars = split_at_chars chars False s"

definition strncpy0 :: "string \<Rightarrow> nat \<Rightarrow> string" where
  "strncpy0 s n = take (n - 1) s"

section \<open>Lines\<close>

abbreviation INI_MAX_LINE :: nat where "INI_MAX_LINE \<equiv> 200"
abbreviation MAX_SECTION :: nat where "MAX_SECTION \<equiv> 50"
abbreviation MAX_NAME :: nat where "MAX_NAME \<equiv> 50"

type_synonym 'u ini_handler = "string \<Rightarrow> string \<Rightarrow> string \<Rightarrow> 'u \<Rightarrow> (int \<times> 'u) res"

record 'u ini_state =
  ini_section :: string
  ini_prev :: string
  ini_error :: int
  ini_user :: 'u

definition ini_fail :: "int \<Rightarrow> 'u ini_state \<Rightarrow> 'u ini_state" where
  \<comment> \<open>the number of the first line with an error is kept\<close>
  "ini_fail lineno st = (if ini_error st = 0 then st\<lparr>ini_error := lineno\<rparr> else st)"

definition ini_call :: "'u ini_handler \<Rightarrow> int \<Rightarrow> string \<Rightarrow> string \<Rightarrow> 'u ini_state \<Rightarrow> 'u ini_state res" where
  "ini_call handler lineno name v st =
     rbind (handler (ini_section st) name v (ini_user st)) (\<lambda>(r, u).
       Inr (if r = 0 then ini_fail lineno (st\<lparr>ini_user := u\<rparr>) else st\<lparr>ini_user := u\<rparr>))"

definition bom :: string where
  "bom = [CHR 0xEF, CHR 0xBB, CHR 0xBF]"

definition ini_line :: "'u ini_handler \<Rightarrow> int \<Rightarrow> string \<Rightarrow> 'u ini_state \<Rightarrow> 'u ini_state res" where
  \<comment> \<open>the body of the loop for the string in the buffer\<close>
  "ini_line handler lineno line st =
     (let marked = (lineno = 1 \<and> take 3 line = bom);
          text0 = rstrip (if marked then drop 3 line else line);
          start = lskip text0;
          moved = (marked \<or> length start < length text0)
      in case start of
        [] \<Rightarrow> Inr st
      | c # cs \<Rightarrow>
          if c = CHR '';'' \<or> c = CHR ''#'' then Inr st
          else if ini_prev st \<noteq> [] \<and> moved then ini_call handler lineno (ini_prev st) start st
          else if c = CHR ''[''
          then (case find_chars_or_comment cs (Some '']'') of (sec, rest) \<Rightarrow>
                  if rest \<noteq> [] \<and> hd rest = CHR '']''
                  then Inr (st\<lparr>ini_section := strncpy0 sec MAX_SECTION, ini_prev := []\<rparr>)
                  else Inr (ini_fail lineno st))
          else (case find_chars_or_comment start (Some ''=:'') of (name0, rest) \<Rightarrow>
                  if rest \<noteq> [] \<and> (hd rest = CHR ''='' \<or> hd rest = CHR '':'')
                  then let name = rstrip name0;
                           v = rstrip (lskip (fst (find_chars_or_comment (tl rest) None)))
                       in ini_call handler lineno name v (st\<lparr>ini_prev := strncpy0 name MAX_NAME\<rparr>)
                  else Inr (ini_fail lineno st)))"

function ini_parse_stream :: "'u ini_handler \<Rightarrow> string \<Rightarrow> int \<Rightarrow> 'u ini_state \<Rightarrow> 'u ini_state res" where
  \<comment> \<open>the loop over the lines that \<^verbatim>\<open>fgets\<close> reads from the rest of the file\<close>
  "ini_parse_stream handler stream lineno st =
     (if stream = [] then Inr st
      else let got = fgets INI_MAX_LINE stream in
        rbind (ini_line handler (lineno + 1) (takeWhile (\<lambda>c. c \<noteq> NUL) (fst got)) st) (\<lambda>st'.
          ini_parse_stream handler (snd got) (lineno + 1) st'))"
  by pat_completeness auto
termination
  by (relation "measure (\<lambda>(handler, stream, lineno, st). length stream)") (auto intro: fgets_shorter)

declare ini_parse_stream.simps [simp del]

definition ini_parse_file :: "'u ini_handler \<Rightarrow> string \<Rightarrow> 'u \<Rightarrow> (int \<times> 'u) res" where
  "ini_parse_file handler stream u =
     rbind (ini_parse_stream handler stream 0 \<lparr>ini_section = [], ini_prev = [], ini_error = 0, ini_user = u\<rparr>) (\<lambda>st.
       Inr (ini_error st, ini_user st))"

definition ini_parse :: "'u ini_handler \<Rightarrow> string option \<Rightarrow> 'u \<Rightarrow> (int \<times> 'u) res" where
  \<comment> \<open>the contents of the file, if it can be opened\<close>
  "ini_parse handler stream u = (case stream of None \<Rightarrow> Inr (-1, u) | Some s \<Rightarrow> ini_parse_file handler s u)"

section \<open>Handlers with an invariant\<close>

locale ini_client =
  fixes handler :: "'u ini_handler" and ok :: "'u \<Rightarrow> bool"
  assumes handler_keeps: "handler sec name v u = Inr (r, u') \<Longrightarrow> ok u \<Longrightarrow> ok u'"
begin

lemma call_keeps: "ini_call handler lineno name v st = Inr st' \<Longrightarrow> ok (ini_user st) \<Longrightarrow> ok (ini_user st')"
  by (auto simp: ini_call_def ini_fail_def rbind_Inr_iff dest: handler_keeps)

lemma line_keeps: "ini_line handler lineno line st = Inr st' \<Longrightarrow> ok (ini_user st) \<Longrightarrow> ok (ini_user st')"
  by (auto simp: ini_line_def Let_def ini_fail_def dest!: call_keeps split: list.splits if_splits prod.splits)

lemma stream_keeps: "ini_parse_stream handler stream lineno st = Inr st' \<Longrightarrow> ok (ini_user st) \<Longrightarrow> ok (ini_user st')"
proof (induction "length stream" arbitrary: stream lineno st rule: less_induct)
  case less
  show ?case
  proof (cases "stream = []")
    case True
    then show ?thesis using less.prems by (simp add: ini_parse_stream.simps)
  next
    case False
    then obtain st1 where st1: "ini_line handler (lineno + 1) (takeWhile (\<lambda>c. c \<noteq> NUL) (fst (fgets INI_MAX_LINE stream))) st = Inr st1"
      "ini_parse_stream handler (snd (fgets INI_MAX_LINE stream)) (lineno + 1) st1 = Inr st'"
      using less.prems(1) by (subst (asm) ini_parse_stream.simps) (auto simp: rbind_Inr_iff Let_def)
    have "length (snd (fgets INI_MAX_LINE stream)) < length stream" by (rule fgets_shorter [OF False]) simp
    from less.hyps [OF this st1(2) line_keeps [OF st1(1) less.prems(2)]] show ?thesis .
  qed
qed

lemma parse_keeps: "ini_parse handler stream u = Inr (e, u') \<Longrightarrow> ok u \<Longrightarrow> ok u'"
  by (auto simp: ini_parse_def ini_parse_file_def rbind_Inr_iff split: option.splits dest!: stream_keeps)

end

section \<open>Single lines\<close>

lemma rstrip_id: "s = [] \<or> \<not> is_space (last s) \<Longrightarrow> rstrip s = s"
  by (cases s rule: rev_cases) (auto simp: rstrip_def)

lemma rstrip_newline: "s = [] \<or> \<not> is_space (last s) \<Longrightarrow> rstrip (s @ [NEWLINE]) = s"
  using rstrip_id [of s] by (simp add: rstrip_def is_space_def)

lemma lskip_id: "s = [] \<or> \<not> is_space (hd s) \<Longrightarrow> lskip s = s"
  by (cases s) (auto simp: lskip_def)

lemma split_at_found:
  "\<forall>c \<in> set a. c \<notin> set w \<and> c \<noteq> CHR ''#'' \<Longrightarrow> d \<in> set w \<Longrightarrow> split_at_chars (Some w) b (a @ d # rest) = (a, d # rest)"
  by (induction a arbitrary: b) auto

lemma split_at_none: "CHR ''#'' \<notin> set a \<Longrightarrow> split_at_chars None b a = (a, [])"
  by (induction a arbitrary: b) auto

definition good_section :: "string \<Rightarrow> bool" where
  "good_section sec \<longleftrightarrow> length sec < MAX_SECTION \<and> (\<forall>c \<in> set sec. c \<noteq> CHR '']'' \<and> c \<noteq> CHR ''#'' \<and> c \<noteq> NUL \<and> c \<noteq> NEWLINE)"

definition good_entry :: "string \<Rightarrow> string \<Rightarrow> bool" where
  \<comment> \<open>a name and a value that can be written in one line\<close>
  "good_entry n v \<longleftrightarrow> n \<noteq> [] \<and> hd n \<notin> {CHR '';'', CHR ''['', CHR 0xEF} \<and> \<not> is_space (hd n) \<and> \<not> is_space (last n) \<and>
     (v = [] \<or> \<not> is_space (hd v) \<and> \<not> is_space (last v)) \<and> length n + length v < 198 \<and>
     (\<forall>c \<in> set n. c \<noteq> CHR ''='' \<and> c \<noteq> CHR '':'' \<and> c \<noteq> CHR ''#'' \<and> c \<noteq> NUL \<and> c \<noteq> NEWLINE) \<and>
     (\<forall>c \<in> set v. c \<noteq> CHR ''#'' \<and> c \<noteq> NUL \<and> c \<noteq> NEWLINE)"

lemma section_line:
  assumes "good_section sec"
  shows "ini_line handler lineno (CHR ''['' # sec @ [CHR '']'', NEWLINE]) st = Inr (st\<lparr>ini_section := sec, ini_prev := []\<rparr>)"
proof -
  have sp: "\<not> is_space (CHR ''['')" "\<not> is_space (CHR '']'')" by (simp_all add: is_space_def)
  have r: "rstrip (CHR ''['' # sec @ [CHR '']'', NEWLINE]) = CHR ''['' # sec @ [CHR '']'']"
    using rstrip_newline [of "CHR ''['' # sec @ [CHR '']'']"] sp by simp
  have "lskip (CHR ''['' # sec @ [CHR '']'']) = CHR ''['' # sec @ [CHR '']'']" by (rule lskip_id) (use sp in simp)
  moreover have "split_at_chars (Some '']'') False (sec @ [CHR '']'']) = (sec, [CHR '']''])"
    by (rule split_at_found) (use assms in \<open>auto simp: good_section_def\<close>)
  ultimately show ?thesis using assms
    by (simp add: ini_line_def r bom_def find_chars_or_comment_def strncpy0_def good_section_def Let_def)
qed

lemma entry_line:
  assumes "good_entry n v"
  shows "ini_line handler lineno (n @ CHR ''='' # v @ [NEWLINE]) st = ini_call handler lineno n v (st\<lparr>ini_prev := strncpy0 n MAX_NAME\<rparr>)"
proof -
  obtain c cs where n: "n = c # cs" using assms by (cases n) (auto simp: good_entry_def)
  have c: "c \<noteq> CHR '';''" "c \<noteq> CHR ''#''" "c \<noteq> CHR ''[''" "c \<noteq> CHR 0xEF" "\<not> is_space c" using assms by (auto simp: n good_entry_def)
  have v: "v = [] \<or> \<not> is_space (hd v)" "v = [] \<or> \<not> is_space (last v)" "CHR ''#'' \<notin> set v" "\<not> is_space (last n)" using assms by (auto simp: good_entry_def)
  have eq: "\<not> is_space (CHR ''='')" by (simp add: is_space_def)
  have r: "rstrip (n @ CHR ''='' # v @ [NEWLINE]) = n @ CHR ''='' # v"
    using rstrip_newline [of "n @ CHR ''='' # v"] v(2) eq by (cases "v = []") auto
  have l: "lskip (n @ CHR ''='' # v) = n @ CHR ''='' # v" by (rule lskip_id) (use c in \<open>simp add: n\<close>)
  have f: "split_at_chars (Some ''=:'') False (n @ CHR ''='' # v) = (n, CHR ''='' # v)"
    by (rule split_at_found) (use assms in \<open>auto simp: good_entry_def\<close>)
  have bm: "(take 3 (n @ CHR ''='' # v @ [NEWLINE]) = bom) = False" using c(4) by (simp add: n bom_def)
  have start: "(case n @ CHR ''='' # v of [] \<Rightarrow> x | c' # cs' \<Rightarrow> g c' cs') = g c (cs @ CHR ''='' # v)" for x :: "'a ini_state res" and g by (simp add: n)
  have val: "rstrip (lskip (fst (find_chars_or_comment v None))) = v"
    using v by (simp add: find_chars_or_comment_def split_at_none lskip_id rstrip_id)
  show ?thesis
    by (simp only: ini_line_def Let_def bm r l start simp_thms if_False less_irrefl c find_chars_or_comment_def [of "n @ _"] f prod.case)
      (simp add: val rstrip_id v(4))
qed

section \<open>Whole files\<close>

definition section_text :: "string \<times> (string \<times> string) list \<Rightarrow> string" where
  "section_text s = CHR ''['' # fst s @ [CHR '']'', NEWLINE] @ concat (map (\<lambda>(n, v). n @ CHR ''='' # v @ [NEWLINE]) (snd s))"

definition ini_text :: "(string \<times> (string \<times> string) list) list \<Rightarrow> string" where
  "ini_text d = concat (map section_text d)"

definition ini_entries :: "(string \<times> (string \<times> string) list) list \<Rightarrow> (string \<times> string \<times> string) list" where
  "ini_entries d = concat (map (\<lambda>(sec, es). map (Pair sec) es) d)"

fun ini_calls :: "'u ini_handler \<Rightarrow> (string \<times> string \<times> string) list \<Rightarrow> bool \<Rightarrow> 'u \<Rightarrow> (bool \<times> 'u) res" where
  \<comment> \<open>the calls of the handler for a list of entries, and whether it accepted all of them\<close>
  "ini_calls handler [] acc u = Inr (acc, u)"
| "ini_calls handler ((sec, n, v) # es) acc u =
     rbind (handler sec n v u) (\<lambda>(r, u'). ini_calls handler es (acc \<and> r \<noteq> 0) u')"

definition good_file :: "(string \<times> (string \<times> string) list) list \<Rightarrow> bool" where
  "good_file d \<longleftrightarrow> (\<forall>(sec, es) \<in> set d. good_section sec \<and> (\<forall>(n, v) \<in> set es. good_entry n v))"

definition outcome :: "'u ini_state res \<Rightarrow> (bool \<times> 'u) res" where
  "outcome r = map_sum id (\<lambda>st. (ini_error st = 0, ini_user st)) r"

lemma stream_line:
  assumes "NEWLINE \<notin> set w" and "NUL \<notin> set w" and "length w < 199"
  shows "ini_parse_stream handler (w @ NEWLINE # rest) lineno st =
    rbind (ini_line handler (lineno + 1) (w @ [NEWLINE]) st) (\<lambda>st'. ini_parse_stream handler rest (lineno + 1) st')"
proof -
  have "takeWhile (\<lambda>c. c \<noteq> NEWLINE) (w @ NEWLINE # rest) = w" using assms(1) by (simp add: takeWhile_eq_all_conv [THEN iffD2] takeWhile_append)
  then have "fgets INI_MAX_LINE (w @ NEWLINE # rest) = (w @ [NEWLINE], rest)" using assms(3) by (simp add: fgets_def Let_def)
  moreover have "takeWhile (\<lambda>c. c \<noteq> NUL) (w @ [NEWLINE]) = w @ [NEWLINE]" using assms(2) by (auto simp: takeWhile_eq_all_conv)
  ultimately show ?thesis by (subst ini_parse_stream.simps) simp
qed

lemma entries_parsed:
  assumes "\<forall>(n, v) \<in> set es. good_entry n v" and "0 \<le> lineno"
    and tail: "\<And>lineno' prev err u'. 0 \<le> lineno' \<Longrightarrow> outcome (ini_parse_stream handler rest lineno'
      (st\<lparr>ini_prev := prev, ini_error := err, ini_user := u'\<rparr>)) = ini_calls handler after (err = 0) u'"
  shows "outcome (ini_parse_stream handler (concat (map (\<lambda>(n, v). n @ CHR ''='' # v @ [NEWLINE]) es) @ rest) lineno
      (st\<lparr>ini_prev := prev, ini_error := err, ini_user := u\<rparr>)) =
    ini_calls handler (map (Pair (ini_section st)) es @ after) (err = 0) u"
  using assms(1,2)
proof (induction es arbitrary: lineno prev err u)
  case Nil
  then show ?case using tail by simp
next
  case (Cons e es)
  obtain n v where e: "e = (n, v)" by fastforce
  then have good: "good_entry n v" using Cons.prems(1) by auto
  let ?st = "st\<lparr>ini_prev := prev, ini_error := err, ini_user := u\<rparr>"
  let ?more = "concat (map (\<lambda>(n, v). n @ CHR ''='' # v @ [NEWLINE]) es) @ rest"
  have w: "NEWLINE \<notin> set (n @ CHR ''='' # v)" "NUL \<notin> set (n @ CHR ''='' # v)" "length (n @ CHR ''='' # v) < 199"
    using good by (auto simp: good_entry_def)
  have one: "ini_parse_stream handler (n @ CHR ''='' # v @ NEWLINE # ?more) lineno ?st =
    rbind (ini_call handler (lineno + 1) n v (?st\<lparr>ini_prev := strncpy0 n MAX_NAME\<rparr>)) (\<lambda>st'. ini_parse_stream handler ?more (lineno + 1) st')"
    using stream_line [OF w, of handler ?more lineno ?st] entry_line [OF good, of handler "lineno + 1" ?st] by simp
  show ?case
  proof (cases "handler (ini_section st) n v u")
    case (Inl x)
    then show ?thesis using one by (simp add: e ini_call_def outcome_def)
  next
    case (Inr ru)
    obtain r u' where ru: "ru = (r, u')" by fastforce
    let ?err = "if r = 0 \<and> err = 0 then lineno + 1 else err"
    have "ini_call handler (lineno + 1) n v (?st\<lparr>ini_prev := strncpy0 n MAX_NAME\<rparr>) =
      Inr (st\<lparr>ini_prev := strncpy0 n MAX_NAME, ini_error := ?err, ini_user := u'\<rparr>)" using Inr by (simp add: ru ini_call_def ini_fail_def)
    moreover have "(?err = 0) = (err = 0 \<and> r \<noteq> 0)" using Cons.prems(2) by auto
    ultimately show ?thesis using one Inr Cons.IH [where lineno = "lineno + 1" and prev = "strncpy0 n MAX_NAME" and err = ?err and u = u'] Cons.prems by (simp add: e ru)
  qed
qed

lemma sections_parsed:
  assumes "good_file d" and "0 \<le> lineno"
  shows "outcome (ini_parse_stream handler (ini_text d) lineno st) = ini_calls handler (ini_entries d) (ini_error st = 0) (ini_user st)"
  using assms
proof (induction d arbitrary: lineno st)
  case Nil
  then show ?case by (simp add: ini_text_def ini_entries_def ini_parse_stream.simps outcome_def)
next
  case (Cons s d)
  obtain sec es where s: "s = (sec, es)" by fastforce
  then have good: "good_section sec" "\<forall>(n, v) \<in> set es. good_entry n v" "good_file d" using Cons.prems(1) by (auto simp: good_file_def)
  let ?w = "CHR ''['' # sec @ [CHR '']'']" let ?st = "st\<lparr>ini_section := sec, ini_prev := []\<rparr>"
  let ?es = "concat (map (\<lambda>(n, v). n @ CHR ''='' # v @ [NEWLINE]) es)"
  have w: "NEWLINE \<notin> set ?w" "NUL \<notin> set ?w" "length ?w < 199" using good(1) by (auto simp: good_section_def)
  have "ini_parse_stream handler (ini_text (s # d)) lineno st = ini_parse_stream handler (?es @ ini_text d) (lineno + 1) ?st"
    using stream_line [OF w, of handler "?es @ ini_text d" lineno st] section_line [OF good(1), of handler "lineno + 1" st]
    by (simp add: s ini_text_def section_text_def)
  moreover have "outcome (ini_parse_stream handler (?es @ ini_text d) (lineno + 1) (?st\<lparr>ini_prev := [], ini_error := ini_error st, ini_user := ini_user st\<rparr>)) =
    ini_calls handler (map (Pair (ini_section ?st)) es @ ini_entries d) (ini_error st = 0) (ini_user st)"
    by (rule entries_parsed [OF good(2)]) (use Cons.IH [OF good(3)] Cons.prems(2) in simp_all)
  ultimately show ?case by (simp add: s ini_entries_def)
qed

lemma ini_parse_good_file:
  assumes "good_file d"
  shows "map_sum id (\<lambda>(e, u'). (e = 0, u')) (ini_parse handler (Some (ini_text d)) u) = ini_calls handler (ini_entries d) True u"
proof -
  have "map_sum id (\<lambda>(e, u'). (e = 0, u')) (ini_parse handler (Some (ini_text d)) u) =
    outcome (ini_parse_stream handler (ini_text d) 0 \<lparr>ini_section = [], ini_prev = [], ini_error = 0, ini_user = u\<rparr>)"
    by (cases "ini_parse_stream handler (ini_text d) 0 \<lparr>ini_section = [], ini_prev = [], ini_error = 0, ini_user = u\<rparr>")
      (simp_all add: ini_parse_def ini_parse_file_def outcome_def)
  then show ?thesis using sections_parsed [OF assms, of 0 handler] by simp
qed

lemma ini_parse_user:
  assumes "good_file d"
  shows "rbind (ini_parse handler (Some (ini_text d)) u) (\<lambda>(_, u'). Inr u') =
    rbind (ini_calls handler (ini_entries d) True u) (\<lambda>(_, u'). Inr u')"
  unfolding ini_parse_good_file [OF assms, symmetric] by (cases "ini_parse handler (Some (ini_text d)) u") auto

text \<open>
  (C38) Configuration files are read back. For every file of sections with entries in single lines, the
  handler is called once for every entry, in the order of the file, with the section, the name and
  the value that were written, and the result of the parser is 0 exactly when the handler accepted
  every entry.
\<close>

theorem ini_file_read_back:
  assumes "good_file d"
  shows "map_sum id (\<lambda>(e, u'). (e = 0, u')) (ini_parse handler (Some (ini_text d)) u) = ini_calls handler (ini_entries d) True u"
  by (rule ini_parse_good_file [OF assms])

theorem ini_file_read_back_witness:
  "map_sum id (\<lambda>(e, u'). (e = 0, u')) (ini_parse (\<lambda>sec n v u. Inr (1, u @ [(sec, n, v)]))
     (Some (ini_text [(''execution'', [(''nprocs'', ''1''), (''sync'', ''3'')]), (''results'', [(''logging'', ''0'')])])) []) =
   Inr (True, [(''execution'', ''nprocs'', ''1''), (''execution'', ''sync'', ''3''), (''results'', ''logging'', ''0'')])"
proof -
  have "good_file [(''execution'', [(''nprocs'', ''1''), (''sync'', ''3'')]), (''results'', [(''logging'', ''0'')])]" by code_simp
  then show ?thesis by (subst ini_file_read_back) (simp_all add: ini_entries_def)
qed

section \<open>Lines that do not fit\<close>

text \<open>
  A comment of more than 199 characters does not end with its line: what is behind the buffer is read
  as a line of its own, here as an entry.
\<close>

lemma long_comment_is_parsed:
  "ini_parse (\<lambda>sec n v u. Inr (1, u @ [(sec, n, v)])) (Some (CHR ''#'' # replicate 198 (CHR ''x'') @ ''nprocs=2'' @ [NEWLINE])) [] =
     Inr (0, [([], ''nprocs'', ''2'')])"
  by code_simp

text \<open>
  An indented line is a further value of the name before it.
\<close>

lemma indented_line_is_continued:
  "ini_parse (\<lambda>sec n v u. Inr (1, u @ [(sec, n, v)])) (Some (''a=1'' @ [NEWLINE] @ '' b=2'' @ [NEWLINE])) [] =
     Inr (0, [([], ''a'', ''1''), ([], ''a'', ''b=2'')])"
  by code_simp


end
