(* ===== verification/Dedis_Main.thy ===== *)
theory Dedis_Main
  imports Dedis_Run Dedis_Faultconf Ini_Parse
begin

text \<open>
  \<^verbatim>\<open>dedisbench/DEDISbench.c\<close>: the configuration file, the command line and \<^verbatim>\<open>main\<close>. The parser is that of
  theory \<open>Ini_Parse\<close>, over the contents of the files that can be opened. The conversions of \<^verbatim>\<open>atof\<close> and the answers of the operating system are parameters too.
\<close>

section \<open>Removing directories\<close>

datatype node = Plain_File | Directory "(string \<times> node) list"

record rm_os =
  rm_opendir :: "string \<Rightarrow> bool"
  rm_stat :: "string \<Rightarrow> bool"
  rm_unlink :: "string \<Rightarrow> bool"
  rm_rmdir :: "string \<Rightarrow> bool"

fun remove_dir :: "rm_os \<Rightarrow> string \<Rightarrow> node \<Rightarrow> string list \<Rightarrow> int \<times> string list"
and remove_entries :: "rm_os \<Rightarrow> string \<Rightarrow> (string \<times> node) list \<Rightarrow> string list \<Rightarrow> int \<times> string list" where
  \<comment> \<open>the result and the paths removed so far; the second function is the loop over \<^verbatim>\<open>readdir\<close>\<close>
  "remove_dir os path Plain_File gone = (-1, gone)"
| "remove_dir os path (Directory es) gone =
     (if rm_opendir os path
      then case remove_entries os path es gone of (r, gone') \<Rightarrow>
        if r = 0 then (if rm_rmdir os path then (0, gone' @ [path]) else (-1, gone')) else (r, gone')
      else (-1, gone))"
| "remove_entries os path [] gone = (0, gone)"
| "remove_entries os path ((name, nd) # es) gone =
     (if name = ''.'' \<or> name = ''..'' then remove_entries os path es gone
      else let sub = path @ ''/'' @ name;
               res = (if \<not> rm_stat os sub then (-1, gone)
                      else case nd of
                        Directory es' \<Rightarrow> remove_dir os sub nd gone
                      | Plain_File \<Rightarrow> if rm_unlink os sub then (0, gone @ [sub]) else (-1, gone))
           in case res of (r, gone') \<Rightarrow> if r = 0 then remove_entries os path es gone' else (r, gone'))"

section \<open>Configuration\<close>

record cfg_os =
  cf_atof :: "string \<Rightarrow> u64"  \<comment> \<open>\<^verbatim>\<open>atof\<close> and the conversion to \<^verbatim>\<open>uint64_t\<close>\<close>
  cf_buffers :: "string \<times> string \<times> string"  \<comment> \<open>memory that \<^verbatim>\<open>fault_split\<close> does not initialise\<close>
  cf_fresh :: fault_conf
  cf_exists :: "string \<Rightarrow> bool"  \<comment> \<open>\<^verbatim>\<open>stat\<close> succeeds\<close>
  cf_mkdir :: "string \<Rightarrow> bool"
  cf_rm :: rm_os
  cf_dir :: "string \<Rightarrow> node"

datatype cfg_effect = Removed_Dirs "string list" | Made_Dir string

definition general_results :: "string \<Rightarrow> user_confs \<Rightarrow> user_confs res" where
  \<comment> \<open>name of the file, ramp-up and cool-down, separated by colons\<close>
  "general_results v conf0 =
     (let conf = conf0\<lparr>printtofile := 1\<rparr> in
      case strtok_on (CHR '':'') v of
        [] \<Rightarrow> Inr conf
      | name # rest \<Rightarrow> rbind (store_path name) (\<lambda>p.
          let conf1 = conf\<lparr>printfile := p\<rparr> in
          case rest of
            [] \<Rightarrow> Inr conf1
          | a # rest' \<Rightarrow> let conf2 = conf1\<lparr>start_at := atoi a\<rparr> in
              (case rest' of [] \<Rightarrow> Inr conf2 | b # _ \<Rightarrow> Inr (conf2\<lparr>finish_at := atoi b\<rparr>))))"

definition make_distdb :: "cfg_os \<Rightarrow> cfg_effect list res" where
  "make_distdb os =
     (if \<not> cf_exists os ''benchdbs/''
      then if \<not> cf_mkdir os ''benchdbs/'' then Inl (Exit 1)
        else if \<not> cf_mkdir os ''benchdbs/distdb/'' then Inl (Exit 1)
        else Inr [Made_Dir ''benchdbs/'', Made_Dir ''benchdbs/distdb/'']
      else if \<not> cf_exists os ''benchdbs/distdb''
      then if \<not> cf_mkdir os ''benchdbs/distdb/'' then Inl (Exit 1) else Inr [Made_Dir ''benchdbs/distdb/'']
      else Inr [])"

definition set_access_type :: "int \<Rightarrow> user_confs \<Rightarrow> user_confs" where
  "set_access_type a conf =
     (if a = 0 then conf\<lparr>accesstype := SEQUENTIAL\<rparr> else if a = 1 then conf\<lparr>accesstype := UNIFORM\<rparr>
      else if a = 2 then conf\<lparr>accesstype := TPCC\<rparr> else conf)"

definition set_sync :: "int \<Rightarrow> user_confs \<Rightarrow> user_confs" where
  "set_sync a conf =
     (if a = 0 then conf\<lparr>fsyncf := 0, odirectf := 0\<rparr> else if a = 1 then conf\<lparr>fsyncf := 0, odirectf := 1\<rparr>
      else if a = 2 then conf\<lparr>fsyncf := 1, odirectf := 0\<rparr> else if a = 3 then conf\<lparr>fsyncf := 1, odirectf := 1\<rparr> else conf)"

definition config_handler ::
    "cfg_os \<Rightarrow> string \<Rightarrow> string \<Rightarrow> string \<Rightarrow> user_confs \<Rightarrow> (int \<times> user_confs \<times> cfg_effect list) res" where
  "config_handler os sec name v conf =
     (let is = (\<lambda>s n. sec = s \<and> name = n);
          ok = (\<lambda>c. Inr (1, c, []));
          stored = (\<lambda>f. rbind (store_path v) (\<lambda>p. Inr (1, f p, [])))
      in if is ''structural'' ''keep_dbs''
      then Inr (1, conf, if atoi v = 0
             then [Removed_Dirs (snd (remove_dir (cf_rm os) ''./benchdbs'' (cf_dir os ''./benchdbs'') [])),
                   Removed_Dirs (snd (remove_dir (cf_rm os) ''./gendbs'' (cf_dir os ''./gendbs'') []))] else [])
      else if is ''results'' ''general_results'' then rbind (general_results v conf) ok
      else if is ''results'' ''access_results'' then stored (\<lambda>p. conf\<lparr>accesslog := 1, accessfilelog := p\<rparr>)
      else if is ''results'' ''faults_results'' then stored (\<lambda>p. conf\<lparr>outputfaults := 1, faultsoutputfile := p\<rparr>)
      else if is ''results'' ''operation_per_offset'' then stored (\<lambda>p. conf\<lparr>outputoffsets := 1, offsetsoutputfile := p\<rparr>)
      else if is ''results'' ''dedup_per_block'' then stored (\<lambda>p. conf\<lparr>outputdedup := 1, dedupoutputfile := p\<rparr>)
      else if is ''execution'' ''distfile'' then stored (\<lambda>p. conf\<lparr>distf := 1, distfile := p\<rparr>)
      else if is ''results'' ''dist_results''
      then rbind (store_path v) (\<lambda>p. rbind (make_distdb os) (\<lambda>eff. Inr (1, conf\<lparr>distout := 1, outputfile := p\<rparr>, eff)))
      else if is ''structural'' ''cleantemp'' then ok (conf\<lparr>destroypfile := atoi v\<rparr>)
      else if is ''execution'' ''logging'' then ok (conf\<lparr>logfeature := atoi v\<rparr>)
      else if is ''execution'' ''access_type'' then ok (set_access_type (atoi v) conf)
      else if is ''execution'' ''nprocs''
      then if atoi v = 1 \<and> mixedIO conf = 1 then Inl (Exit 0) else ok (conf\<lparr>nprocs := atoi v\<rparr>)
      else if is ''execution'' ''filesize'' then ok (conf\<lparr>filesize := word_of_int (atoll v)\<rparr>)
      else if is ''results'' ''tempfilespath'' then stored (\<lambda>p. conf\<lparr>tempfilespath := p\<rparr>)
      else if is ''execution'' ''rawdevice'' then stored (\<lambda>p. conf\<lparr>rawdevice := 1, rawpath := p\<rparr>)
      else if is ''execution'' ''integrity'' then stored (\<lambda>p. conf\<lparr>integrity := atoi v, integrityfile := p\<rparr>)
      else if is ''execution'' ''blocksize'' then ok (conf\<lparr>block_size := cf_atof os v\<rparr>)
      else if is ''execution'' ''seed'' then ok (conf\<lparr>seed := cf_atof os v\<rparr>)
      else if is ''execution'' ''populate'' then ok (conf\<lparr>populate_kind := atoi v\<rparr>)
      else if is ''execution'' ''sync'' then ok (set_sync (atoi v) conf)
      else if is ''execution'' ''faulttimer''
      then rbind (fault_split (cf_buffers os) (cf_fresh os) v (conf\<lparr>fault_measure := TIME_F\<rparr>)) (\<lambda>(k, c). ok (c\<lparr>nr_faults := k\<rparr>))
      else if is ''execution'' ''faultops''
      then rbind (fault_split (cf_buffers os) (cf_fresh os) v (conf\<lparr>fault_measure := OPS_F\<rparr>)) (\<lambda>(k, c). ok (c\<lparr>nr_faults := k\<rparr>))
      else if is ''execution'' ''faultsconfig''
      then stored (\<lambda>p. conf\<lparr>integrity := (if integrity conf = 0 then 1 else integrity conf), usingfaults := 1, faultsconfigfile := p\<rparr>)
      else Inr (0, conf, []))"

definition entry_handler :: "cfg_os \<Rightarrow> user_confs ini_handler" where
  \<comment> \<open>the handler as the parser sees it\<close>
  "entry_handler os sec name v conf = rbind (config_handler os sec name v conf) (\<lambda>(r, conf', _). Inr (r, conf'))"

definition load_conf :: "cfg_os \<Rightarrow> (string \<Rightarrow> string option) \<Rightarrow> string \<Rightarrow> user_confs \<Rightarrow> user_confs res" where
  \<comment> \<open>the calls of \<^verbatim>\<open>ini_parse\<close>; its result is not used, except for a message\<close>
  "load_conf os files path conf = rbind (ini_parse (entry_handler os) (files path) conf) (\<lambda>(_, conf'). Inr conf')"

section \<open>Command line\<close>

definition char_at :: "string \<Rightarrow> nat \<Rightarrow> char" where
  "char_at s i = (s @ [NUL]) ! i"

definition usage :: "'a res" where
  \<comment> \<open>\<^verbatim>\<open>usage\<close> calls \<^verbatim>\<open>help\<close>, which exits\<close>
  "usage = Inl (Exit 8)"

definition nominal_option :: "string \<Rightarrow> user_confs \<Rightarrow> user_confs" where
  "nominal_option arg conf0 =
     (let conf = conf0\<lparr>testtype := NOMINAL\<rparr> in
      if char_at arg 2 = CHR ''r'' then conf\<lparr>ratio := atoi (drop 3 arg), ratior := atoi (drop 3 arg)\<rparr>
      else if char_at arg 2 = CHR ''w'' then conf\<lparr>ratio := atoi (drop 3 arg), ratiow := atoi (drop 3 arg)\<rparr>
      else conf\<lparr>ratio := atoi (drop 2 arg)\<rparr>)"

fun options ::
    "cfg_os \<Rightarrow> (string \<Rightarrow> string option) \<Rightarrow> string list \<Rightarrow> bool \<Rightarrow> user_confs \<Rightarrow> (bool \<times> user_confs) res" where
  \<comment> \<open>the loop over the arguments; the flag tells whether a configuration file was given\<close>
  "options os ini [] confarg conf = Inr (confarg, conf)"
| "options os ini (arg # args) confarg conf =
     (if char_at arg 0 \<noteq> CHR ''-'' then Inr (confarg, conf)
      else let c = char_at arg 1; next = options os ini args confarg in
      if c = CHR ''p'' then if testtype conf \<noteq> NOMINAL then next (conf\<lparr>testtype := PEAK\<rparr>) else usage
      else if c = CHR ''n'' then if testtype conf \<noteq> PEAK then next (nominal_option arg conf) else usage
      else if c = CHR ''w'' then if iotype conf \<noteq> IO_READ \<and> mixedIO conf = 0 then next (conf\<lparr>iotype := IO_WRITE\<rparr>) else usage
      else if c = CHR ''r'' then if iotype conf \<noteq> IO_WRITE \<and> mixedIO conf = 0 then next (conf\<lparr>iotype := IO_READ\<rparr>) else usage
      else if c = CHR ''m'' then next (conf\<lparr>mixedIO := 1\<rparr>)
      else if c = CHR ''t'' then next (conf\<lparr>time_to_run := atoi (drop 2 arg)\<rparr>)
      else if c = CHR ''s'' then next (conf\<lparr>number_ops := word_of_int (atoll (drop 2 arg))\<rparr>)
      else if c = CHR ''f''
      then if confarg then next conf
           else rbind (load_conf os ini (drop 2 arg) conf) (\<lambda>conf'. options os ini args True conf')
      else usage)"

definition main_checks :: "user_confs \<Rightarrow> unit res" where
  "main_checks conf =
     (if iotype conf \<noteq> IO_WRITE \<and> iotype conf \<noteq> IO_READ \<and> mixedIO conf = 0 then usage
      else if testtype conf \<noteq> PEAK \<and> testtype conf \<noteq> NOMINAL then usage
      else if number_ops conf = 0 \<and> time_to_run conf \<le> 0 then usage
      else if filesize conf = 0 then usage
      else if testtype conf = NOMINAL \<and> ratio conf \<le> 0 then usage
      else if block_size conf = 0 then usage
      else if nr_faults conf > 0 \<and> iotype conf = IO_READ \<and> populate_kind conf \<noteq> REPOP then usage
      else Inr ())"

definition main_convert :: "user_confs \<Rightarrow> user_confs" where
  \<comment> \<open>megabytes to bytes and blocks, minutes to seconds; \<^verbatim>\<open>int\<close> products wrap around\<close>
  "main_convert conf =
     (let bytes = filesize conf * 1024 * 1024;
          conf1 = conf\<lparr>filesize := bytes, totblocks := bytes div block_size conf\<rparr>;
          conf2 = (if time_to_run conf1 > 0 then conf1\<lparr>time_to_run := to_int (time_to_run conf1 * 60)\<rparr> else conf1)
      in if number_ops conf2 > 0 then conf2\<lparr>number_ops := number_ops conf2 * 1024 * 1024 div block_size conf2\<rparr> else conf2)"

definition main_setup :: "cfg_os \<Rightarrow> (string \<Rightarrow> string option) \<Rightarrow> u64 \<Rightarrow> string list \<Rightarrow> user_confs res" where
  "main_setup os ini now args =
     rbind (options os ini args False (initial_conf now)) (\<lambda>(confarg, conf).
     rbind (if confarg then Inr conf else load_conf os ini ''conf/defconf.ini'' conf) (\<lambda>conf1.
     rbind (main_checks conf1) (\<lambda>_. Inr (main_convert conf1))))"

definition wants_populate :: "user_confs \<Rightarrow> bool" where
  "wants_populate conf \<longleftrightarrow> iotype conf = IO_READ \<and> populate_kind conf < 0 \<or> mixedIO conf = 1 \<and> populate_kind conf < 0 \<or> populate_kind conf > 0"

definition initial_info :: duplicates_info where
  "initial_info = \<lparr>duplicated_blocks = 0, total_blocks = 0, di_stats = [], di_sum = [], di_statistics = [], zerodups = 0,
     zero_copy_blocks = 0, u_count = 0, content_tracker = [], topblock = 0, botblock = 0, topblock_dups = 0, botblock_dups = 100,
     last_unique_block = \<lparr>cont_id = 0, procid = 0, ts = 0\<rparr>, last_block_written = \<lparr>cont_id = 0, procid = 0, ts = 0\<rparr>\<rparr>"

section \<open>The whole program\<close>

record main_os =
  mo_cfg :: cfg_os
  mo_ini :: "string \<Rightarrow> string option"  \<comment> \<open>the configuration files\<close>
  mo_now :: u64
  mo_shm :: shm_os
  mo_heap :: "(nat \<Rightarrow> u64) \<times> (nat \<Rightarrow> u64)"  \<comment> \<open>fresh memory\<close>
  mo_dist :: "string \<Rightarrow> string option"  \<comment> \<open>the files with distributions\<close>
  mo_yaml :: "string \<Rightarrow> yaml_token list"  \<comment> \<open>what libyaml scans\<close>
  mo_sort :: gsort
  mo_blocks :: "nat \<Rightarrow> block_info"
  mo_conf :: fault_conf
  mo_stat :: stats
  mo_clock :: "int \<Rightarrow> nat \<Rightarrow> u64"
  mo_connect :: bool  \<comment> \<open>\<^verbatim>\<open>socket\<close> and \<^verbatim>\<open>connect\<close> succeed\<close>

definition dist_name :: "user_confs \<Rightarrow> string" where
  "dist_name conf = (if distf conf = 1 then distfile conf else ''conf/dist_personalfiles'')"

definition load_faults :: "main_os \<Rightarrow> user_confs \<Rightarrow> fault_runtime option res option" where
  "load_faults os conf =
     (if usingfaults conf \<noteq> 0
      then obind (parse_faults_configuration_yaml (mo_sort os) (mo_blocks os) (mo_conf os) conf (mo_yaml os (faultsconfigfile conf)))
             (\<lambda>fr. Some (Inr (Some fr)))
      else Some (Inr None))"

record bench_result =
  br_reports :: "run_report list"
  br_check :: "(int \<times> final_line list) option"
  br_dist :: "((nat \<times> u64) list \<times> print_db) option"

definition bench_main ::
    "main_os \<Rightarrow> ('s, 'f, 'n) run_os \<Rightarrow> nat list \<Rightarrow> string list \<Rightarrow> 'f \<Rightarrow> 'n \<Rightarrow> (bench_result \<times> 'f \<times> 'n) res option" where
  \<comment> \<open>\<^verbatim>\<open>main\<close>; the fault configuration, which is read before the occurrences, does not depend on them\<close>
  "bench_main os ros schedule args f sock =
     obind (Some (main_setup (mo_cfg os) (mo_ini os) (mo_now os) args)) (\<lambda>conf.
     obind (Some (load_distribution (mo_shm os) (fst (mo_heap os)) (snd (mo_heap os)) (mo_dist os (dist_name conf)) conf initial_info)) (\<lambda>info.
     obind (load_faults os conf) (\<lambda>fi.
     obind (if wants_populate conf
            then obind (populate (os_init_rand ros) (os_rng ros) (os_io ros) (mo_clock os) (mo_stat os) conf info f) (\<lambda>(_, info', f'). Some (Inr (info', f')))
            else Some (Inr (info, f))) (\<lambda>(info1, f1).
     if usingfaults conf \<noteq> 0 \<and> \<not> mo_connect os then Some (Inl (Exit 1))
     else obind (launch_benchmark ros schedule conf info1 fi f1 sock) (\<lambda>(reps, chk, info2, conf', f2, sock1).
     obind (Some (if usingfaults conf \<noteq> 0 then fsp_remove_all_faults (env_fresh (os_fault ros)) (env_sock (os_fault ros)) sock1 else Inr (0, sock1))) (\<lambda>(_, sock2).
     obind (Some (if distout conf = 1 then map_sum id (\<lambda>(_, ls, _, db). Some (ls, db)) (gen_outputdist info2 (\<lambda>_. None)) else Inr None)) (\<lambda>dist.
       Some (Inr (\<lparr>br_reports = reps, br_check = chk, br_dist = dist\<rparr>, f2, sock2)))))))))"

section \<open>Configurations that are accepted\<close>

lemma load_conf_calls:
  assumes "good_file d" and "ini path = Some (ini_text d)"
  shows "load_conf os ini path conf = rbind (ini_calls (entry_handler os) (ini_entries d) True conf) (\<lambda>(_, conf'). Inr conf')"
  by (simp add: load_conf_def assms(2) ini_parse_user [OF assms(1)])

definition conf_wf :: "user_confs \<Rightarrow> bool" where
  \<comment> \<open>the values that the fields can have while the arguments are read\<close>
  "conf_wf conf \<longleftrightarrow> iotype conf \<in> {-1, IO_READ, IO_WRITE} \<and> testtype conf \<in> {-1, PEAK, NOMINAL} \<and> mixedIO conf \<in> {0, 1} \<and>
     accesstype conf \<in> {SEQUENTIAL, UNIFORM, TPCC} \<and> rawdevice conf \<in> {0, 1} \<and> fsyncf conf \<in> {0, 1} \<and> odirectf conf \<in> {0, 1} \<and>
     list_all (\<lambda>p. length p < PATH_SIZE) [tempfilespath conf, printfile conf, accessfilelog conf, rawpath conf, distfile conf,
       outputfile conf, integrityfile conf, faultsconfigfile conf, faultsoutputfile conf, offsetsoutputfile conf, dedupoutputfile conf]"

lemma initial_conf_wf: "conf_wf (initial_conf now)"
  by (simp add: conf_wf_def initial_conf_def)

lemma store_path_Inr: "store_path s = Inr p \<longleftrightarrow> p = s \<and> length s < PATH_SIZE"
  by (auto simp: store_path_def)

lemma conf_wf_frame [simp]:
  "conf_wf (conf\<lparr>printtofile := a_printtofile\<rparr>) = conf_wf conf"
  "conf_wf (conf\<lparr>start_at := a_start_at\<rparr>) = conf_wf conf"
  "conf_wf (conf\<lparr>finish_at := a_finish_at\<rparr>) = conf_wf conf"
  "conf_wf (conf\<lparr>fconf := a_fconf\<rparr>) = conf_wf conf"
  "conf_wf (conf\<lparr>nr_faults := a_nr_faults\<rparr>) = conf_wf conf"
  "conf_wf (conf\<lparr>fault_measure := a_fault_measure\<rparr>) = conf_wf conf"
  "conf_wf (conf\<lparr>destroypfile := a_destroypfile\<rparr>) = conf_wf conf"
  "conf_wf (conf\<lparr>logfeature := a_logfeature\<rparr>) = conf_wf conf"
  "conf_wf (conf\<lparr>nprocs := a_nprocs\<rparr>) = conf_wf conf"
  "conf_wf (conf\<lparr>filesize := a_filesize\<rparr>) = conf_wf conf"
  "conf_wf (conf\<lparr>block_size := a_block_size\<rparr>) = conf_wf conf"
  "conf_wf (conf\<lparr>seed := a_seed\<rparr>) = conf_wf conf"
  "conf_wf (conf\<lparr>populate_kind := a_populate_kind\<rparr>) = conf_wf conf"
  "conf_wf (conf\<lparr>integrity := a_integrity\<rparr>) = conf_wf conf"
  "conf_wf (conf\<lparr>accesslog := a_accesslog\<rparr>) = conf_wf conf"
  "conf_wf (conf\<lparr>outputfaults := a_outputfaults\<rparr>) = conf_wf conf"
  "conf_wf (conf\<lparr>outputoffsets := a_outputoffsets\<rparr>) = conf_wf conf"
  "conf_wf (conf\<lparr>outputdedup := a_outputdedup\<rparr>) = conf_wf conf"
  "conf_wf (conf\<lparr>distf := a_distf\<rparr>) = conf_wf conf"
  "conf_wf (conf\<lparr>distout := a_distout\<rparr>) = conf_wf conf"
  "conf_wf (conf\<lparr>usingfaults := a_usingfaults\<rparr>) = conf_wf conf"
  "conf_wf (conf\<lparr>ratio := a_ratio\<rparr>) = conf_wf conf"
  "conf_wf (conf\<lparr>ratiow := a_ratiow\<rparr>) = conf_wf conf"
  "conf_wf (conf\<lparr>ratior := a_ratior\<rparr>) = conf_wf conf"
  "conf_wf (conf\<lparr>time_to_run := a_time_to_run\<rparr>) = conf_wf conf"
  "conf_wf (conf\<lparr>number_ops := a_number_ops\<rparr>) = conf_wf conf"
  "conf_wf (conf\<lparr>totblocks := a_totblocks\<rparr>) = conf_wf conf"
  by (simp_all add: conf_wf_def)

lemma conf_wf_path [simp]:
  assumes "conf_wf conf" and "length p < PATH_SIZE"
  shows
  "conf_wf (conf\<lparr>tempfilespath := p\<rparr>)" "conf_wf (conf\<lparr>printfile := p\<rparr>)"
  "conf_wf (conf\<lparr>accessfilelog := p\<rparr>)" "conf_wf (conf\<lparr>rawpath := p\<rparr>)"
  "conf_wf (conf\<lparr>distfile := p\<rparr>)" "conf_wf (conf\<lparr>outputfile := p\<rparr>)"
  "conf_wf (conf\<lparr>integrityfile := p\<rparr>)" "conf_wf (conf\<lparr>faultsconfigfile := p\<rparr>)"
  "conf_wf (conf\<lparr>faultsoutputfile := p\<rparr>)" "conf_wf (conf\<lparr>offsetsoutputfile := p\<rparr>)"
  "conf_wf (conf\<lparr>dedupoutputfile := p\<rparr>)"
  using assms by (simp_all add: conf_wf_def)

lemma conf_wf_flags [simp]:
  assumes "conf_wf conf"
  shows "conf_wf (conf\<lparr>rawdevice := 1\<rparr>)" "conf_wf (conf\<lparr>mixedIO := 1\<rparr>)" "conf_wf (conf\<lparr>testtype := PEAK\<rparr>)" "conf_wf (conf\<lparr>testtype := NOMINAL\<rparr>)"
    "conf_wf (conf\<lparr>iotype := IO_READ\<rparr>)" "conf_wf (conf\<lparr>iotype := IO_WRITE\<rparr>)" "conf_wf (set_access_type a conf)" "conf_wf (set_sync a conf)"
    "conf_wf (nominal_option arg conf)"
  using assms by (simp_all add: conf_wf_def set_access_type_def set_sync_def nominal_option_def Let_def)

lemma general_results_wf:
  assumes "general_results v conf = Inr conf'" and "conf_wf conf"
  shows "conf_wf conf'"
proof (cases "strtok_on (CHR '':'') v")
  case Nil
  then show ?thesis using assms by (auto simp: general_results_def)
next
  case (Cons name rest)
  note tokens = this
  show ?thesis
  proof (cases rest)
    case Nil
    then show ?thesis using assms tokens by (auto simp: general_results_def rbind_Inr_iff store_path_Inr)
  next
    case (Cons a rest')
    then show ?thesis using assms tokens by (cases rest') (auto simp: general_results_def rbind_Inr_iff store_path_Inr Let_def)
  qed
qed

lemma fault_split_wf:
  assumes "fault_split junk fresh v conf = Inr (k, conf')"
  shows "conf_wf conf' = conf_wf conf"
proof -
  obtain confs where "conf' = conf\<lparr>fconf := confs\<rparr>" using assms unfolding fault_split_def Let_def rbind_Inr_iff by (auto split: prod.splits)
  then show ?thesis by simp
qed

lemma config_handler_wf:
  assumes "config_handler os sec name v conf = Inr (r, conf', eff)" and "conf_wf conf"
  shows "conf_wf conf'"
proof -
  have split: "conf_wf (c\<lparr>nr_faults := k\<rparr>)" if "fault_split (cf_buffers os) (cf_fresh os) v (conf\<lparr>fault_measure := m\<rparr>) = Inr (k, c)" for m k c
    using fault_split_wf [OF that] assms(2) by simp
  have gen: "conf_wf c" if "general_results v conf = Inr c" for c using general_results_wf [OF that assms(2)] .
  show ?thesis
    using assms split gen unfolding config_handler_def Let_def
    by (simp add: rbind_Inr_iff store_path_Inr split: if_split_asm) (auto)
qed

interpretation conf: ini_client "entry_handler os" conf_wf for os
  by unfold_locales (auto simp: entry_handler_def rbind_Inr_iff dest: config_handler_wf)

lemma load_conf_wf: "load_conf os ini path conf = Inr conf' \<Longrightarrow> conf_wf conf \<Longrightarrow> conf_wf conf'"
  by (auto simp: load_conf_def rbind_Inr_iff dest: conf.parse_keeps)

lemma options_wf: "options os ini args confarg conf = Inr (confarg', conf') \<Longrightarrow> conf_wf conf \<Longrightarrow> conf_wf conf'"
proof (induction args arbitrary: confarg conf)
  case (Cons arg args)
  have given: "conf_wf conf'" if "load_conf os ini (drop 2 arg) conf = Inr c" "options os ini args True c = Inr (confarg', conf')" for c
    using Cons.IH [OF that(2) load_conf_wf [OF that(1) Cons.prems(2)]] .
  show ?case
    using Cons.prems Cons.IH given unfolding options.simps Let_def
    by (simp add: usage_def rbind_Inr_iff split: if_split_asm) auto
qed simp


section \<open>Limits of the command line\<close>

text \<open>
  An amount of data below one block becomes zero operations. Then the test has neither a limit of
  operations nor, without \<^verbatim>\<open>-t\<close>, one of time.
\<close>

lemma small_amount_is_no_limit:
  assumes "number_ops conf * 2 ^ 20 < block_size conf" and "time_to_run conf \<le> 0"
    and "process_start os p np rate direction (main_convert conf) info fi f sock = Some (Inr (env, st))"
  shows "re_end_size env = -1 \<and> re_end_time env = -1"
proof -
  have "number_ops (main_convert conf) = 0" "time_to_run (main_convert conf) \<le> 0"
    using assms(1,2) by (auto simp: main_convert_def Let_def mult.assoc div_word_less word_gt_0)
  then show ?thesis using assms(3) by (auto simp: process_start_def Let_def obind_def end_of_run_def split: option.splits sum.splits prod.splits if_splits)
qed

text \<open>
  The configuration refuses a mixed test with one process only when \<^verbatim>\<open>-m\<close> comes before \<^verbatim>\<open>-f\<close>.
\<close>

lemma mixed_with_one_process:
  assumes "ini ''x'' = Some (ini_text [(''execution'', [(''nprocs'', ''1'')])])"
  shows "options os ini [''-m'', ''-fx''] False (initial_conf now) = Inl (Exit 0)"
    and "\<exists>conf. options os ini [''-fx'', ''-m''] False (initial_conf now) = Inr (True, conf) \<and> jobs conf = [(0, 0, -1, IO_READ)]"
proof -
  have "strtol 64 ''1'' = 1" by code_simp
  then have one: "atoi ''1'' = 1" by (simp add: atoi_def)
  have half: "(1 :: int) sdiv 2 = 0" by (simp add: signed_divide_int_def)
  have "good_file [(''execution'', [(''nprocs'', ''1'')])]" by code_simp
  note parsed = load_conf_calls [where ini = ini and path = "''x''", OF this assms]
  show "options os ini [''-m'', ''-fx''] False (initial_conf now) = Inl (Exit 0)"
    using one by (simp add: char_at_def parsed ini_entries_def entry_handler_def config_handler_def Let_def)
  show "\<exists>conf. options os ini [''-fx'', ''-m''] False (initial_conf now) = Inr (True, conf) \<and> jobs conf = [(0, 0, -1, IO_READ)]"
    using one half by (simp add: char_at_def parsed ini_entries_def entry_handler_def config_handler_def Let_def initial_conf_def jobs_def)
qed

section \<open>Removing a directory\<close>

fun postorder :: "string \<Rightarrow> node \<Rightarrow> string list" where
  "postorder path Plain_File = [path]"
| "postorder path (Directory es) =
     concat (map (\<lambda>(name, nd). if name = ''.'' \<or> name = ''..'' then [] else postorder (path @ ''/'' @ name) nd) es) @ [path]"

text \<open>
  When no call fails, a directory is removed with everything in it, contents first.
\<close>

lemma remove_dir_removes:
  "\<forall>p. rm_opendir os p \<and> rm_stat os p \<and> rm_unlink os p \<and> rm_rmdir os p \<Longrightarrow> nd \<noteq> Plain_File \<Longrightarrow>
    remove_dir os path nd gone = (0, gone @ postorder path nd)"
  "\<forall>p. rm_opendir os p \<and> rm_stat os p \<and> rm_unlink os p \<and> rm_rmdir os p \<Longrightarrow>
    remove_entries os path es gone =
      (0, gone @ concat (map (\<lambda>(name, nd). if name = ''.'' \<or> name = ''..'' then [] else postorder (path @ ''/'' @ name) nd) es))"
proof (induction os path nd gone and os path es gone rule: remove_dir_remove_entries.induct)
  case (4 os path name nd es gone)
  then show ?case by (cases nd) (auto simp: Let_def)
qed auto

section \<open>Concrete evaluations\<close>

definition demo_cfg :: cfg_os where
  "demo_cfg = \<lparr>cf_atof = (\<lambda>s. word_of_int (atoll s)), cf_buffers = (replicate 20 NUL, replicate 20 NUL, replicate 20 NUL),
     cf_fresh = \<lparr>fc_mode = 0, fc_measure = 0, fc_when = 0, fc_dist = 0, fc_type = 0, fc_persistent = False, fc_proc_id = 0,
       fc_operation = 0, fc_extra_type = 0, fc_extra = None\<rparr>,
     cf_exists = (\<lambda>p. True), cf_mkdir = (\<lambda>p. True),
     cf_rm = \<lparr>rm_opendir = (\<lambda>p. True), rm_stat = (\<lambda>p. True), rm_unlink = (\<lambda>p. True), rm_rmdir = (\<lambda>p. True)\<rparr>, cf_dir = (\<lambda>p. Plain_File)\<rparr>"


end
