(* ===== verification/Dedis_Gen.thy ===== *)
theory Dedis_Gen
  imports Dedis_Berk Dedis_Main
begin

text \<open>
  \<^verbatim>\<open>dedisbench/DEDISgen.c\<close> and \<^verbatim>\<open>dedisbench/DEDISgen-utils.c\<close>: the analysis of the files of a folder or of a
  disk. Every block is looked up by its digest in a database of counters; at the end the counters are
  turned into a distribution file, which the benchmark can load. System calls are the record \<open>file_io\<close>,
  Berkeley DB is the record \<open>libdb\<close>, and the digest is a parameter. Loops that need not end are partial
  functions. Messages on the progress and the fixed gnuplot script are not modelled.
\<close>

section \<open>Blocks\<close>

abbreviation READSIZE :: int where "READSIZE \<equiv> 5242880"

record 'd size_state =
  sz_size :: "int option"  \<comment> \<open>None: an entry of \<^verbatim>\<open>sizes_proc\<close> that was never set\<close>
  sz_total :: u64
  sz_eq :: u64
  sz_dif :: u64
  sz_distinctdup :: u64
  sz_space :: u64
  sz_db :: "'d option"

definition visual_hash :: "bytes \<Rightarrow> string" where
  \<comment> \<open>two letters per byte of the digest, the lower half first\<close>
  "visual_hash digest = concat (map (\<lambda>b. [char_of (97 + unat (b AND 0x0f)), char_of (97 + unat (drop_bit 4 (b AND 0xf0)))]) digest)"

definition check_duplicates ::
    "(string, 'd) libdb \<Rightarrow> (string \<Rightarrow> bytes) \<Rightarrow> string \<Rightarrow> u64 \<Rightarrow> 'd size_state \<Rightarrow> 'd size_state res" where
  "check_duplicates lib sha1 block bsize st0 =
     (let start = visual_hash (sha1 block); st = st0\<lparr>sz_total := sz_total st0 + 1\<rparr> in
      rbind (get_db lib (sz_db st) start) (\<lambda>ret.
      case ret of
        DB_NOTFOUND \<Rightarrow>
          rbind (put_db lib (sz_db st) start 1) (\<lambda>db. Inr (st\<lparr>sz_dif := sz_dif st + 1, sz_db := db\<rparr>))
      | DB_FAILED \<Rightarrow> Inl Uninitialised
      | DB_FOUND cont \<Rightarrow>
          let st1 = (if cont = 1 then st\<lparr>sz_distinctdup := sz_distinctdup st + 1\<rparr> else st);
              st2 = st1\<lparr>sz_eq := sz_eq st1 + 1, sz_space := sz_space st1 + bsize\<rparr>
          in rbind (put_db lib (sz_db st2) start (cont + 1)) (\<lambda>db. Inr (st2\<lparr>sz_db := db\<rparr>))))"

partial_function (option) scan_size ::
    "(string, 'd) libdb \<Rightarrow> (string \<Rightarrow> bytes) \<Rightarrow> int \<Rightarrow> string \<Rightarrow> int \<Rightarrow> int \<Rightarrow> 'd size_state \<Rightarrow> 'd size_state res option" where
  \<comment> \<open>the loop \<^verbatim>\<open>while(aux-size_proced>=size_block)\<close>; there is no memory for a block of negative size\<close>
  "scan_size lib sha1 aux block_read size_block size_proced st =
     (if aux - size_proced \<ge> size_block
      then if size_block < 0 then Some (Inl Wild_Pointer)
        else obind (Some (check_duplicates lib sha1 (take (nat size_block) (drop (nat size_proced) block_read)) (word_of_int size_block) st))
               (\<lambda>st'. scan_size lib sha1 aux block_read size_block (size_proced + size_block) st')
      else Some (Inr st))"

fun scan_sizes ::
    "(string, 'd) libdb \<Rightarrow> (string \<Rightarrow> bytes) \<Rightarrow> int \<Rightarrow> string \<Rightarrow> 'd size_state list \<Rightarrow> 'd size_state list res option" where
  \<comment> \<open>the loop over the sizes of blocks\<close>
  "scan_sizes lib sha1 aux block_read [] = Some (Inr [])"
| "scan_sizes lib sha1 aux block_read (st # sts) =
     (case sz_size st of None \<Rightarrow> Some (Inl Uninitialised) | Some size_block \<Rightarrow>
        obind (scan_size lib sha1 aux block_read size_block 0 st) (\<lambda>st'.
        obind (scan_sizes lib sha1 aux block_read sts) (\<lambda>sts'. Some (Inr (st' # sts')))))"

partial_function (option) scan_file ::
    "'f file_io \<Rightarrow> (string, 'd) libdb \<Rightarrow> (string \<Rightarrow> bytes) \<Rightarrow> int \<Rightarrow> u64 \<Rightarrow> 'd size_state list \<Rightarrow> 'f \<Rightarrow>
     ('d size_state list \<times> 'f) res option" where
  \<comment> \<open>the offset advances by \<open>READSIZE\<close> whatever the number of bytes that \<^verbatim>\<open>pread\<close> stored\<close>
  "scan_file io lib sha1 fd off sts f =
     (let r = io_pread io fd (word_of_int READSIZE) off f; aux = fst r; block_read = fst (snd r); f' = snd (snd r) in
      if aux > 0
      then obind (scan_sizes lib sha1 aux block_read sts) (\<lambda>sts'.
             scan_file io lib sha1 fd (off + word_of_int READSIZE) sts' f')
      else Some (Inr (sts, f')))"

definition extract_blocks ::
    "'f file_io \<Rightarrow> (string, 'd) libdb \<Rightarrow> (string \<Rightarrow> bytes) \<Rightarrow> string \<Rightarrow> 'd size_state list \<times> 'f \<Rightarrow> ('d size_state list \<times> 'f) res option" where
  \<comment> \<open>the result of \<^verbatim>\<open>open\<close> is compared with 0, so that a failure, which is -1, goes unnoticed\<close>
  "extract_blocks io lib sha1 filename s =
     (case io_open io False False filename (snd s) of (fd, f1) \<Rightarrow>
        if fd \<noteq> 0
        then obind (scan_file io lib sha1 fd 0 (fst s) f1) (\<lambda>(sts, f2). Some (Inr (sts, io_close io fd f2)))
        else Some (Inl (Exit 1)))"

section \<open>Folders\<close>

datatype dirent = DT_REG | DT_DIR "(string \<times> dirent) list" | DT_OTHER

abbreviation MAXSIZEP :: nat where "MAXSIZEP \<equiv> 10000"

fun search_dir :: "(string \<Rightarrow> bool) \<Rightarrow> (string \<Rightarrow> 's \<Rightarrow> 's res option) \<Rightarrow> string \<Rightarrow> dirent \<Rightarrow> u64 \<times> 's \<Rightarrow> (u64 \<times> 's) res option"
and search_entries :: "(string \<Rightarrow> bool) \<Rightarrow> (string \<Rightarrow> 's \<Rightarrow> 's res option) \<Rightarrow> string \<Rightarrow> (string \<times> dirent) list \<Rightarrow> u64 \<times> 's \<Rightarrow> (u64 \<times> 's) res option" where
  \<comment> \<open>\<open>extract\<close> is \<^verbatim>\<open>extract_blocks\<close>; the state has the number of files; the second function is the loop\<close>
  "search_dir opens extract path (DT_DIR es) s = (if opens path then search_entries opens extract path es s else Some (Inr s))"
| "search_dir opens extract path DT_REG s = Some (Inr s)"
| "search_dir opens extract path DT_OTHER s = Some (Inr s)"
| "search_entries opens extract path [] s = Some (Inr s)"
| "search_entries opens extract path ((d_name, e) # es) s =
     (if d_name = ''.'' \<or> d_name = ''..'' then search_entries opens extract path es s
      else let newpath = path @ d_name in
      if MAXSIZEP \<le> length newpath then Some (Inl Out_Of_Bounds)
      else obind (case e of
          DT_DIR _ \<Rightarrow> if MAXSIZEP \<le> length newpath + 1 then Some (Inl Out_Of_Bounds)
                      else search_dir opens extract (newpath @ ''/'') e s
        | DT_REG \<Rightarrow> obind (extract newpath (snd s)) (\<lambda>s'. Some (Inr (fst s + 1, s')))
        | DT_OTHER \<Rightarrow> Some (Inr s))
        (\<lambda>s'. search_entries opens extract path es s'))"

section \<open>Output\<close>

fun output_records :: "(u64, 'e) libdb \<Rightarrow> (string \<times> u64) list \<Rightarrow> 'e option \<Rightarrow> 'e option res" where
  \<comment> \<open>the loop over the records of the first database\<close>
  "output_records plib [] dbprint = Inr dbprint"
| "output_records plib ((hash, cont) # rs) dbprint =
     (let ndups = cont - 1 in
      rbind (get_db_print plib dbprint ndups) (\<lambda>retprint.
      rbind (case retprint of
               DB_NOTFOUND \<Rightarrow> put_db_print plib dbprint ndups 1
             | DB_FAILED \<Rightarrow> Inl Uninitialised
             | DB_FOUND n \<Rightarrow> put_db_print plib dbprint ndups (n + 1)) (output_records plib rs)))"

definition gen_output :: "(string, 'd) libdb \<Rightarrow> 'd option \<Rightarrow> (u64, 'e) libdb \<Rightarrow> 'e option \<Rightarrow> 'e option res" where
  "gen_output lib dbpor plib dbprint =
     (case dbpor of None \<Rightarrow> Inl Wild_Pointer | Some d \<Rightarrow> output_records plib (db_records lib d) dbprint)"

section \<open>Merging databases\<close>

fun merge_records :: "(string, 'd) libdb \<Rightarrow> (string \<times> u64) list \<Rightarrow> 'd option \<Rightarrow> u64 \<times> u64 \<Rightarrow> ('d option \<times> u64 \<times> u64) res" where
  \<comment> \<open>the loop over the records of the database that is merged, with the numbers of matches\<close>
  "merge_records lib [] base (matched, notmatched) = Inr (base, matched, notmatched)"
| "merge_records lib ((hash, ndups) # rs) base (matched, notmatched) =
     rbind (get_db lib base hash) (\<lambda>ret.
     case ret of
       DB_NOTFOUND \<Rightarrow> rbind (put_db lib base hash ndups) (\<lambda>base'. merge_records lib rs base' (matched, notmatched + 1))
     | DB_FAILED \<Rightarrow> rbind (put_db lib base hash (0 + ndups)) (\<lambda>base'. merge_records lib rs base' (matched + 1, notmatched))
     | DB_FOUND n \<Rightarrow> rbind (put_db lib base hash (n + ndups)) (\<lambda>base'. merge_records lib rs base' (matched + 1, notmatched)))"

definition merge_dbs :: "(string, 'd) libdb \<Rightarrow> 'd option \<Rightarrow> 'd option \<Rightarrow> ('d option \<times> u64 \<times> u64) res" where
  "merge_dbs lib db_merge db_base =
     (case db_merge of None \<Rightarrow> Inl Wild_Pointer | Some d \<Rightarrow> merge_records lib (db_records lib d) db_base (0, 0))"

section \<open>Command line\<close>

abbreviation FOLDER :: int where "FOLDER \<equiv> 1"
abbreviation DEVICE :: int where "DEVICE \<equiv> 2"

record gen_conf =
  gc_type :: int
  gc_path :: "string option"  \<comment> \<open>None: the array was never set\<close>
  gc_output :: "string option"
  gc_dbfolder :: "string option"
  gc_removedb :: bool
  gc_nsizes :: nat
  gc_sizes :: "int option list"

definition gen_initial :: gen_conf where
  "gen_initial = \<lparr>gc_type = -1, gc_path = None, gc_output = None, gc_dbfolder = None, gc_removedb = True, gc_nsizes = 0, gc_sizes = []\<rparr>"

definition str_split :: "string \<Rightarrow> gen_conf \<Rightarrow> gen_conf" where
  \<comment> \<open>the number of sizes grows with every use of the option, the array is new; empty tokens are skipped\<close>
  "str_split a_str gc =
     (let n = gc_nsizes gc + length (filter (\<lambda>c. c = CHR '','') a_str) + 1;
          tokens = map (Some \<circ> atoi) (strtok_on (CHR '','') a_str)
      in gc\<lparr>gc_nsizes := n, gc_sizes := tokens @ replicate (n - length tokens) None\<rparr>)"

fun gen_options :: "string list \<Rightarrow> gen_conf \<Rightarrow> gen_conf res" where
  \<comment> \<open>the loop over the arguments; paths are copied into arrays of 100 characters\<close>
  "gen_options [] gc = Inr gc"
| "gen_options (arg # args) gc =
     (if char_at arg 0 \<noteq> CHR ''-'' then Inr gc
      else let c = char_at arg 1; path = (\<lambda>upd. rbind (store_path (drop 2 arg)) (\<lambda>p. gen_options args (upd p))) in
      if c = CHR ''f'' then if gc_type gc \<noteq> DEVICE then gen_options args (gc\<lparr>gc_type := FOLDER\<rparr>) else usage
      else if c = CHR ''d'' then if gc_type gc \<noteq> FOLDER then gen_options args (gc\<lparr>gc_type := DEVICE\<rparr>) else usage
      else if c = CHR ''p'' then path (\<lambda>p. gc\<lparr>gc_path := Some p\<rparr>)
      else if c = CHR ''o'' then path (\<lambda>p. gc\<lparr>gc_output := Some p\<rparr>)
      else if c = CHR ''b'' then gen_options args (str_split (drop 2 arg) gc)
      else if c = CHR ''z'' then path (\<lambda>p. gc\<lparr>gc_dbfolder := Some p\<rparr>)
      else if c = CHR ''k'' then gen_options args (gc\<lparr>gc_removedb := False\<rparr>)
      else usage)"

definition gen_checks :: "gen_conf \<Rightarrow> (string \<times> int option list) res" where
  \<comment> \<open>the path and the sizes of blocks\<close>
  "gen_checks gc =
     (if gc_type gc \<noteq> FOLDER \<and> gc_type gc \<noteq> DEVICE then usage
      else case gc_path gc of None \<Rightarrow> Inl Uninitialised | Some path \<Rightarrow>
        if path = [] then usage
        else Inr (path, if gc_nsizes gc = 0 then [Some 4096] else gc_sizes gc))"

section \<open>The generator\<close>

record ('d, 'e, 'f) gen_os =
  go_io :: "'f file_io"
  go_lib :: "(string, 'd) libdb"
  go_plib :: "(u64, 'e) libdb"
  go_sha1 :: "string \<Rightarrow> bytes"
  go_rm :: rm_os
  go_dir :: "string \<Rightarrow> node"
  go_opendir :: "string \<Rightarrow> bool"
  go_tree :: "string \<Rightarrow> dirent"
  go_fopen :: "string \<Rightarrow> bool"

definition forget_files :: "string list \<Rightarrow> 'd db_files \<Rightarrow> 'd db_files" where
  \<comment> \<open>the databases whose files \<^verbatim>\<open>remove_dir\<close> has removed are gone\<close>
  "forget_files gone files = (\<lambda>p. if ''./'' @ p \<in> set gone then None else files p)"

definition old_dirs :: "rm_os \<Rightarrow> (string \<Rightarrow> node) \<Rightarrow> string list" where
  "old_dirs rm dir = snd (remove_dir rm ''./gendbs'' (dir ''./gendbs'') (snd (remove_dir rm ''./benchdbs'' (dir ''./benchdbs'') [])))"

definition db_paths :: "gen_conf \<Rightarrow> nat \<Rightarrow> (string \<times> string) res" where
  \<comment> \<open>the directories of the print database and of the database of duplicates; \<^verbatim>\<open>sizeid\<close> has 5 bytes\<close>
  "db_paths gc i =
     (if 5 \<le> length (show_nat i) then Inl Out_Of_Bounds
      else rbind (store_path (''gendbs/printdb/'' @ show_nat i)) (\<lambda>prt.
           rbind (store_path ((case gc_dbfolder gc of None \<Rightarrow> ''gendbs/duplicatedb/'' | Some p \<Rightarrow> p) @ show_nat i)) (\<lambda>dup.
             Inr (prt, dup))))"

record ('d, 'e) gen_dbs =
  gd_files :: "'d db_files"
  gd_pfiles :: "'e db_files"

fun open_dbs ::
    "('d, 'e, 'f) gen_os \<Rightarrow> gen_conf \<Rightarrow> nat \<Rightarrow> int option list \<Rightarrow> ('d, 'e) gen_dbs \<Rightarrow> 'f \<Rightarrow>
     (('d size_state \<times> 'e option) list \<times> ('d, 'e) gen_dbs \<times> 'f) res" where
  \<comment> \<open>the loop that creates directories, removes and opens databases; the counters start at 0\<close>
  "open_dbs os gc i [] g f = Inr ([], g, f)"
| "open_dbs os gc i (bs # sizes) g f =
     rbind (db_paths gc i) (\<lambda>(prt, dup).
     let f1 = snd (io_system (go_io os) (''mkdir -p '' @ prt) f); f2 = snd (io_system (go_io os) (''mkdir -p '' @ dup) f1);
         g1 = g\<lparr>gd_files := remove_db dup (gd_files g), gd_pfiles := remove_db prt (gd_pfiles g)\<rparr>
     in rbind (init_db (go_lib os) dup (gd_files g1)) (\<lambda>db.
        rbind (case gc_output gc of None \<Rightarrow> Inr None | Some _ \<Rightarrow> init_db (go_plib os) prt (gd_pfiles g1)) (\<lambda>pdb.
        rbind (open_dbs os gc (Suc i) sizes g1 f2) (\<lambda>(sts, g2, f3).
          Inr ((\<lparr>sz_size = bs, sz_total = 0, sz_eq = 0, sz_dif = 0, sz_distinctdup = 0, sz_space = 0, sz_db = db\<rparr>, pdb) # sts, g2, f3)))))"

record gen_report =
  gr_size :: int
  gr_total :: u64
  gr_zerodups :: u64
  gr_distinctdup :: u64
  gr_eq :: u64
  gr_space :: u64
  gr_output :: "(string \<times> string \<times> cumul_line list) option"  \<comment> \<open>name, distribution, histogram\<close>

definition write_output ::
    "('d, 'e, 'f) gen_os \<Rightarrow> string \<Rightarrow> int \<Rightarrow> 'd option \<Rightarrow> 'e option \<Rightarrow> ((string \<times> string \<times> cumul_line list) \<times> 'e option) res" where
  \<comment> \<open>\<^verbatim>\<open>sizeid\<close> has 10 bytes; the results of \<^verbatim>\<open>fopen\<close> are not checked\<close>
  "write_output os outputpath bs dbpor dbprint =
     rbind (gen_output (go_lib os) dbpor (go_plib os) dbprint) (\<lambda>pdb.
     if 10 \<le> length (show_int bs) then Inl Out_Of_Bounds
     else rbind (store_path (outputpath @ show_int bs)) (\<lambda>name.
          rbind (store_path (name @ ''cumul'')) (\<lambda>cumul.
          if \<not> go_fopen os name \<or> \<not> go_fopen os cumul then Inl Wild_Pointer
          else rbind (print_elements_print (go_plib os) pdb True) (\<lambda>(txt, ls).
               rbind (store_path (name @ ''plot'')) (\<lambda>plot.
                 if \<not> go_fopen os plot then Inl Wild_Pointer else Inr ((name, txt, ls), pdb))))))"

fun report_sizes ::
    "('d, 'e, 'f) gen_os \<Rightarrow> gen_conf \<Rightarrow> nat \<Rightarrow> ('d size_state \<times> 'e option) list \<Rightarrow> ('d, 'e) gen_dbs \<Rightarrow>
     (gen_report list \<times> ('d, 'e) gen_dbs) res" where
  "report_sizes os gc i [] g = Inr ([], g)"
| "report_sizes os gc i ((st, pdb) # sts) g =
     (case sz_size st of None \<Rightarrow> Inl Uninitialised | Some bs \<Rightarrow>
      rbind (db_paths gc i) (\<lambda>(prt, dup).
      rbind (case gc_output gc of
               None \<Rightarrow> Inr (None, gd_pfiles g)
             | Some path \<Rightarrow> rbind (write_output os path bs (sz_db st) pdb) (\<lambda>(out, pdb').
                 rbind (close_db prt pdb' (gd_pfiles g)) (\<lambda>pfiles. Inr (Some out, pfiles)))) (\<lambda>(out, pfiles).
      rbind (close_db dup (sz_db st) (gd_files g)) (\<lambda>files.
      rbind (report_sizes os gc (Suc i) sts (g\<lparr>gd_files := files, gd_pfiles := pfiles\<rparr>)) (\<lambda>(reps, g').
        Inr (\<lparr>gr_size = bs, gr_total = sz_total st, gr_zerodups = sz_dif st - sz_distinctdup st,
              gr_distinctdup = sz_distinctdup st, gr_eq = sz_eq st, gr_space = sz_space st, gr_output = out\<rparr> # reps, g'))))))"

definition gen_scan ::
    "('d, 'e, 'f) gen_os \<Rightarrow> int \<Rightarrow> string \<Rightarrow> 'd size_state list \<times> 'f \<Rightarrow> (u64 \<times> 'd size_state list \<times> 'f) res option" where
  \<comment> \<open>the folder or the device\<close>
  "gen_scan os kind path s =
     (let extract = extract_blocks (go_io os) (go_lib os) (go_sha1 os) in
      if kind = FOLDER then search_dir (go_opendir os) extract path (go_tree os path) (0, s)
      else obind (extract path s) (\<lambda>s'. Some (Inr (0, s'))))"

definition gen_main ::
    "('d, 'e, 'f) gen_os \<Rightarrow> string list \<Rightarrow> ('d, 'e) gen_dbs \<Rightarrow> 'f \<Rightarrow>
     (u64 \<times> gen_report list \<times> ('d, 'e) gen_dbs \<times> 'f) res option" where
  \<comment> \<open>\<^verbatim>\<open>main\<close> of \<^verbatim>\<open>DEDISgen.c\<close>: the number of files and the results for every size\<close>
  "gen_main os args g f =
     obind (Some (gen_options args gen_initial)) (\<lambda>gc.
     obind (Some (gen_checks gc)) (\<lambda>(path, sizes).
     let gone = (if gc_removedb gc then old_dirs (go_rm os) (go_dir os) else []);
         g1 = \<lparr>gd_files = forget_files gone (gd_files g), gd_pfiles = forget_files gone (gd_pfiles g)\<rparr>
     in obind (Some (open_dbs os gc 0 sizes g1 f)) (\<lambda>(sts, g2, f1).
        obind (gen_scan os (gc_type gc) path (map fst sts, f1)) (\<lambda>(nfiles, sts', f2).
        obind (Some (report_sizes os gc 0 (zip sts' (map snd sts)) g2)) (\<lambda>(reps, g3).
          Some (Inr (nfiles, reps, g3, f2)))))))"

section \<open>The utility\<close>

record utils_conf =
  uc_merge :: "(string \<times> string) option"  \<comment> \<open>the database to merge and the base\<close>
  uc_output :: "(string \<times> string) option"  \<comment> \<open>the database and the file\<close>

fun utils_options :: "string list \<Rightarrow> utils_conf \<Rightarrow> utils_conf res" where
  "utils_options [] uc = Inr uc"
| "utils_options [arg] uc =
     (if char_at arg 0 \<noteq> CHR ''-'' then Inr uc else usage)"
| "utils_options (arg # arg2 # args) uc =
     (if char_at arg 0 \<noteq> CHR ''-'' then Inr uc
      else let c = char_at arg 1;
               both = (\<lambda>upd. rbind (store_path (drop 2 arg)) (\<lambda>p. rbind (store_path arg2) (\<lambda>q. utils_options args (upd (p, q)))))
      in if c = CHR ''m'' then both (\<lambda>pq. uc\<lparr>uc_merge := Some pq\<rparr>)
      else if c = CHR ''o'' then both (\<lambda>pq. uc\<lparr>uc_output := Some pq\<rparr>)
      else usage)"

definition utils_merge :: "(string, 'd) libdb \<Rightarrow> string \<Rightarrow> string \<Rightarrow> 'd db_files \<Rightarrow> ((u64 \<times> u64) \<times> 'd db_files) res" where
  "utils_merge lib merge base files =
     rbind (init_db lib base files) (\<lambda>dbbase.
     rbind (init_db lib merge files) (\<lambda>dbmerge.
     rbind (merge_dbs lib dbmerge dbbase) (\<lambda>(dbbase', matches).
     rbind (close_db base dbbase' files) (\<lambda>files1.
     rbind (close_db merge dbmerge files1) (\<lambda>files2. Inr (matches, files2))))))"

definition utils_output ::
    "(string, 'd) libdb \<Rightarrow> (u64, 'e) libdb \<Rightarrow> (string \<Rightarrow> bool) \<Rightarrow> string \<Rightarrow> string \<Rightarrow> 'd db_files \<Rightarrow> 'e db_files \<Rightarrow> (string \<times> 'e db_files) res" where
  \<comment> \<open>there is no file for the histogram\<close>
  "utils_output lib plib opened db name files pfiles =
     rbind (init_db lib db files) (\<lambda>dbor.
     let pfiles1 = remove_db ''gendbs/printdb/'' pfiles in
     rbind (init_db plib ''gendbs/printdb/'' pfiles1) (\<lambda>pdb.
     rbind (gen_output lib dbor plib pdb) (\<lambda>pdb'.
     if \<not> opened name then Inl Wild_Pointer
     else rbind (print_elements_print plib pdb' False) (\<lambda>(txt, _).
          rbind (close_db ''gendbs/printdb/'' pdb' pfiles1) (\<lambda>pfiles2.
            Inr (txt, remove_db ''gendbs/printdb/'' pfiles2))))))"

definition utils_main ::
    "(string, 'd) libdb \<Rightarrow> (u64, 'e) libdb \<Rightarrow> (string \<Rightarrow> bool) \<Rightarrow> string list \<Rightarrow> ('d, 'e) gen_dbs \<Rightarrow>
     ((u64 \<times> u64) option \<times> string option \<times> ('d, 'e) gen_dbs) res" where
  "utils_main lib plib opened args g =
     rbind (utils_options args \<lparr>uc_merge = None, uc_output = None\<rparr>) (\<lambda>uc.
     rbind (case uc_merge uc of None \<Rightarrow> Inr (None, gd_files g)
            | Some (merge, base) \<Rightarrow> rbind (utils_merge lib merge base (gd_files g)) (\<lambda>(m, files). Inr (Some m, files))) (\<lambda>(m, files).
     rbind (case uc_output uc of None \<Rightarrow> Inr (None, gd_pfiles g)
            | Some (db, name) \<Rightarrow> rbind (utils_output lib plib opened db name files (gd_pfiles g)) (\<lambda>(txt, pfiles). Inr (Some txt, pfiles))) (\<lambda>(txt, pfiles).
       Inr (m, txt, \<lparr>gd_files = files, gd_pfiles = pfiles\<rparr>))))"


end
