(* ===== verification/Dedis_Gen_Correct.thy ===== *)
theory Dedis_Gen_Correct
  imports Dedis_Gen Dedis_Dup_Correct "HOL-Library.Multiset"
begin

text \<open>
  Correctness of the generator of distributions: over any library that behaves like a map, the
  databases count the blocks of the device by their digests, the distribution file says for every
  number of duplicates how many contents have it, and the benchmark loads from the file the
  occurrences that were counted.
\<close>

section \<open>What is relied on\<close>

locale hash_db =
  fixes lib :: "('k, 'd) libdb" and content :: "'d \<Rightarrow> 'k \<Rightarrow> u64 option"
  assumes empty_law: "content (db_empty lib) = Map.empty"
    and lookup_law: "db_lookup lib d k = (case content d k of None \<Rightarrow> DB_NOTFOUND | Some v \<Rightarrow> DB_FOUND v)"
    and insert_law: "\<exists>d'. db_insert lib d k v = Some d' \<and> content d' = (content d)(k \<mapsto> v)"
    and records_distinct: "distinct (map fst (db_records lib d))"
    and records_content: "map_of (db_records lib d) = content d"

definition alist_db :: "('k, ('k \<times> u64) list) libdb" where
  "alist_db = \<lparr>db_opens = (\<lambda>_. True), db_empty = [], db_lookup = (\<lambda>d k. case map_of d k of None \<Rightarrow> DB_NOTFOUND | Some v \<Rightarrow> DB_FOUND v),
     db_insert = (\<lambda>d k v. Some (AList.update k v d)), db_records = AList.clearjunk\<rparr>"

interpretation al: hash_db alist_db map_of
  by unfold_locales (simp_all add: alist_db_def update_conv' map_of_clearjunk distinct_clearjunk)

definition occurrences :: "'k list \<Rightarrow> 'k \<Rightarrow> u64 option" where
  "occurrences ks k = (if k \<in> set ks then Some (word_of_nat (count_list ks k)) else None)"

lemma occurrences_snoc:
  "occurrences (ks @ [k]) = (occurrences ks)(k \<mapsto> word_of_nat (Suc (count_list ks k)))"
  by (auto simp: occurrences_def fun_eq_iff)

lemma occurrences_Nil [simp]: "occurrences [] = Map.empty"
  by (simp add: occurrences_def fun_eq_iff)

context hash_db
begin

lemma get_occurrences:
  assumes "content d = occurrences ks"
  shows "get_handle lib (Some d) k =
    Inr (if k \<in> set ks then DB_FOUND (word_of_nat (count_list ks k)) else DB_NOTFOUND)"
  using assms by (simp add: get_handle_def lookup_law occurrences_def)

lemma put_occurrences:
  assumes "content d = occurrences ks"
  obtains d' where "put_handle lib (Some d) k (word_of_nat (Suc (count_list ks k))) = Inr (Some d')"
    "content d' = occurrences (ks @ [k])"
proof -
  obtain d' where "db_insert lib d k (word_of_nat (Suc (count_list ks k))) = Some d'"
    "content d' = (content d)(k \<mapsto> word_of_nat (Suc (count_list ks k)))" using insert_law by blast
  then show thesis by (intro that [of d']) (simp_all add: put_handle_def assms occurrences_snoc)
qed

end

section \<open>Counting the blocks of one size\<close>

definition repeated :: "'k list \<Rightarrow> 'k set" where
  "repeated ks = {k. 2 \<le> count_list ks k}"

lemma repeated_subset: "repeated ks \<subseteq> set ks"
  by (auto simp: repeated_def) (metis count_notin not_numeral_le_zero)

lemma repeated_snoc: "repeated (ks @ [k]) = (if count_list ks k = 1 then insert k (repeated ks) else repeated ks)"
  by (auto simp: repeated_def)

lemma count_list_pos: "k \<in> set ks \<longleftrightarrow> 0 < count_list ks k"
  by (metis count_list_0_iff gr0I less_numeral_extra(3))

lemma of_nat_u64_eq_1: "n < 2 ^ 64 \<Longrightarrow> word_of_nat n = (1 :: u64) \<longleftrightarrow> n = 1"
proof
  assume "n < 2 ^ 64" and "word_of_nat n = (1 :: u64)"
  then show "n = 1" using unat_of_nat_small [of n, where 'a = 64] by simp
qed simp

definition tallied :: "('d \<Rightarrow> string \<Rightarrow> u64 option) \<Rightarrow> nat \<Rightarrow> string list \<Rightarrow> 'd size_state \<Rightarrow> bool" where
  "tallied content bs ks st \<longleftrightarrow> (\<exists>d. sz_db st = Some d \<and> content d = occurrences ks) \<and>
     sz_total st = word_of_nat (length ks) \<and> sz_dif st = word_of_nat (card (set ks)) \<and>
     sz_eq st = word_of_nat (length ks - card (set ks)) \<and> sz_distinctdup st = word_of_nat (card (repeated ks)) \<and>
     sz_space st = word_of_nat ((length ks - card (set ks)) * bs)"

lemma check_duplicates_tallied:
  assumes "hash_db lib content" and "tallied content bs ks st" and "length ks < 2 ^ 64"
  obtains st' where "check_duplicates lib sha1 b (word_of_nat bs) st = Inr st'" "sz_size st' = sz_size st"
    "tallied content bs (ks @ [visual_hash (sha1 b)]) st'"
proof -
  let ?k = "visual_hash (sha1 b)"
  obtain d where d: "sz_db st = Some d" "content d = occurrences ks" using assms(2) by (auto simp: tallied_def)
  obtain d' where d': "put_handle lib (Some d) ?k (word_of_nat (Suc (count_list ks ?k))) = Inr (Some d')"
    "content d' = occurrences (ks @ [?k])"
    by (rule hash_db.put_occurrences [OF assms(1) d(2), of ?k])
  note get = hash_db.get_occurrences [OF assms(1) d(2), of ?k]
  note defs = check_duplicates_def get_db_def put_db_def Let_def
  show thesis
  proof (cases "?k \<in> set ks")
    case False
    then have c: "count_list ks ?k = 0" by (simp add: count_list_0_iff)
    let ?st = "st\<lparr>sz_total := sz_total st + 1, sz_dif := sz_dif st + 1, sz_db := Some d'\<rparr>"
    have "check_duplicates lib sha1 b (word_of_nat bs) st = Inr ?st" using d d' get False c by (simp add: defs)
    moreover have "tallied content bs (ks @ [?k]) ?st"
      using d' assms(2) False c card_length [of ks] by (simp add: tallied_def repeated_snoc)
    ultimately show thesis by (intro that) simp_all
  next
    case True
    have "count_list ks ?k < 2 ^ 64" using assms(3) count_le_length [of ks ?k] by linarith
    then have one: "word_of_nat (count_list ks ?k) = (1 :: u64) \<longleftrightarrow> count_list ks ?k = 1"
      by (rule of_nat_u64_eq_1)
    let ?st = "st\<lparr>sz_total := sz_total st + 1,
      sz_distinctdup := if count_list ks ?k = 1 then sz_distinctdup st + 1 else sz_distinctdup st,
      sz_eq := sz_eq st + 1, sz_space := sz_space st + word_of_nat bs, sz_db := Some d'\<rparr>"
    have "check_duplicates lib sha1 b (word_of_nat bs) st = Inr ?st"
      using d d' get True one by (cases "count_list ks ?k = 1") (simp_all add: defs add.commute)
    moreover have "finite (repeated ks)" using repeated_subset by (rule finite_subset) simp
    then have "tallied content bs (ks @ [?k]) ?st"
      using d' assms(2) True card_length [of ks]
      by (simp add: tallied_def repeated_snoc insert_absorb Suc_diff_le, simp add: repeated_def)
    ultimately show thesis by (intro that) simp_all
  qed
qed

section \<open>Scanning a file\<close>

definition blocks_in :: "nat \<Rightarrow> 'a list \<Rightarrow> 'a list list" where
  \<comment> \<open>the whole blocks of a file\<close>
  "blocks_in bs xs = map (\<lambda>i. take bs (drop (i * bs) xs)) [0..<length xs div bs]"

definition block_keys :: "(string \<Rightarrow> bytes) \<Rightarrow> nat \<Rightarrow> string \<Rightarrow> string list" where
  "block_keys sha1 bs xs = map (\<lambda>b. visual_hash (sha1 b)) (blocks_in bs xs)"

lemma length_block_keys [simp]: "length (block_keys sha1 bs xs) = length xs div bs"
  by (simp add: block_keys_def blocks_in_def)

lemma blocks_in_append:
  assumes "0 < bs" and "bs dvd length xs"
  shows "blocks_in bs (xs @ ys) = blocks_in bs xs @ blocks_in bs ys"
proof -
  obtain m where m: "length xs = m * bs" using assms(2) by (metis dvd_def mult.commute)
  have len: "length (xs @ ys) div bs = m + length ys div bs" using assms(1) m by simp
  have hd: "take bs (drop (i * bs) (xs @ ys)) = take bs (drop (i * bs) xs)" if "i < m" for i
  proof -
    have "Suc i * bs \<le> m * bs" using that by (intro mult_le_mono1) simp
    then show ?thesis using m by simp
  qed
  have tl: "take bs (drop ((i + m) * bs) (xs @ ys)) = take bs (drop (i * bs) ys)" for i
    using m by (simp add: add_mult_distrib)
  have shift: "[m..<m + length ys div bs] = map (\<lambda>i. i + m) [0..<length ys div bs]" by (simp add: map_add_upt add.commute)
  have "map (\<lambda>i. take bs (drop (i * bs) (xs @ ys))) [m..<m + length ys div bs] =
    map (\<lambda>i. take bs (drop ((i + m) * bs) (xs @ ys))) [0..<length ys div bs]"
    unfolding shift map_map comp_def ..
  also have "\<dots> = blocks_in bs ys" by (simp only: tl blocks_in_def)
  finally have second: "map (\<lambda>i. take bs (drop (i * bs) (xs @ ys))) [m..<m + length ys div bs] = blocks_in bs ys" .
  have "map (\<lambda>i. take bs (drop (i * bs) (xs @ ys))) [0..<m] = map (\<lambda>i. take bs (drop (i * bs) xs)) [0..<m]"
    by (rule map_cong [OF refl]) (simp only: set_upt atLeastLessThan_iff hd)
  also have "\<dots> = blocks_in bs xs" using assms(1) m by (simp add: blocks_in_def)
  finally show ?thesis using second unfolding blocks_in_def [of bs "xs @ ys"] len upt_add_eq_append [OF le0] map_append by simp
qed

lemma blocks_in_short: "length xs < bs \<Longrightarrow> blocks_in bs xs = []"
  by (simp add: blocks_in_def)

lemma blocks_in_one: "length xs = bs \<Longrightarrow> 0 < bs \<Longrightarrow> blocks_in bs xs = [xs]"
  by (simp add: blocks_in_def)

lemma blocks_in_step:
  assumes "0 < bs" and "bs dvd length xs" and "Suc i * bs \<le> length ys"
  shows "blocks_in bs (xs @ take (Suc i * bs) ys) = blocks_in bs (xs @ take (i * bs) ys) @ [take bs (drop (i * bs) ys)]"
proof -
  have "take (Suc i * bs) ys = take (i * bs) ys @ take bs (drop (i * bs) ys)" by (simp add: add.commute [of bs] take_add)
  moreover have "i * bs \<le> length ys" using assms(3) by simp
  then have "bs dvd length (xs @ take (i * bs) ys)" using assms(2) by simp
  moreover have "length (take bs (drop (i * bs) ys)) = bs" using assms(3) by simp
  then have "blocks_in bs (take bs (drop (i * bs) ys)) = [take bs (drop (i * bs) ys)]" by (rule blocks_in_one [OF _ assms(1)])
  ultimately show ?thesis
    using blocks_in_append [OF assms(1), of "xs @ take (i * bs) ys" "take bs (drop (i * bs) ys)"] by simp
qed

lemma blocks_in_rest:
  assumes "0 < bs" and "bs dvd length xs"
  shows "blocks_in bs (xs @ take (length ys div bs * bs) ys) = blocks_in bs (xs @ ys)"
proof -
  let ?n = "length ys div bs * bs"
  have "blocks_in bs ys = blocks_in bs (take ?n ys) @ blocks_in bs (drop ?n ys)"
    using blocks_in_append [OF assms(1), of "take ?n ys" "drop ?n ys"] by (simp add: min_absorb2 div_times_less_eq_dividend)
  moreover have "length (drop ?n ys) < bs" using assms(1) by (simp add: minus_div_mult_eq_mod)
  ultimately show ?thesis using assms by (simp add: blocks_in_append blocks_in_short)
qed

definition scanned :: "('d \<Rightarrow> string \<Rightarrow> u64 option) \<Rightarrow> (string \<Rightarrow> bytes) \<Rightarrow> string \<Rightarrow> 'd size_state \<Rightarrow> bool" where
  "scanned content sha1 xs st \<longleftrightarrow>
     (\<exists>bs. sz_size st = Some (int bs) \<and> 0 < bs \<and> int bs dvd READSIZE \<and> tallied content bs (block_keys sha1 bs xs) st)"

lemma scan_size_tallied:
  assumes "hash_db lib content" and "0 < bs" and "bs dvd length xs" and "length xs + length ys < 2 ^ 64"
    and "i \<le> length ys div bs" and "tallied content bs (block_keys sha1 bs (xs @ take (i * bs) ys)) st"
  shows "\<exists>st'. scan_size lib sha1 (int (length ys)) ys (int bs) (int (i * bs)) st = Some (Inr st') \<and> sz_size st' = sz_size st \<and>
    tallied content bs (block_keys sha1 bs (xs @ ys)) st'"
  using assms(5,6)
proof (induction "length ys div bs - i" arbitrary: i st)
  case 0
  then have i: "i = length ys div bs" by simp
  have "length ys mod bs < bs" using assms(2) by simp
  then have "\<not> int (length ys) - int (i * bs) \<ge> int bs"
    unfolding i using div_mult_mod_eq [of "length ys" bs] by linarith
  then show ?case using 0(3) assms(2,3) unfolding block_keys_def i blocks_in_rest [OF assms(2,3)]
    by (subst scan_size.simps) simp
next
  case (Suc n)
  then have "Suc i \<le> length ys div bs" and n: "n = length ys div bs - Suc i" by simp_all
  then have le: "Suc i * bs \<le> length ys" by (simp add: assms(2) less_eq_div_iff_mult_less_eq)
  let ?ks = "block_keys sha1 bs (xs @ take (i * bs) ys)"
  have "length ?ks \<le> length (xs @ ys)" by (simp, rule order_trans [OF div_le_dividend]) simp
  then have "length ?ks < 2 ^ 64" using assms(4) by simp
  then obtain st1 where st1: "check_duplicates lib sha1 (take bs (drop (i * bs) ys)) (word_of_nat bs) st = Inr st1"
    "sz_size st1 = sz_size st" "tallied content bs (?ks @ [visual_hash (sha1 (take bs (drop (i * bs) ys)))]) st1"
    by (rule check_duplicates_tallied [OF assms(1) Suc.prems(2)])
  then have "tallied content bs (block_keys sha1 bs (xs @ take (Suc i * bs) ys)) st1"
    unfolding block_keys_def blocks_in_step [OF assms(2,3) le] by simp
  then obtain st' where "scan_size lib sha1 (int (length ys)) ys (int bs) (int (Suc i * bs)) st1 = Some (Inr st')"
    "sz_size st' = sz_size st1" "tallied content bs (block_keys sha1 bs (xs @ ys)) st'"
    using Suc.hyps(1) [OF n \<open>Suc i \<le> _\<close>] by blast
  moreover have "int bs + int (i * bs) \<le> int (length ys)" using le by (simp only: mult_Suc flip: of_nat_add)
  then have "int bs \<le> int (length ys) - int (i * bs)" by linarith
  moreover have "nat (int (i * bs)) = i * bs" by (rule nat_int)
  moreover have "int (i * bs) + int bs = int (Suc i * bs)" by simp
  ultimately show ?case using st1(1,2) by (subst scan_size.simps) (simp del: of_nat_mult mult_Suc)
qed

lemma scan_sizes_scanned:
  assumes "hash_db lib content" and "\<forall>st \<in> set sts. scanned content sha1 xs st" and "5242880 dvd length xs"
    and "length xs + length ys < 2 ^ 64"
  shows "\<exists>sts'. scan_sizes lib sha1 (int (length ys)) ys sts = Some (Inr sts') \<and> map sz_size sts' = map sz_size sts \<and>
    (\<forall>st \<in> set sts'. scanned content sha1 (xs @ ys) st)"
  using assms(2)
proof (induction sts)
  case Nil
  then show ?case by simp
next
  case (Cons st sts)
  then obtain bs where bs: "sz_size st = Some (int bs)" "0 < bs" "bs dvd 5242880" "tallied content bs (block_keys sha1 bs xs) st"
    by (auto simp: scanned_def) (metis int_dvd_int_iff of_nat_numeral)
  have "bs dvd length xs" using bs(3) assms(3) by (rule dvd_trans)
  from scan_size_tallied [OF assms(1) bs(2) this assms(4), of 0 sha1 st] bs obtain st' where
    "scan_size lib sha1 (int (length ys)) ys (int bs) 0 st = Some (Inr st')" "sz_size st' = sz_size st"
    "tallied content bs (block_keys sha1 bs (xs @ ys)) st'" by auto
  moreover have "int bs dvd READSIZE" using bs(3) by (metis int_dvd_int_iff of_nat_numeral)
  ultimately show ?case using Cons bs by (auto simp: obind_def scanned_def)
qed

definition serves_image :: "'f file_io \<Rightarrow> int \<Rightarrow> string \<Rightarrow> ('f \<Rightarrow> bool) \<Rightarrow> bool" where
  \<comment> \<open>in every state of the file system that can be reached by reading, \<^verbatim>\<open>pread\<close> returns the bytes of
     the image, as many as there are\<close>
  "serves_image io fd img ok \<longleftrightarrow>
     (\<forall>f off. ok f \<longrightarrow> (\<exists>f'. ok f' \<and> (let s = take (nat READSIZE) (drop (unat off) img) in
        io_pread io fd (word_of_int READSIZE) off f = (int (length s), s, f'))))"

lemma scan_file_scanned:
  assumes "hash_db lib content" and "serves_image io fd img ok" and "length img < 2 ^ 63"
    and "unat off = k * 5242880" and "unat off \<le> length img + 5242880" and "ok f"
    and "\<forall>st \<in> set sts. scanned content sha1 (take (unat off) img) st"
  shows "\<exists>sts' f'. scan_file io lib sha1 fd off sts f = Some (Inr (sts', f')) \<and> ok f' \<and> map sz_size sts' = map sz_size sts \<and>
    (\<forall>st \<in> set sts'. scanned content sha1 img st)"
  using assms(4-7)
proof (induction "length img + 5242880 - unat off" arbitrary: off k sts f rule: less_induct)
  case less
  let ?s = "take (nat READSIZE) (drop (unat off) img)"
  obtain f1 where f1: "ok f1" "io_pread io fd (word_of_int READSIZE) off f = (int (length ?s), ?s, f1)"
    using assms(2) less.prems(3) unfolding serves_image_def Let_def by blast
  show ?case
  proof (cases "unat off < length img")
    case False
    then show ?thesis using f1 less.prems(4) by (subst scan_file.simps) (simp add: Let_def)
  next
    case True
    have "length (take (unat off) img) + length ?s < 2 ^ 64" using assms(3) by simp
    moreover have "5242880 dvd length (take (unat off) img)" using True less.prems(1) by simp
    ultimately obtain sts1 where sts1: "scan_sizes lib sha1 (int (length ?s)) ?s sts = Some (Inr sts1)"
      "map sz_size sts1 = map sz_size sts" "\<forall>st \<in> set sts1. scanned content sha1 (take (unat off) img @ ?s) st"
      using scan_sizes_scanned [OF assms(1) less.prems(4), of ?s] by blast
    let ?off = "off + word_of_int READSIZE"
    have "?off = off + word_of_nat 5242880" by simp
    moreover have "unat off + 5242880 < 2 ^ LENGTH(64)" using True assms(3) by simp
    ultimately have off: "unat ?off = unat off + 5242880" using unat_add_of_nat [of off 5242880] by simp
    have "take (unat off) img @ ?s = take (unat ?off) img" unfolding off take_add by simp
    then have "\<forall>st \<in> set sts1. scanned content sha1 (take (unat ?off) img) st" using sts1(3) by simp
    moreover have "unat ?off = Suc k * 5242880" "unat ?off \<le> length img + 5242880" using off less.prems(1) True by simp_all
    moreover have "length img + 5242880 - unat ?off < length img + 5242880 - unat off" using off True by simp
    ultimately obtain sts' f' where "scan_file io lib sha1 fd ?off sts1 f1 = Some (Inr (sts', f'))" "ok f'"
      "map sz_size sts' = map sz_size sts1" "\<forall>st \<in> set sts'. scanned content sha1 img st"
      using less.hyps [of ?off "Suc k" f1 sts1] f1(1) by blast
    moreover have "0 < int (length ?s)" using True by simp
    ultimately show ?thesis using f1 sts1(1,2) by (subst scan_file.simps) (simp add: Let_def obind_def)
  qed
qed

definition fresh_size :: "(string, 'd) libdb \<Rightarrow> 'd size_state \<Rightarrow> bool" where
  "fresh_size lib st \<longleftrightarrow> sz_total st = 0 \<and> sz_eq st = 0 \<and> sz_dif st = 0 \<and> sz_distinctdup st = 0 \<and> sz_space st = 0 \<and>
     sz_db st = Some (db_empty lib) \<and> (\<exists>bs > 0. sz_size st = Some bs \<and> bs dvd READSIZE)"

lemma fresh_size_scanned:
  assumes "hash_db lib content" and "fresh_size lib st"
  shows "scanned content sha1 [] st"
proof -
  obtain bs where bs: "0 < bs" "sz_size st = Some bs" "bs dvd READSIZE" using assms(2) by (auto simp: fresh_size_def)
  have "block_keys sha1 (nat bs) [] = []" by (simp add: block_keys_def blocks_in_def)
  then have "tallied content (nat bs) (block_keys sha1 (nat bs) []) st"
    using assms(2) hash_db.empty_law [OF assms(1)] by (simp add: tallied_def fresh_size_def repeated_def)
  then show ?thesis using bs by (auto simp: scanned_def intro!: exI [of _ "nat bs"])
qed

lemma extract_blocks_scanned:
  assumes "hash_db lib content" and "io_open io False False name f = (fd, f1)" and "fd \<noteq> 0" and "serves_image io fd img ok"
    and "ok f1" and "length img < 2 ^ 63" and "\<forall>st \<in> set sts. fresh_size lib st"
  shows "\<exists>sts' f2. extract_blocks io lib sha1 name (sts, f) = Some (Inr (sts', io_close io fd f2)) \<and> map sz_size sts' = map sz_size sts \<and>
    (\<forall>st \<in> set sts'. scanned content sha1 img st)"
proof -
  have "\<forall>st \<in> set sts. scanned content sha1 (take (unat (0 :: u64)) img) st"
    using assms(7) fresh_size_scanned [OF assms(1)] by simp
  then obtain sts' f2 where "scan_file io lib sha1 fd 0 sts f1 = Some (Inr (sts', f2))" "map sz_size sts' = map sz_size sts"
    "\<forall>st \<in> set sts'. scanned content sha1 img st"
    using scan_file_scanned [OF assms(1,4,6), of 0 0 f1 sts sha1] assms(5) by auto
  then show ?thesis using assms(2,3) by (auto simp: extract_blocks_def obind_def)
qed

section \<open>The distribution\<close>

lemma output_records_counts:
  assumes "hash_db plib pcontent" and "pcontent p = occurrences xs"
  shows "\<exists>p'. output_records plib rs (Some p) = Inr (Some p') \<and> pcontent p' = occurrences (xs @ map (\<lambda>r. snd r - 1) rs)"
  using assms(2)
proof (induction rs arbitrary: p xs)
  case Nil
  then show ?case by simp
next
  case (Cons r rs)
  obtain hash cont where r: "r = (hash, cont)" by fastforce
  obtain p1 where p1: "put_handle plib (Some p) (cont - 1) (word_of_nat (Suc (count_list xs (cont - 1)))) = Inr (Some p1)"
    "pcontent p1 = occurrences (xs @ [cont - 1])"
    by (rule hash_db.put_occurrences [OF assms(1) Cons.prems, of "cont - 1"])
  have new: "count_list xs (cont - 1) = 0" if "cont - 1 \<notin> set xs" using that by (simp add: count_list_0_iff)
  show ?case using Cons.IH [OF p1(2)] p1(1) hash_db.get_occurrences [OF assms(1) Cons.prems, of "cont - 1"] new
    by (auto simp: r get_db_print_def put_db_print_def Let_def add.commute)
qed

lemma access_pos_range:
  assumes "n \<noteq> 0"
  shows "1 \<le> access_pos n" and "access_pos n \<le> 42"
proof -
  let ?b = "order_of_magnitude n"
  have "unat n < 10 ^ ?b" "10 ^ (?b - 1) \<le> unat n" using order_of_magnitude_digits [of n] assms by auto
  moreover have "unat n < 10 ^ 20" using unat_less [of n] by simp
  ultimately have "(10 :: nat) ^ (?b - 1) < 10 ^ 20" "0 < ?b" using assms by (auto intro: Nat.gr0I simp: unat_gt_0)
  then have "?b - 1 < 20" "0 < ?b" using power_less_imp_less_exp [of 10 "?b - 1" 20] by simp_all
  then show "1 \<le> access_pos n" "access_pos n \<le> 42" by (auto simp: access_pos_def find_bucket_def Let_def)
qed

abbreviation usum :: "u64 list \<Rightarrow> nat" where
  "usum xs \<equiv> sum_list (map unat xs)"

lemma usum_add:
  assumes "i < length xs" and "usum xs + unat c < 2 ^ 64"
  shows "usum (xs[i := xs ! i + c]) = usum xs + unat c"
proof -
  have "unat (xs ! i) \<le> usum xs" using assms(1) member_le_sum_list [of "unat (xs ! i)" "map unat xs"] by simp
  moreover have "unat (xs ! i + c) = unat (xs ! i) + unat c"
    using unat_add_of_nat [of "xs ! i" "unat c"] calculation assms(2) by simp
  ultimately show ?thesis using assms(1) by (simp add: map_update sum_list_update)
qed

definition histogram_ok :: "u64 list \<Rightarrow> int \<Rightarrow> bool" where
  "histogram_ok dups mx \<longleftrightarrow> length dups = 50 \<and> 0 \<le> mx \<and> mx \<le> 42 \<and> (\<forall>i < 50. mx < int i \<longrightarrow> dups ! i = 0)"

lemma count_records_sum:
  assumes "distinct (map fst rs)" and "0 \<in> fst ` set rs \<longrightarrow> dups ! 0 = 0" and "histogram_ok dups mx"
    and "usum dups + usum (map snd rs) < 2 ^ 64"
  shows "\<exists>zs dups' mx'. count_records True rs dups mx = Inr (zs, dups', mx') \<and> histogram_ok dups' mx' \<and>
    usum dups' = usum dups + usum (map snd rs)"
  using assms
proof (induction rs arbitrary: dups mx)
  case Nil
  then show ?case by simp
next
  case (Cons r rs)
  obtain key cont where r: "r = (key, cont)" by fastforce
  have len: "length dups = 50" using Cons.prems(3) by (simp add: histogram_ok_def)
  show ?case
  proof (cases "key = 0")
    case True
    have d0: "dups ! 0 = 0" using Cons.prems(2) True r by simp
    then have up: "usum (dups[0 := cont]) = usum dups + unat cont"
      using usum_add [of 0 dups cont] Cons.prems(4) len by (simp add: r)
    have "0 \<notin> fst ` set rs" using Cons.prems(1) True r by simp
    moreover have "histogram_ok (dups[0 := cont]) mx" using Cons.prems(3) by (auto simp: histogram_ok_def nth_list_update)
    ultimately obtain zs dups' mx' where "count_records True rs (dups[0 := cont]) mx = Inr (zs, dups', mx')"
      "histogram_ok dups' mx'" "usum dups' = usum (dups[0 := cont]) + usum (map snd rs)"
      using Cons.IH [of "dups[0 := cont]" mx] Cons.prems(1,4) up by (auto simp: r)
    then show ?thesis using True up by (simp add: r)
  next
    case False
    let ?p = "nat (access_pos key)"
    let ?d = "dups[?p := dups ! ?p + cont]"
    have p: "1 \<le> access_pos key" "access_pos key \<le> 42" using access_pos_range [OF False] by simp_all
    then have up: "usum ?d = usum dups + unat cont" using usum_add [of ?p dups cont] Cons.prems(4) len by (simp add: r)
    have "histogram_ok ?d (max (access_pos key) mx)" using Cons.prems(3) p by (auto simp: histogram_ok_def nth_list_update)
    moreover have "0 \<in> fst ` set rs \<longrightarrow> ?d ! 0 = 0" using Cons.prems(2) p by (auto simp: nth_list_update)
    ultimately obtain zs dups' mx' where "count_records True rs ?d (max (access_pos key) mx) = Inr (zs, dups', mx')"
      "histogram_ok dups' mx'" "usum dups' = usum ?d + usum (map snd rs)"
      using Cons.IH [of ?d "max (access_pos key) mx"] Cons.prems(1,4) up by (auto simp: r)
    then show ?thesis using False up p len by (simp add: r Let_def)
  qed
qed

lemma merge_small_cases:
  assumes "i < length dups" and "usum (take (Suc i) dups) < 2 ^ 64"
  shows "if usum (take (Suc i) dups) \<le> 300 then merge_small i dups = Inl Out_Of_Bounds else (\<exists>dups'. merge_small i dups = Inr dups')"
  using assms
proof (induction i arbitrary: dups)
  case 0
  then show ?case by (cases dups) (auto simp: word_le_nat_alt)
next
  case (Suc i)
  let ?d = "dups[i := dups ! i + dups ! Suc i]"
  have tk: "take (Suc (Suc i)) dups = take (Suc i) dups @ [dups ! Suc i]" using Suc.prems(1) by (rule take_Suc_conv_app_nth)
  have "usum ((take (Suc i) dups)[i := take (Suc i) dups ! i + dups ! Suc i]) = usum (take (Suc i) dups) + unat (dups ! Suc i)"
    by (rule usum_add) (use Suc.prems tk in simp_all)
  then have up: "usum (take (Suc i) (?d[Suc i := 0])) = usum (take (Suc (Suc i)) dups)"
    using tk by (simp add: take_update_swap list_update_beyond)
  show ?case
  proof (cases "dups ! Suc i \<le> 300")
    case True
    then show ?thesis using Suc.IH [of "?d[Suc i := 0]"] Suc.prems up by simp
  next
    case False
    then have "300 < usum (take (Suc (Suc i)) dups)" using tk by (simp add: word_le_nat_alt)
    then show ?thesis using False by simp
  qed
qed

lemma print_elements_print_cases:
  assumes "distinct (map fst (db_records plib p))" and "usum (map snd (db_records plib p)) < 2 ^ 64"
  shows "if usum (map snd (db_records plib p)) \<le> 300 then print_elements_print plib (Some p) True = Inl Out_Of_Bounds
    else (\<exists>ls. print_elements_print plib (Some p) True = Inr (concat (map (record_line show_u64) (db_records plib p)), ls))"
proof -
  let ?rs = "db_records plib p"
  obtain zs dups mx where c: "count_records True ?rs (replicate 50 0) 0 = Inr (zs, dups, mx)" "histogram_ok dups mx" "usum dups = usum (map snd ?rs)"
    using count_records_sum [OF assms(1), of "replicate 50 0" 0] assms(2) by (auto simp: histogram_ok_def sum_list_replicate)
  have mx: "nat mx < length dups" "0 \<le> mx" using c(2) by (auto simp: histogram_ok_def)
  have "\<forall>x \<in> set (drop (Suc (nat mx)) dups). x = 0" using c(2) by (auto simp: histogram_ok_def in_set_conv_nth)
  then have "usum (drop (Suc (nat mx)) dups) = 0" by (fastforce simp: sum_list_eq_0_iff)
  then have "usum (take (Suc (nat mx)) dups) = usum dups"
    using arg_cong [OF append_take_drop_id [of "Suc (nat mx)" dups], of usum] by (simp only: map_append sum_list_append)
  then show ?thesis using merge_small_cases [OF mx(1)] c(1,3) assms(2)
    by (auto simp: print_elements_print_def Let_def split: if_splits)
qed

section \<open>Loading the distribution\<close>

lemma scan_to_found: "c \<notin> set w \<Longrightarrow> length w < n \<Longrightarrow> scan_to c n (w @ c # rest) = Inr (w, rest)"
  by (induction w arbitrary: n) auto

lemma show_u64_short:
  assumes "w < 2 ^ 63"
  shows "length (show_u64 w) < 20" and "BLANK \<notin> set (show_u64 w)" and "NEWLINE \<notin> set (show_u64 w)"
proof -
  have "unat w < 2 ^ 63" using assms by (simp add: word_less_nat_alt)
  then have "unat w < 10 ^ 19" by simp
  then have "length (show_u64 w) \<le> 19" unfolding show_u64_def by (rule length_show_nat) simp
  then show "length (show_u64 w) < 20" by simp
  show "BLANK \<notin> set (show_u64 w)" "NEWLINE \<notin> set (show_u64 w)"
    using show_nat_digits [of "unat w"] by (auto simp: show_u64_def is_digit_def)
qed

lemma parse_record_line:
  assumes "n < 2 ^ 63" and "c < 2 ^ 63"
  shows "parse_line (record_line show_u64 (n, c) @ rest) = Inr (n + 1, c)"
  using scan_to_found [of BLANK "show_u64 n" 20 "show_u64 c @ NEWLINE # rest"] scan_to_found [of NEWLINE "show_u64 c" 20 rest]
    show_u64_short [OF assms(1)] show_u64_short [OF assms(2)] atoll_show_u64 [OF assms(1)] atoll_show_u64 [OF assms(2)]
  by (simp add: parse_line_def record_line_def)

lemma fgets_line:
  assumes "NEWLINE \<notin> set w" and "Suc (length w) < n"
  shows "fgets n (w @ NEWLINE # rest) = (w @ [NEWLINE], rest)"
proof -
  have "takeWhile (\<lambda>c. c \<noteq> NEWLINE) w = w" using assms(1) by (auto simp: takeWhile_eq_all_conv)
  then have "takeWhile (\<lambda>c. c \<noteq> NEWLINE) (w @ NEWLINE # rest) = w" by (simp add: takeWhile_append)
  then show ?thesis using assms(2) by (simp add: fgets_def Let_def)
qed

lemma fgets_record_line:
  assumes "n < 2 ^ 63" and "c < 2 ^ 63"
  shows "fgets 50 (record_line show_u64 (n, c) @ rest) = (record_line show_u64 (n, c), rest)"
  using fgets_line [of "show_u64 n @ BLANK # show_u64 c" 50 rest] show_u64_short [OF assms(1)] show_u64_short [OF assms(2)]
  by (simp add: record_line_def)

lemma parse_records:
  assumes "\<forall>(n, c) \<in> set rs. n < 2 ^ 63 \<and> c < 2 ^ 63"
  shows "parse_all line (concat (map (record_line show_u64) rs)) = Inr (map (\<lambda>(n, c). (n + 1, c)) rs)"
  using assms
proof (induction rs arbitrary: line)
  case Nil
  then show ?case by (simp add: parse_all.simps)
next
  case (Cons r rs)
  obtain n c where r: "r = (n, c)" by fastforce
  then have nc: "n < 2 ^ 63" "c < 2 ^ 63" using Cons.prems by auto
  let ?txt = "concat (map (record_line show_u64) (r # rs))"
  have g: "fgets 50 ?txt = (record_line show_u64 (n, c), concat (map (record_line show_u64) rs))"
    using fgets_record_line [OF nc] by (simp add: r)
  have ne: "?txt \<noteq> []" by (simp add: r record_line_def)
  have "blit 0 (record_line show_u64 (n, c) @ [NUL]) line = record_line show_u64 (n, c) @ NUL # drop (length (record_line show_u64 (n, c)) + 1) line"
    by (simp add: blit_def)
  then have "parse_line (blit 0 (record_line show_u64 (n, c) @ [NUL]) line) = Inr (n + 1, c)" by (simp only: parse_record_line [OF nc])
  then show ?case using Cons ne g by (subst parse_all.simps) (simp add: r Let_def)
qed

section \<open>Histograms as lists\<close>

definition unfold_counts :: "('k \<times> u64) list \<Rightarrow> 'k list" where
  \<comment> \<open>every key as often as its counter says\<close>
  "unfold_counts rs = concat (map (\<lambda>(k, c). replicate (unat c) k) rs)"

lemma unfold_counts_simps [simp]:
  "unfold_counts [] = []"
  "unfold_counts ((k, c) # rs) = replicate (unat c) k @ unfold_counts rs"
  by (simp_all add: unfold_counts_def)

lemma count_unfold:
  "distinct (map fst rs) \<Longrightarrow> count (mset (unfold_counts rs)) k = (case map_of rs k of None \<Rightarrow> 0 | Some c \<Rightarrow> unat c)"
proof (induction rs)
  case Nil
  then show ?case by simp
next
  case (Cons r rs)
  then show ?case by (cases r) (auto simp: map_of_eq_None_iff [THEN iffD2] count_mset split: option.split)
qed

lemma length_unfold: "length (unfold_counts rs) = usum (map snd rs)"
  by (induction rs) auto

lemma expand_unfold:
  "expand (map (\<lambda>(n, c). (n + 1, c)) rs) = filter (\<lambda>x. 1 < x) (map (\<lambda>n. n + 1) (unfold_counts rs))"
proof (induction rs)
  case Nil
  then show ?case by (simp add: expand_def)
next
  case (Cons r rs)
  then show ?case by (cases r) (simp add: expand_Cons map_replicate)
qed

lemma blocks_of_unfold: "blocks_of (map (\<lambda>(n, c). (n + 1, c)) rs) = usum (map (\<lambda>n. n + 1) (unfold_counts rs))"
proof (induction rs)
  case Nil
  then show ?case by (simp add: blocks_of_def)
next
  case (Cons r rs)
  then show ?case by (cases r) (simp add: blocks_of_def sum_list_replicate)
qed

definition content_counts :: "'k list \<Rightarrow> u64 multiset" where
  \<comment> \<open>the numbers of occurrences of the different contents\<close>
  "content_counts ks = image_mset (\<lambda>k. word_of_nat (count_list ks k)) (mset_set (set ks))"

lemma mset_counters:
  assumes "distinct (map fst rs)" and "map_of rs = occurrences ks"
  shows "mset (map snd rs) = content_counts ks" and "length rs = card (set ks)"
proof -
  have dom: "fst ` set rs = set ks" using assms(2) by (auto simp: dom_map_of_conv_image_fst [symmetric] occurrences_def dom_def)
  then show "length rs = card (set ks)" using distinct_card [OF assms(1)] by simp
  have "snd r = word_of_nat (count_list ks (fst r))" if "r \<in> set rs" for r
  proof -
    have "map_of rs (fst r) = Some (snd r)" using map_of_is_SomeI [OF assms(1), of "fst r" "snd r"] that by simp
    then show ?thesis by (simp add: assms(2) occurrences_def split: if_splits)
  qed
  then have "map snd rs = map (\<lambda>k. word_of_nat (count_list ks k)) (map fst rs)" by simp
  then have "mset (map snd rs) = image_mset (\<lambda>k. word_of_nat (count_list ks k)) (mset (map fst rs))" by (simp only: mset_map)
  also have "mset (map fst rs) = mset_set (set ks)" using mset_set_set [OF assms(1)] dom by simp
  finally show "mset (map snd rs) = content_counts ks" by (simp add: content_counts_def)
qed

section \<open>From the counters to the distribution\<close>

definition distribution_of :: "'k list \<Rightarrow> (u64 \<times> u64) list \<Rightarrow> bool" where
  \<comment> \<open>for every number of duplicates the number of contents that have it, if there is one\<close>
  "distribution_of ks rs \<longleftrightarrow> distinct (map fst rs) \<and> (\<forall>n < 2 ^ 64. map_of rs (word_of_nat n) =
     (let c = card {k \<in> set ks. count_list ks k = Suc n} in if c = 0 then None else Some (word_of_nat c)))"

definition duplicate_counts :: "(string \<times> u64) list \<Rightarrow> u64 list" where
  "duplicate_counts rs = map (\<lambda>r. snd r - 1) rs"

lemma count_in_range:
  assumes "k \<in> set ks" and "length ks < 2 ^ 63"
  shows "0 < count_list ks k" and "count_list ks k < 2 ^ 63" and "unat (word_of_nat (count_list ks k) :: u64) = count_list ks k"
proof -
  show *: "0 < count_list ks k" "count_list ks k < 2 ^ 63"
    using assms count_le_length [of ks k] by (auto simp: count_list_pos intro: order_le_less_trans)
  then show "unat (word_of_nat (count_list ks k) :: u64) = count_list ks k" by (intro unat_of_nat_small) simp
qed

lemma count_minus_one:
  assumes "k \<in> set ks" and "length ks < 2 ^ 63" and "n < 2 ^ 64"
  shows "word_of_nat (count_list ks k) - 1 = (word_of_nat n :: u64) \<longleftrightarrow> count_list ks k = Suc n"
proof -
  note r = count_in_range [OF assms(1,2)]
  have "word_of_nat (count_list ks k) - 1 = (word_of_nat (count_list ks k - 1) :: u64)" using r(1) by (simp add: of_nat_diff)
  moreover have "word_of_nat (count_list ks k - 1) = (word_of_nat n :: u64) \<longleftrightarrow> count_list ks k - 1 = n"
  proof
    have "count_list ks k - 1 < 2 ^ LENGTH(64)" "n < 2 ^ LENGTH(64)" using r(2) assms(3) by simp_all
    moreover assume "word_of_nat (count_list ks k - 1) = (word_of_nat n :: u64)"
    ultimately show "count_list ks k - 1 = n" by (rule word_of_nat_eq_small)
  qed simp
  moreover have "count_list ks k - 1 = n \<longleftrightarrow> count_list ks k = Suc n" using r(1) by arith
  ultimately show ?thesis by (simp only:)
qed

lemma count_duplicate_counts:
  assumes "distinct (map fst rs)" and "map_of rs = occurrences ks" and "length ks < 2 ^ 63" and "n < 2 ^ 64"
  shows "count_list (duplicate_counts rs) (word_of_nat n) = card {k \<in> set ks. count_list ks k = Suc n}"
proof -
  have "duplicate_counts rs = map (\<lambda>c. c - 1) (map snd rs)" by (simp add: duplicate_counts_def)
  then have "mset (duplicate_counts rs) = image_mset (\<lambda>c. c - 1) (content_counts ks)"
    by (simp only: mset_map [of "\<lambda>c. c - 1"] mset_counters(1) [OF assms(1,2)])
  then have m: "mset (duplicate_counts rs) = image_mset (\<lambda>k. word_of_nat (count_list ks k) - 1) (mset_set (set ks))"
    by (simp add: content_counts_def image_mset.compositionality comp_def)
  have "count_list (duplicate_counts rs) (word_of_nat n) = card {k. k \<in> set ks \<and> word_of_nat n = word_of_nat (count_list ks k) - (1 :: u64)}"
    unfolding count_mset [symmetric] m count_image_mset' by simp
  also have "{k. k \<in> set ks \<and> word_of_nat n = word_of_nat (count_list ks k) - (1 :: u64)} = {k \<in> set ks. count_list ks k = Suc n}"
    using count_minus_one [OF _ assms(3,4)] by metis
  finally show ?thesis .
qed

lemma gen_output_distribution:
  assumes "hash_db lib content" and "hash_db plib pcontent" and "content d = occurrences ks" and "length ks < 2 ^ 63"
  obtains p where "gen_output lib (Some d) plib (Some (db_empty plib)) = Inr (Some p)" "distribution_of ks (db_records plib p)"
proof -
  let ?rs = "db_records lib d" let ?nds = "duplicate_counts ?rs"
  have rs: "distinct (map fst ?rs)" "map_of ?rs = occurrences ks"
    using hash_db.records_distinct [OF assms(1)] hash_db.records_content [OF assms(1)] assms(3) by auto
  have "pcontent (db_empty plib) = occurrences []" using hash_db.empty_law [OF assms(2)] by simp
  from output_records_counts [OF assms(2) this, of ?rs] obtain p where
    p: "output_records plib ?rs (Some (db_empty plib)) = Inr (Some p)" "pcontent p = occurrences ?nds"
    by (auto simp: duplicate_counts_def)
  have prs: "distinct (map fst (db_records plib p))" "map_of (db_records plib p) = occurrences ?nds"
    using hash_db.records_distinct [OF assms(2)] hash_db.records_content [OF assms(2)] p(2) by auto
  have "distribution_of ks (db_records plib p)"
    using prs count_duplicate_counts [OF rs assms(4)]
    by (auto simp: distribution_of_def occurrences_def count_list_pos Let_def)
  then show thesis using p(1) by (intro that [of p]) (simp_all add: gen_output_def)
qed

lemma distribution_lookup:
  assumes "distribution_of ks rs"
  shows "map_of rs n = (let c = card {k \<in> set ks. count_list ks k = Suc (unat n)} in if c = 0 then None else Some (word_of_nat c))"
proof -
  have "unat n < 2 ^ LENGTH(64)" by (rule unat_less)
  then have "unat n < 2 ^ 64" by simp
  then have "map_of rs (word_of_nat (unat n)) =
    (let c = card {k \<in> set ks. count_list ks k = Suc (unat n)} in if c = 0 then None else Some (word_of_nat c))"
    using assms unfolding distribution_of_def by blast
  then show ?thesis by (simp only: word_of_unat)
qed

lemma distribution_record:
  assumes "distribution_of ks rs" and "length ks < 2 ^ 63" and "(n, c) \<in> set rs"
  shows "n < 2 ^ 63" and "c < 2 ^ 63" and "n + 1 \<noteq> 0"
proof -
  let ?K = "{k \<in> set ks. count_list ks k = Suc (unat n)}"
  have "map_of rs n = Some c" using assms(1,3) by (simp add: distribution_of_def)
  then have "(if card ?K = 0 then None else Some (word_of_nat (card ?K))) = Some c" using distribution_lookup [OF assms(1), of n] by simp
  then have c: "card ?K \<noteq> 0" "c = word_of_nat (card ?K)" by (auto split: if_splits)
  then obtain k where "k \<in> set ks" "count_list ks k = Suc (unat n)" by (metis (mono_tags, lifting) card.empty empty_Collect_eq)
  then have n: "Suc (unat n) < 2 ^ 63" using count_in_range(2) [of k ks] assms(2) by simp
  then show "n < 2 ^ 63" by (simp add: word_less_nat_alt)
  have "unat (n + word_of_nat 1) = unat n + 1" by (rule unat_add_of_nat) (use n in simp)
  then show "n + 1 \<noteq> 0" by auto
  have "card ?K \<le> card (set ks)" by (rule card_mono) auto
  then have "card ?K < 2 ^ 63" using card_length [of ks] assms(2) by linarith
  moreover from this have "unat c = card ?K" unfolding c(2) by (intro unat_of_nat_small) simp
  ultimately show "c < 2 ^ 63" by (simp add: word_less_nat_alt)
qed

lemma distribution_content_counts:
  assumes "distribution_of ks rs" and "length ks < 2 ^ 63"
  shows "mset (map (\<lambda>n. n + 1) (unfold_counts rs)) = content_counts ks"
proof (rule multiset_eqI)
  fix w :: u64
  let ?n = "unat (w - 1)" let ?K = "{k \<in> set ks. count_list ks k = Suc ?n}"
  have "?n < 2 ^ LENGTH(64)" by (rule unat_less)
  then have n: "?n < 2 ^ 64" "word_of_nat ?n = w - 1" by simp_all
  have d: "distinct (map fst rs)" "map_of rs (w - 1) = (if card ?K = 0 then None else Some (word_of_nat (card ?K)))"
    using assms(1) distribution_lookup [OF assms(1), of "w - 1"] by (simp_all add: distribution_of_def)
  have "card ?K \<le> card (set ks)" by (rule card_mono) auto
  then have "card ?K < 2 ^ LENGTH(64)" using card_length [of ks] assms(2) by simp
  then have "unat (word_of_nat (card ?K) :: u64) = card ?K" by (rule unat_of_nat_small)
  moreover have "{x. x \<in># mset (unfold_counts rs) \<and> w = x + 1} = (if w - 1 \<in> set (unfold_counts rs) then {w - 1} else {})" by auto
  then have "count (mset (map (\<lambda>n. n + 1) (unfold_counts rs))) w = count (mset (unfold_counts rs)) (w - 1)"
    unfolding mset_map count_image_mset' by (auto simp: count_eq_zero_iff)
  ultimately have "count (mset (map (\<lambda>n. n + 1) (unfold_counts rs))) w = card ?K"
    by (simp add: count_unfold [OF d(1)] d(2) split: if_splits)
  moreover have "w = word_of_nat (count_list ks k) \<longleftrightarrow> count_list ks k = Suc ?n" if "k \<in> set ks" for k
    using count_minus_one [OF that assms(2) n(1)] n(2) by (metis diff_add_cancel)
  then have "{k. k \<in> set ks \<and> w = word_of_nat (count_list ks k)} = ?K" by blast
  then have "count (content_counts ks) w = card ?K" unfolding content_counts_def count_image_mset' by simp
  ultimately show "count (mset (map (\<lambda>n. n + 1) (unfold_counts rs))) w = count (content_counts ks) w" by simp
qed

lemma distribution_total:
  assumes "distribution_of ks rs" and "length ks < 2 ^ 63"
  shows "usum (map snd rs) = card (set ks)"
proof -
  have "usum (map snd rs) = size (mset (map (\<lambda>n. n + 1) (unfold_counts rs)))" by (simp add: length_unfold)
  also have "\<dots> = card (set ks)" unfolding distribution_content_counts [OF assms] by (simp add: content_counts_def)
  finally show ?thesis .
qed

lemma content_counts_sum:
  assumes "length ks < 2 ^ 63"
  shows "sum_mset (image_mset unat (content_counts ks)) = length ks"
proof -
  have "sum_mset (image_mset unat (content_counts ks)) = (\<Sum>k \<in> set ks. unat (word_of_nat (count_list ks k) :: u64))"
    by (simp add: content_counts_def image_mset.compositionality comp_def sum_unfold_sum_mset)
  also have "\<dots> = (\<Sum>k \<in> set ks. count_list ks k)" by (rule sum.cong) (use count_in_range(3) [OF _ assms] in auto)
  finally show ?thesis by (simp add: sum_count_set)
qed

lemma content_counts_repeated:
  assumes "length ks < 2 ^ 63"
  shows "size (filter_mset (\<lambda>c. 1 < c) (content_counts ks)) = card (repeated ks)"
proof -
  have "1 < (word_of_nat (count_list ks k) :: u64) \<longleftrightarrow> 2 \<le> count_list ks k" if "k \<in> set ks" for k
    using count_in_range(3) [OF that assms] by (auto simp: word_less_nat_alt)
  then have "{k \<in> set ks. 1 < (word_of_nat (count_list ks k) :: u64)} = repeated ks"
    using repeated_subset [of ks] by (auto simp: repeated_def)
  then show ?thesis by (simp add: content_counts_def filter_mset_image_mset comp_def filter_mset_mset_set)
qed

section \<open>The whole analysis\<close>

definition analysable :: "('d, 'e, 'f) gen_os \<Rightarrow> gen_conf \<Rightarrow> nat \<Rightarrow> string \<Rightarrow> bool" where
  \<comment> \<open>a device with the bytes \<open>img\<close> is analysed with one size of blocks that divides the size of a read,
     an output is wanted, and files and databases can be opened\<close>
  "analysable os gc bs img \<longleftrightarrow> gc_type gc = DEVICE \<and> 0 < bs \<and> bs dvd 5242880 \<and> length img < 2 ^ 63 \<and> gc_dbfolder gc = None \<and>
     (\<forall>p. db_opens (go_lib os) p \<and> db_opens (go_plib os) p \<and> go_fopen os p) \<and>
     (\<exists>path out fd ok. gen_checks gc = Inr (path, [Some (int bs)]) \<and> gc_output gc = Some out \<and> length out < 88 \<and> fd \<noteq> 0 \<and>
        (\<forall>f. \<exists>f1. io_open (go_io os) False False path f = (fd, f1) \<and> ok f1) \<and> serves_image (go_io os) fd img ok)"

definition no_databases :: "('d, 'e) gen_dbs \<Rightarrow> bool" where
  "no_databases g \<longleftrightarrow> (\<forall>p. gd_files g p = None \<and> gd_pfiles g p = None)"

definition size_report :: "string list \<Rightarrow> nat \<Rightarrow> gen_report \<Rightarrow> bool" where
  \<comment> \<open>the numbers that are printed for blocks with the keys \<open>ks\<close>\<close>
  "size_report ks bs rep \<longleftrightarrow> gr_size rep = int bs \<and> unat (gr_total rep) = length ks \<and> unat (gr_distinctdup rep) = card (repeated ks) \<and>
     unat (gr_zerodups rep) = card (set ks - repeated ks) \<and> unat (gr_eq rep) = length ks - card (set ks) \<and>
     gr_space rep = word_of_nat ((length ks - card (set ks)) * bs)"

lemma show_nat_0: "show_nat 0 = ''0''"
  by code_simp

lemma db_paths_0: "gc_dbfolder gc = None \<Longrightarrow> db_paths gc 0 = Inr (''gendbs/printdb/0'', ''gendbs/duplicatedb/0'')"
  by (simp add: db_paths_def show_nat_0 store_path_def)

lemma write_output_cases:
  assumes "hash_db (go_lib os) content" and "hash_db (go_plib os) pcontent" and "content d = occurrences ks" and "length ks < 2 ^ 63"
    and "length out < 88" and "bs \<le> 5242880" and "\<forall>p. go_fopen os p"
  shows "if card (set ks) \<le> 300 then write_output os out (int bs) (Some d) (Some (db_empty (go_plib os))) = Inl Out_Of_Bounds
    else (\<exists>rs ls p. write_output os out (int bs) (Some d) (Some (db_empty (go_plib os))) =
      Inr ((out @ show_int (int bs), concat (map (record_line show_u64) rs), ls), Some p) \<and> distribution_of ks rs)"
proof -
  obtain p where p: "gen_output (go_lib os) (Some d) (go_plib os) (Some (db_empty (go_plib os))) = Inr (Some p)"
    "distribution_of ks (db_records (go_plib os) p)"
    by (rule gen_output_distribution [OF assms(1-4)])
  have "bs < 10 ^ 7" using assms(6) by simp
  then have "length (show_int (int bs)) \<le> 7" by (simp add: show_int_def length_show_nat)
  then have len: "\<not> 10 \<le> length (show_int (int bs))" "store_path (out @ show_int (int bs)) = Inr (out @ show_int (int bs))"
    "store_path ((out @ show_int (int bs)) @ ''cumul'') = Inr ((out @ show_int (int bs)) @ ''cumul'')"
    "store_path ((out @ show_int (int bs)) @ ''plot'') = Inr ((out @ show_int (int bs)) @ ''plot'')"
    using assms(5) by (simp_all add: store_path_def)
  have "distinct (map fst (db_records (go_plib os) p))" using p(2) by (simp add: distribution_of_def)
  moreover have total: "usum (map snd (db_records (go_plib os) p)) = card (set ks)" by (rule distribution_total [OF p(2) assms(4)])
  moreover have "card (set ks) < 2 ^ 64" using card_length [of ks] assms(4) by simp
  ultimately show ?thesis using print_elements_print_cases [of "go_plib os" p] p assms(7) len
    unfolding write_output_def p(1) rbind_simps by (auto split: if_splits)
qed

lemma tallied_report:
  assumes "tallied content bs ks st" and "length ks < 2 ^ 63"
  shows "size_report ks bs \<lparr>gr_size = int bs, gr_total = sz_total st, gr_zerodups = sz_dif st - sz_distinctdup st,
    gr_distinctdup = sz_distinctdup st, gr_eq = sz_eq st, gr_space = sz_space st, gr_output = out\<rparr>"
proof -
  have fin: "finite (repeated ks)" using repeated_subset by (rule finite_subset) simp
  have "card (repeated ks) \<le> card (set ks)" using repeated_subset by (rule card_mono [rotated]) simp
  then have le: "card (repeated ks) \<le> card (set ks)" "card (set ks) \<le> length ks" by (simp_all add: card_length)
  have w: "unat (word_of_nat n :: u64) = n" if "n \<le> length ks" for n using that assms(2) by (intro unat_of_nat_small) simp
  have "sz_dif st - sz_distinctdup st = word_of_nat (card (set ks) - card (repeated ks))"
    using assms(1) le by (simp add: tallied_def of_nat_diff)
  moreover have "card (set ks) - card (repeated ks) = card (set ks - repeated ks)" using card_Diff_subset [OF fin repeated_subset] by simp
  ultimately show ?thesis using assms(1) le w by (simp add: size_report_def tallied_def del: of_nat_diff)
qed

lemma gen_main_cases:
  assumes "hash_db (go_lib os) content" and "hash_db (go_plib os) pcontent" and "gen_options args gen_initial = Inr gc"
    and "analysable os gc bs img" and "no_databases g" and "ks = block_keys (go_sha1 os) bs img"
  shows "if card (set ks) \<le> 300 then gen_main os args g f = Some (Inl Out_Of_Bounds)
    else (\<exists>rep rs ls g' f' out. gen_main os args g f = Some (Inr (0, [rep], g', f')) \<and> size_report ks bs rep \<and>
      gr_output rep = Some (out, concat (map (record_line show_u64) rs), ls) \<and> distribution_of ks rs)"
proof -
  obtain path out fd ok where a: "gen_checks gc = Inr (path, [Some (int bs)])" "gc_output gc = Some out" "length out < 88" "fd \<noteq> 0"
    "\<forall>f. \<exists>f1. io_open (go_io os) False False path f = (fd, f1) \<and> ok f1" "serves_image (go_io os) fd img ok"
    using assms(4) by (auto simp: analysable_def)
  have b: "gc_type gc = DEVICE" "0 < bs" "bs dvd 5242880" "length img < 2 ^ 63" "gc_dbfolder gc = None"
    "\<forall>p. db_opens (go_lib os) p" "\<forall>p. db_opens (go_plib os) p" "\<forall>p. go_fopen os p" using assms(4) by (auto simp: analysable_def)
  let ?st = "\<lparr>sz_size = Some (int bs), sz_total = 0, sz_eq = 0, sz_dif = 0, sz_distinctdup = 0, sz_space = 0, sz_db = Some (db_empty (go_lib os))\<rparr>"
  let ?pdb = "Some (db_empty (go_plib os))"
  let ?gone = "if gc_removedb gc then old_dirs (go_rm os) (go_dir os) else []"
  define g1 where "g1 = \<lparr>gd_files = forget_files ?gone (gd_files g), gd_pfiles = forget_files ?gone (gd_pfiles g)\<rparr>"
  have "gd_files g1 p = None" "gd_pfiles g1 p = None" for p using assms(5) by (simp_all add: g1_def forget_files_def no_databases_def)
  then obtain g2 f1 where opened: "open_dbs os gc 0 [Some (int bs)] g1 f = Inr ([(?st, ?pdb)], g2, f1)"
    using a(2) b(6,7) by (simp add: db_paths_0 [OF b(5)] Let_def init_db_def remove_db_def)
  have "int bs dvd READSIZE" using b(3) by (metis int_dvd_int_iff of_nat_numeral)
  then have "fresh_size (go_lib os) ?st" using b(2) by (simp add: fresh_size_def)
  moreover obtain f2 where "io_open (go_io os) False False path f1 = (fd, f2)" "ok f2" using a(5) by blast
  ultimately obtain sts' f3 where sts': "extract_blocks (go_io os) (go_lib os) (go_sha1 os) path ([?st], f1) = Some (Inr (sts', f3))"
    "map sz_size sts' = [Some (int bs)]" "\<forall>st \<in> set sts'. scanned content (go_sha1 os) img st"
    using extract_blocks_scanned [OF assms(1) _ a(4,6) _ b(4), of path f1 f2 "[?st]" "go_sha1 os"] by auto
  then obtain st where st: "sts' = [st]" "sz_size st = Some (int bs)" "scanned content (go_sha1 os) img st" by (cases sts') auto
  then have tal: "tallied content bs ks st" by (auto simp: scanned_def assms(6))
  then obtain d where d: "sz_db st = Some d" "content d = occurrences ks" by (auto simp: tallied_def)
  have len: "length ks < 2 ^ 63" using order_le_less_trans [OF div_le_dividend b(4), of bs] by (simp add: assms(6))
  have "bs \<le> 5242880" using b(3) by (rule dvd_imp_le) simp
  note out = write_output_cases [OF assms(1,2) d(2) len a(3) this b(8)]
  have main: "gen_main os args g f = obind (Some (report_sizes os gc 0 [(st, ?pdb)] g2)) (\<lambda>(reps, g3). Some (Inr (0, reps, g3, f3)))"
    using opened sts'(1) b(1) by (simp add: gen_main_def assms(3) a(1) gen_scan_def obind_def st(1) flip: g1_def)
  show ?thesis
  proof (cases "card (set ks) \<le> 300")
    case True
    then show ?thesis using out unfolding main by (simp add: obind_def st(2) db_paths_0 [OF b(5)] a(2) d(1))
  next
    case False
    then obtain rs ls p where w: "write_output os out (int bs) (Some d) ?pdb =
        Inr ((out @ show_int (int bs), concat (map (record_line show_u64) rs), ls), Some p)" "distribution_of ks rs" using out by auto
    then show ?thesis using False tallied_report [OF tal len] unfolding main
      by (auto simp: obind_def st(2) db_paths_0 [OF b(5)] a(2) d(1) close_db_def)
  qed
qed

text \<open>
  (C6) Analysing a device. Over any library that behaves like a map, the generator reads the whole
  device and counts its blocks by their digests. When more than 300 contents are different, it ends
  with the numbers of blocks, of contents without and with duplicates and of duplicate blocks, and
  writes, in the order of the database, for every number of duplicates how many contents have it.
  With 300 contents or less it writes before the start of the array of the histogram instead.
\<close>

theorem device_analysed:
  assumes "hash_db (go_lib os) content" and "hash_db (go_plib os) pcontent" and "gen_options args gen_initial = Inr gc"
    and "analysable os gc bs img" and "no_databases g" and "ks = block_keys (go_sha1 os) bs img"
  shows "if card (set ks) \<le> 300 then gen_main os args g f = Some (Inl Out_Of_Bounds)
    else (\<exists>rep rs ls g' f' out. gen_main os args g f = Some (Inr (0, [rep], g', f')) \<and> size_report ks bs rep \<and>
      gr_output rep = Some (out, concat (map (record_line show_u64) rs), ls) \<and> distribution_of ks rs)"
  by (rule gen_main_cases [OF assms])

text \<open>
  (C4) The benchmark reproduces the device that was analysed. The distribution file that the generator
  writes for a device is accepted by the benchmark, whose contents with duplicates then have exactly
  the numbers of occurrences that they have on the device, and whose total is the number of blocks
  of the device.
\<close>

theorem analysed_distribution_is_reproduced:
  assumes "hash_db (go_lib os) content" and "hash_db (go_plib os) pcontent" and "gen_options args gen_initial = Inr gc"
    and "analysable os gc bs img" and "no_databases g" and "ks = block_keys (go_sha1 os) bs img"
    and "300 < card (set ks)" and "repeated ks \<noteq> {}" and "card (repeated ks) < 2 ^ 31"
    and "duplicated_blocks info = 0" and "total_blocks info = 0"
    and "memory_available sos conf (word_of_nat (card (repeated ks)))"
  shows "\<exists>rep g' f' name txt ls info'. gen_main os args g f = Some (Inr (0, [rep], g', f')) \<and> gr_output rep = Some (name, txt, ls) \<and>
    load_distribution sos junk junk' (Some txt) conf info = Inr info' \<and> dist_ok info' \<and>
    mset (di_stats info') = filter_mset (\<lambda>c. 1 < c) (content_counts ks) \<and> unat (total_blocks info') = length img div bs"
proof -
  have "\<not> card (set ks) \<le> 300" using assms(7) by simp
  then obtain rep rs ls g' f' name where gen: "gen_main os args g f = Some (Inr (0, [rep], g', f'))"
    "gr_output rep = Some (name, concat (map (record_line show_u64) rs), ls)" "distribution_of ks rs"
    using gen_main_cases [OF assms(1-6), of f] by auto
  have "length img < 2 ^ 63" using assms(4) by (simp add: analysable_def)
  then have len: "length ks < 2 ^ 63" using order_le_less_trans [OF div_le_dividend, of "length img" _ bs] by (simp add: assms(6))
  let ?ls = "map (\<lambda>(n, c). (n + 1, c)) rs" let ?txt = "concat (map (record_line show_u64) rs)"
  note rec = distribution_record [OF gen(3) len] and cc = distribution_content_counts [OF gen(3) len]
  have parsed: "parse_all (replicate 50 NUL) ?txt = Inr ?ls" by (rule parse_records) (use rec(1,2) in auto)
  have nz: "\<forall>(dn, nb) \<in> set ?ls. dn \<noteq> 0" using rec(3) by auto
  have st: "mset (expand ?ls) = filter_mset (\<lambda>c. 1 < c) (content_counts ks)" by (simp only: expand_unfold mset_filter cc)
  then have size: "length (expand ?ls) = card (repeated ks)" by (metis content_counts_repeated [OF len] size_mset)
  have "finite (repeated ks)" using repeated_subset by (rule finite_subset) simp
  then have "expand ?ls \<noteq> []" using size assms(8) by auto
  moreover have "blocks_of ?ls = sum_mset (image_mset unat (mset (map (\<lambda>n. n + 1) (unfold_counts rs))))"
    unfolding blocks_of_unfold mset_map [of unat, symmetric] sum_mset_sum_list ..
  then have bl: "blocks_of ?ls = length ks" unfolding cc content_counts_sum [OF len] .
  moreover have "length (expand ?ls) < 2 ^ 31" "blocks_of ?ls < 2 ^ 64" using size assms(9) bl len by simp_all
  moreover have "memory_available sos conf (word_of_nat (length (expand ?ls)))" using assms(12) by (simp only: size)
  ultimately obtain info' where "load_distribution sos junk junk' (Some ?txt) conf info = Inr info'" "dist_ok info'"
    "di_stats info' = expand ?ls" "unat (total_blocks info') = blocks_of ?ls"
    using load_distribution_lines [OF parsed nz, of info sos conf junk junk'] assms(10,11) by auto
  then show ?thesis using gen(1,2) st bl by (auto simp: assms(6))
qed

section \<open>Digests and their texts\<close>

lemma nibbles:
  fixes b :: u8
  shows "unat (b AND 0x0f) = unat b mod 16" and "unat (drop_bit 4 (b AND 0xf0)) = unat b div 16"
proof -
  have m: "(0x0f :: u8) = mask 4" by (simp add: mask_eq_exp_minus_1)
  have t: "take_bit 4 (unat b div 16) = unat b div 16"
    using unat_less [of b] by (intro take_bit_nat_eq_self) (simp add: div_less_iff_less_mult)
  show "unat (b AND 0x0f) = unat b mod 16" unfolding m take_bit_eq_mask [symmetric] unsigned_take_bit_eq by (simp add: take_bit_eq_mod)
  have h: "drop_bit 4 (0xf0 :: u8) = 0x0f" by code_simp
  have "drop_bit 4 (b AND 0xf0) = take_bit 4 (drop_bit 4 b)" unfolding drop_bit_and h m take_bit_eq_mask ..
  then have "unat (drop_bit 4 (b AND 0xf0)) = take_bit 4 (drop_bit 4 (unat b))"
    by (simp only: unsigned_take_bit_eq unsigned_drop_bit_eq take_bit_nat_eq_self [OF unat_less])
  then show "unat (drop_bit 4 (b AND 0xf0)) = unat b div 16" using t by (simp add: drop_bit_eq_div)
qed

lemma byte_letters_inj:
  fixes x y :: u8
  shows "(char_of (97 + unat (x AND 0x0f)) = (char_of (97 + unat (y AND 0x0f)) :: char) \<and>
    char_of (97 + unat (drop_bit 4 (x AND 0xf0))) = (char_of (97 + unat (drop_bit 4 (y AND 0xf0))) :: char)) \<longleftrightarrow> x = y"
proof -
  have letter: "char_of (97 + m) = (char_of (97 + n) :: char) \<longleftrightarrow> m = n" if "m < 16" "n < 16" for m n :: nat
  proof
    assume "char_of (97 + m) = (char_of (97 + n) :: char)"
    then have "of_char (char_of (97 + m) :: char) = (of_char (char_of (97 + n) :: char) :: nat)" by simp
    then show "m = n" using that by (simp only: of_char_of) simp
  qed simp
  have "unat x < 2 ^ LENGTH(8)" "unat y < 2 ^ LENGTH(8)" by (rule unat_less)+
  then have "unat x div 16 < 16" "unat y div 16 < 16" by (simp_all add: div_less_iff_less_mult)
  moreover have "unat x mod 16 = unat y mod 16 \<and> unat x div 16 = unat y div 16 \<longleftrightarrow> unat x = unat y" by (metis div_mult_mod_eq)
  ultimately show ?thesis unfolding nibbles by (simp only: letter mod_less_divisor zero_less_numeral word_unat_eq_iff)
qed

lemma visual_hash_inj: "visual_hash xs = visual_hash ys \<longleftrightarrow> xs = ys"
proof (induction xs arbitrary: ys)
  case Nil
  then show ?case by (cases ys) (simp_all add: visual_hash_def)
next
  case (Cons x xs)
  then show ?case
    using byte_letters_inj [of x] by (cases ys) (simp_all only: visual_hash_def list.map concat.simps append.simps list.inject, simp, blast)
qed

section \<open>The utility\<close>

lemma merge_records_adds:
  assumes "hash_db lib content" and "distinct (map fst rs)"
  shows "\<exists>b m. merge_records lib rs (Some base) (i, j) = Inr (Some b, m) \<and>
    content b = (\<lambda>k. case map_of rs k of None \<Rightarrow> content base k
      | Some n \<Rightarrow> Some (case content base k of None \<Rightarrow> n | Some v \<Rightarrow> v + n))"
  using assms(2)
proof (induction rs arbitrary: base i j)
  case Nil
  then show ?case by simp
next
  case (Cons r rs)
  obtain hash n where r: "r = (hash, n)" by fastforce
  let ?v = "case content base hash of None \<Rightarrow> n | Some v \<Rightarrow> v + n"
  obtain base' where b: "db_insert lib base hash ?v = Some base'" "content base' = (content base)(hash \<mapsto> ?v)"
    using hash_db.insert_law [OF assms(1)] by blast
  obtain i' j' where step: "merge_records lib (r # rs) (Some base) (i, j) = merge_records lib rs (Some base') (i', j')"
    using b(1) by (simp add: r get_db_def put_db_def get_handle_def put_handle_def hash_db.lookup_law [OF assms(1)] split: option.splits)
  have new: "map_of rs hash = None" using Cons.prems by (simp add: r map_of_eq_None_iff)
  obtain b' m where m: "merge_records lib rs (Some base') (i', j') = Inr (Some b', m)"
    "content b' = (\<lambda>k. case map_of rs k of None \<Rightarrow> content base' k | Some n \<Rightarrow> Some (case content base' k of None \<Rightarrow> n | Some v \<Rightarrow> v + n))"
    using Cons.IH [of base' i' j'] Cons.prems by auto
  have "content b' = (\<lambda>k. case map_of (r # rs) k of None \<Rightarrow> content base k | Some n \<Rightarrow> Some (case content base k of None \<Rightarrow> n | Some v \<Rightarrow> v + n))"
    unfolding m(2) b(2) by (auto simp: r new fun_eq_iff split: option.split)
  then show ?case using m(1) step by auto
qed

lemma merge_dbs_adds:
  \<comment> \<open>merging adds the counters\<close>
  assumes "hash_db lib content"
  shows "\<exists>b m. merge_dbs lib (Some d) (Some base) = Inr (Some b, m) \<and>
    content b = (\<lambda>k. case content d k of None \<Rightarrow> content base k
      | Some n \<Rightarrow> Some (case content base k of None \<Rightarrow> n | Some v \<Rightarrow> v + n))"
  using merge_records_adds [OF assms hash_db.records_distinct [OF assms], of d base 0 0]
  by (simp add: merge_dbs_def hash_db.records_content [OF assms])

lemma merge_small_nonzero:
  assumes "merge_small i dups = Inr dups'" and "dups ! 0 = 0" and "i < length dups"
  shows "\<exists>j \<ge> 1. j < length dups' \<and> dups' ! j \<noteq> 0"
  using assms
proof (induction i arbitrary: dups)
  case 0
  then show ?case by simp
next
  case (Suc i)
  show ?case
  proof (cases "dups ! Suc i \<le> 300")
    case True
    let ?d = "dups[i := dups ! i + dups ! Suc i, Suc i := 0]"
    have m: "merge_small i ?d = Inr dups'" using Suc.prems(1) True by simp
    show ?thesis
    proof (cases i)
      case 0
      then have "0 < length dups" using Suc.prems(3) by linarith
      then have "?d ! 0 \<le> 300" using 0 Suc.prems(2,3) True by simp
      then show ?thesis using m 0 by simp
    next
      case (Suc k)
      then show ?thesis using Suc.IH [OF m] Suc.prems(2,3) by simp
    qed
  next
    case False
    then have "dups' = dups" "dups ! Suc i \<noteq> 0" using Suc.prems(1) by (auto simp: word_le_nat_alt)
    then show ?thesis using Suc.prems(3) by (intro exI [of _ "Suc i"]) simp
  qed
qed

lemma cumul_lines_ne: "i \<le> j \<Longrightarrow> j < length dups \<Longrightarrow> dups ! j \<noteq> 0 \<Longrightarrow> cumul_lines dups i init final \<noteq> []"
proof (induction dups i init final rule: cumul_lines.induct)
  case (1 dups i init final)
  then have "j = i \<or> j = Suc i \<or> i + 2 \<le> j" by arith
  then show ?case using 1 by (subst cumul_lines.simps) auto
qed

lemma count_records_no_zero:
  assumes "count_records False rs dups mx = Inr (zs, dups', mx')" and "histogram_ok dups mx"
  shows "dups' ! 0 = dups ! 0 \<and> histogram_ok dups' mx'"
  using assms
proof (induction rs arbitrary: dups mx)
  case Nil
  then show ?case by simp
next
  case (Cons r rs)
  obtain key cont where r: "r = (key, cont)" by fastforce
  then have nz: "key \<noteq> 0" using Cons.prems(1) by auto
  let ?p = "nat (access_pos key)"
  have p: "1 \<le> access_pos key" "access_pos key \<le> 42" using access_pos_range [OF nz] by simp_all
  have len: "length dups = 50" using Cons.prems(2) by (simp add: histogram_ok_def)
  have "histogram_ok (dups[?p := dups ! ?p + cont]) (max (access_pos key) mx)"
    using Cons.prems(2) p by (auto simp: histogram_ok_def nth_list_update)
  then show ?case using Cons.IH [of "dups[?p := dups ! ?p + cont]" "max (access_pos key) mx"] Cons.prems(1) nz p len
    by (auto simp: r Let_def nth_list_update split: if_splits)
qed

lemma no_histogram_no_output:
  \<comment> \<open>without a file for the histogram, which is how the utility calls it, printing never succeeds\<close>
  "\<exists>e. print_elements_print plib dbp False = Inl e"
proof (cases "print_elements_print plib dbp False")
  case (Inr out)
  then obtain d zs dups mx dups' where c: "count_records False (db_records plib d) (replicate 50 0) 0 = Inr (zs, dups, mx)"
    "merge_small (nat mx) dups = Inr dups'" "cumul_lines dups' 1 1 10 = []"
    by (auto simp: print_elements_print_def rbind_Inr_iff Let_def split: option.splits if_splits)
  have "histogram_ok (replicate 50 0) 0" by (simp add: histogram_ok_def)
  from count_records_no_zero [OF c(1) this] have d: "dups ! 0 = 0" "histogram_ok dups mx" by simp_all
  have "nat mx < length dups" using d(2) by (auto simp: histogram_ok_def)
  from merge_small_nonzero [OF c(2) d(1) this] obtain j where "1 \<le> j" "j < length dups'" "dups' ! j \<noteq> 0" by blast
  then show ?thesis using cumul_lines_ne [of 1 j dups' 1 10] c(3) by simp
qed simp

section \<open>A concrete device\<close>

definition demo_block :: "nat \<Rightarrow> string" where
  "demo_block i = [char_of (i div 256), char_of (i mod 256)]"

definition demo_blocks :: "string list" where
  \<comment> \<open>301 different contents, the first of them twice\<close>
  "demo_blocks = map demo_block [0..<301] @ [demo_block 0]"

abbreviation demo_image :: string where
  "demo_image \<equiv> concat demo_blocks"

definition image_io :: "string \<Rightarrow> unit file_io" where
  "image_io img = \<lparr>io_open = (\<lambda>_ _ _ f. (3, f)), io_pwrite = (\<lambda>_ _ _ f. (-1, f)),
     io_pread = (\<lambda>_ n off f. let s = take (unat n) (drop (unat off) img) in (int (length s), s, f)),
     io_fsync = (\<lambda>_ f. f), io_close = (\<lambda>_ f. f), io_system = (\<lambda>_ f. (0, f))\<rparr>"

definition char_byte :: "char \<Rightarrow> u8" where
  "char_byte c = word_of_nat (of_char c)"

lemma char_byte_inj: "inj char_byte"
proof (rule injI)
  fix a b
  assume "char_byte a = char_byte b"
  moreover have "of_char c < (2 :: nat) ^ LENGTH(8)" for c using nat_of_char_less_256 [of c] by simp
  ultimately have "of_char a = (of_char b :: nat)" unfolding char_byte_def by (intro word_of_nat_eq_small)
  then show "a = b" by simp
qed

abbreviation gen_demo_os :: "((string \<times> u64) list, (u64 \<times> u64) list, unit) gen_os" where
  "gen_demo_os \<equiv> \<lparr>go_io = image_io demo_image, go_lib = alist_db, go_plib = alist_db, go_sha1 = map char_byte,
     go_rm = \<lparr>rm_opendir = \<lambda>_. False, rm_stat = \<lambda>_. False, rm_unlink = \<lambda>_. False, rm_rmdir = \<lambda>_. False\<rparr>,
     go_dir = (\<lambda>_. Plain_File), go_opendir = (\<lambda>_. False), go_tree = (\<lambda>_. DT_REG), go_fopen = (\<lambda>_. True)\<rparr>"

abbreviation gen_demo_args :: "string list" where
  "gen_demo_args \<equiv> [''-d'', ''-p/dev/sdb'', ''-b2'', ''-odist'']"

abbreviation gen_demo_conf :: gen_conf where
  "gen_demo_conf \<equiv> gen_initial\<lparr>gc_type := DEVICE, gc_path := Some ''/dev/sdb'', gc_nsizes := 1, gc_sizes := [Some 2], gc_output := Some ''dist''\<rparr>"

abbreviation no_dbs :: "('d, 'e) gen_dbs" where
  "no_dbs \<equiv> \<lparr>gd_files = \<lambda>_. None, gd_pfiles = \<lambda>_. None\<rparr>"

lemma gen_demo_options: "gen_options gen_demo_args gen_initial = Inr gen_demo_conf"
  by code_simp

lemma image_served: "serves_image (image_io img) fd img (\<lambda>_. True)"
  by (simp add: serves_image_def image_io_def Let_def)

lemma length_demo_image: "length demo_image = 604"
  by (simp add: length_concat demo_blocks_def demo_block_def comp_def sum_list_triv)

lemma gen_demo_analysable: "analysable gen_demo_os gen_demo_conf 2 demo_image"
proof -
  have "gen_checks gen_demo_conf = Inr (''/dev/sdb'', [Some (int 2)])" by (simp add: gen_checks_def gen_initial_def)
  moreover have "io_open (image_io demo_image) False False ''/dev/sdb'' f = (3, f)" for f by (simp add: image_io_def)
  ultimately show ?thesis using image_served [of demo_image 3] length_demo_image
    by (fastforce simp: analysable_def gen_initial_def alist_db_def)
qed

lemma blocks_in_concat:
  assumes "0 < bs" and "\<forall>b \<in> set bls. length b = bs"
  shows "blocks_in bs (concat bls) = bls"
  using assms(2)
proof (induction bls)
  case Nil
  then show ?case by (simp add: blocks_in_def)
next
  case (Cons b bls)
  then show ?case using blocks_in_append [OF assms(1), of b "concat bls"] blocks_in_one [OF _ assms(1), of b] by simp
qed

definition demo_key :: "string \<Rightarrow> string" where
  "demo_key b = visual_hash (map char_byte b)"

lemma demo_keys: "block_keys (go_sha1 gen_demo_os) 2 demo_image = map demo_key demo_blocks"
  using blocks_in_concat [of 2 demo_blocks] by (auto simp: block_keys_def demo_blocks_def demo_block_def demo_key_def)

lemma demo_key_inj: "inj demo_key"
proof (rule injI)
  fix a b
  assume "demo_key a = demo_key b"
  then have "map char_byte a = map char_byte b" by (simp add: demo_key_def visual_hash_inj)
  then show "a = b" by (rule map_injective) (rule char_byte_inj)
qed

lemma demo_block_inj: "inj_on demo_block {0..<301}"
proof (rule inj_onI)
  fix i j
  assume "i \<in> {0..<301}" "j \<in> {0..<301}" "demo_block i = demo_block j"
  then have "of_char (char_of (i div 256) :: char) = (of_char (char_of (j div 256) :: char) :: nat)"
    "of_char (char_of (i mod 256) :: char) = (of_char (char_of (j mod 256) :: char) :: nat)" "i div 256 < 256" "j div 256 < 256"
    by (auto simp: demo_block_def)
  then have "i div 256 = j div 256" "i mod 256 = j mod 256" by (simp_all only: of_char_of) simp_all
  then show "i = j" by (metis div_mult_mod_eq)
qed

lemma demo_distinct: "card (set (map demo_key demo_blocks)) = 301"
proof -
  have "set (map demo_key demo_blocks) = demo_key ` demo_block ` {0..<301}" by (auto simp: demo_blocks_def)
  then show ?thesis using card_image [OF demo_block_inj] card_image [OF inj_on_subset [OF demo_key_inj], of "demo_block ` {0..<301}"] by simp
qed

lemma demo_repeated: "repeated (map demo_key demo_blocks) \<noteq> {}" "card (repeated (map demo_key demo_blocks)) < 2 ^ 31"
proof -
  have "[0..<301] = 0 # [1..<301]" by (simp add: upt_rec [of 0])
  then have "demo_key (demo_block 0) \<in> repeated (map demo_key demo_blocks)" by (simp add: repeated_def demo_blocks_def)
  then show "repeated (map demo_key demo_blocks) \<noteq> {}" by blast
  have "card (repeated (map demo_key demo_blocks)) \<le> 301"
    using card_mono [OF _ repeated_subset [of "map demo_key demo_blocks"]] demo_distinct by simp
  then show "card (repeated (map demo_key demo_blocks)) < 2 ^ 31" by simp
qed

theorem device_analysed_witness:
  "\<exists>rep rs ls g' f' out. gen_main gen_demo_os gen_demo_args no_dbs () = Some (Inr (0, [rep], g', f')) \<and>
     unat (gr_total rep) = 302 \<and> gr_output rep = Some (out, concat (map (record_line show_u64) rs), ls) \<and>
     distribution_of (map demo_key demo_blocks) rs"
proof -
  have "no_databases (no_dbs :: ((string \<times> u64) list, (u64 \<times> u64) list) gen_dbs)" by (simp add: no_databases_def)
  note p = device_analysed [OF _ _ gen_demo_options gen_demo_analysable this refl, unfolded demo_keys demo_distinct, of map_of map_of "()"]
  have "length demo_blocks = 302" by (simp add: demo_blocks_def)
  moreover have "hash_db (go_lib gen_demo_os) map_of" "hash_db (go_plib gen_demo_os) map_of" using al.hash_db_axioms by simp_all
  ultimately show ?thesis using p by (fastforce simp: size_report_def)
qed

theorem analysed_distribution_is_reproduced_witness:
  "\<exists>rep g' f' name txt ls info'. gen_main gen_demo_os gen_demo_args no_dbs () = Some (Inr (0, [rep], g', f')) \<and>
     gr_output rep = Some (name, txt, ls) \<and> load_distribution good_os (\<lambda>_. 0) (\<lambda>_. 0) (Some txt) (initial_conf 0) empty_info = Inr info' \<and>
     unat (total_blocks info') = 302"
proof -
  have "no_databases (no_dbs :: ((string \<times> u64) list, (u64 \<times> u64) list) gen_dbs)" by (simp add: no_databases_def)
  note p = analysed_distribution_is_reproduced [OF _ _ gen_demo_options gen_demo_analysable this refl, unfolded demo_keys demo_distinct,
    OF _ _ _ demo_repeated, of map_of map_of empty_info good_os "initial_conf 0" "()" "\<lambda>_. 0" "\<lambda>_. 0", unfolded length_demo_image]
  have "hash_db (go_lib gen_demo_os) map_of" "hash_db (go_plib gen_demo_os) map_of" using al.hash_db_axioms by simp_all
  then show ?thesis using p by (fastforce simp: memory_available_def initial_conf_def)
qed


end
