(* ===== verification/Fbd_Console.thy ===== *)
theory Fbd_Console
  imports Dedis_Faults Dedis_Populate
begin

text \<open>
  \<^verbatim>\<open>fbdd/fconsole/fconsole.c\<close>, \<^verbatim>\<open>fbdd/fconsole/fdevice.c\<close> and \<^verbatim>\<open>fbdd/fsweeper/fsweeper.c\<close>: the console with which
  a user writes to and reads from the device and asks the driver for faults. The system calls are the
  record \<open>file_io\<close>, the requests are those of theory \<open>Fsp_Protocol\<close>, and the command line is the list of the
  options and arguments that \<^verbatim>\<open>getopt_long\<close> returns, an argument being None for a null pointer. The
  function \<^verbatim>\<open>f_tests\<close>, whose only call is commented out, is not modelled.
\<close>

section \<open>Devices\<close>

abbreviation MODE_PREFIX :: int where "MODE_PREFIX \<equiv> 0"
abbreviation MODE_APPEND :: int where "MODE_APPEND \<equiv> 1"

record f_device =
  fd_no :: int
  fd_offSet :: u64
  fd_lastWrite :: u64
  fd_mode :: int
  fd_lastOpFailed :: bool

definition checkfd :: "int \<Rightarrow> unit res" where
  "checkfd fd = (if fd < 0 then Inl (Exit 1) else Inr ())"

definition updateOffSet_LastWrite :: "f_device \<Rightarrow> int \<Rightarrow> f_device" where
  "updateOffSet_LastWrite d n =
     (if fd_mode d = MODE_APPEND
      then let d1 = (if fd_offSet d \<noteq> fd_lastWrite d then d\<lparr>fd_lastWrite := fd_offSet d\<rparr> else d)
           in d1\<lparr>fd_offSet := fd_offSet d1 + word_of_int n\<rparr>
      else d\<lparr>fd_offSet := fd_lastWrite d\<rparr>)"

definition f_new_device :: "int \<Rightarrow> f_device" where
  "f_new_device fd = \<lparr>fd_no = fd, fd_offSet = 0, fd_lastWrite = 0, fd_mode = MODE_PREFIX, fd_lastOpFailed = False\<rparr>"

definition f_open :: "'f file_io \<Rightarrow> string \<Rightarrow> f_device \<Rightarrow> 'f \<Rightarrow> (f_device \<times> 'f) res" where
  "f_open io path d f =
     (let f1 = (if fd_no d \<ge> 0 then io_close io (fd_no d) f else f) in
      case io_open io True True path f1 of (fd, f2) \<Rightarrow> if fd = -1 then Inl (Exit 1) else Inr (d\<lparr>fd_no := fd\<rparr>, f2))"

definition f_write :: "'f file_io \<Rightarrow> f_device \<Rightarrow> string \<Rightarrow> u32 \<Rightarrow> 'f \<Rightarrow> (int \<times> f_device \<times> 'f) res" where
  \<comment> \<open>the flag is set by a write that succeeds and cleared by one that fails\<close>
  "f_write io d buf n f =
     rbind (checkfd (fd_no d)) (\<lambda>_.
     if length buf < unat n then Inl Out_Of_Bounds
     else case io_pwrite io (fd_no d) (take (unat n) buf) (fd_offSet d) f of (w, f') \<Rightarrow>
       if w < 0 then Inr (w, d\<lparr>fd_lastOpFailed := False\<rparr>, f')
       else Inr (w, updateOffSet_LastWrite (d\<lparr>fd_lastOpFailed := True\<rparr>) w, f'))"

definition f_write_block :: "'f file_io \<Rightarrow> f_device \<Rightarrow> string \<Rightarrow> u32 \<Rightarrow> u64 \<Rightarrow> 'f \<Rightarrow> (int \<times> f_device \<times> 'f) res" where
  "f_write_block io d buf n offSet f = f_write io (d\<lparr>fd_offSet := offSet\<rparr>) buf n f"

definition f_read :: "'f file_io \<Rightarrow> f_device \<Rightarrow> string \<Rightarrow> u32 \<Rightarrow> 'f \<Rightarrow> (int \<times> f_device \<times> string \<times> 'f) res" where
  \<comment> \<open>reads at \<^verbatim>\<open>lastWrite\<close>; storing behind the end of the buffer is out of bounds\<close>
  "f_read io d buf n f =
     rbind (checkfd (fd_no d)) (\<lambda>_.
     case io_pread io (fd_no d) (ucast n) (fd_lastWrite d) f of (r, data, f') \<Rightarrow>
       if length buf < length data then Inl Out_Of_Bounds
       else Inr (r, d\<lparr>fd_lastOpFailed := r < 0\<rparr>, blit 0 data buf, f'))"

definition f_read_block :: "'f file_io \<Rightarrow> f_device \<Rightarrow> string \<Rightarrow> u32 \<Rightarrow> u64 \<Rightarrow> 'f \<Rightarrow> (int \<times> f_device \<times> string \<times> 'f) res" where
  "f_read_block io d buf n offSet f = f_read io (d\<lparr>fd_lastWrite := offSet\<rparr>) buf n f"

definition f_close :: "'f file_io \<Rightarrow> f_device \<Rightarrow> 'f \<Rightarrow> 'f" where
  "f_close io d f = (if fd_no d \<ge> 0 then io_close io (fd_no d) f else f)"

section \<open>Scanning arguments\<close>

datatype scan_item = Lit char | Dec | ULong | Str
datatype scan_val = Num int | Txt string

definition scan_number :: "string \<Rightarrow> (int \<times> string) option" where
  \<comment> \<open>blanks, a sign and at least one digit\<close>
  "scan_number s =
     (let t = dropWhile is_space s; signed = (t \<noteq> [] \<and> (hd t = CHR ''-'' \<or> hd t = CHR ''+''));
          u = (if signed then tl t else t)
      in if takeWhile is_digit u = [] then None
         else Some (if signed \<and> hd t = CHR ''-'' then - int (read_digits u) else int (read_digits u), dropWhile is_digit u))"

fun sscanf :: "scan_item list \<Rightarrow> string \<Rightarrow> scan_val list \<times> bool" where
  \<comment> \<open>the values that are stored, and whether the input ended before an item\<close>
  "sscanf [] s = ([], False)"
| "sscanf (Lit c # fs) s = (if s = [] then ([], True) else if hd s = c then sscanf fs (tl s) else ([], False))"
| "sscanf (Str # fs) s =
     (let t = dropWhile is_space s in
      if t = [] then ([], True)
      else map_prod ((#) (Txt (takeWhile (\<lambda>c. \<not> is_space c) t))) id (sscanf fs (dropWhile (\<lambda>c. \<not> is_space c) t)))"
| "sscanf (f # fs) s =
     (if dropWhile is_space s = [] then ([], True)
      else case scan_number s of None \<Rightarrow> ([], False) | Some (v, rest) \<Rightarrow> map_prod ((#) (Num v)) id (sscanf fs rest))"

definition scanned :: "scan_val list \<times> bool \<Rightarrow> int" where
  \<comment> \<open>the result of \<^verbatim>\<open>sscanf\<close>\<close>
  "scanned r = (if fst r = [] \<and> snd r then -1 else int (length (fst r)))"

definition num_of :: "scan_val \<Rightarrow> int" where
  "num_of v = (case v of Num n \<Rightarrow> n | Txt _ \<Rightarrow> 0)"

definition txt_of :: "scan_val \<Rightarrow> string" where
  "txt_of v = (case v of Num _ \<Rightarrow> [] | Txt t \<Rightarrow> t)"

definition as_u32 :: "scan_val \<Rightarrow> u32" where
  \<comment> \<open>\<^verbatim>\<open>%d\<close>: the number saturates as a \<^verbatim>\<open>long\<close> and its low 32 bits are stored\<close>
  "as_u32 v = word_of_int (max (- (2 ^ 63)) (min (2 ^ 63 - 1) (num_of v)))"

definition as_u64 :: "scan_val \<Rightarrow> u64" where
  \<comment> \<open>\<^verbatim>\<open>%lu\<close>: too large a number becomes the largest one\<close>
  "as_u64 v = (if \<bar>num_of v\<bar> < 2 ^ 64 then word_of_int (num_of v) else -1)"

definition offSets_from_arg :: "string \<Rightarrow> (u32 \<times> u64) option" where
  "offSets_from_arg arg =
     (let r = sscanf [Lit (CHR ''(''), Dec, Lit (CHR '':''), ULong, Lit (CHR '')'')] arg in
      if scanned r = 2 then Some (as_u32 (fst r ! 0), as_u64 (fst r ! 1)) else None)"

definition c_string :: "string \<Rightarrow> string res" where
  \<comment> \<open>the string that starts a piece of memory\<close>
  "c_string mem = (if NUL \<in> set mem then Inr (takeWhile (\<lambda>c. c \<noteq> NUL) mem) else Inl Out_Of_Bounds)"

definition strcpy :: "string \<Rightarrow> string \<Rightarrow> string res" where
  "strcpy buf s = (if length s < length buf then Inr (blit 0 (s @ [NUL]) buf) else Inl Out_Of_Bounds)"

function replicate_at :: "string \<Rightarrow> u64 \<Rightarrow> int \<Rightarrow> nat \<Rightarrow> string \<Rightarrow> string res" where
  \<comment> \<open>the loop of \<^verbatim>\<open>arg_with_offSets\<close>: \<open>i\<close> is an \<^verbatim>\<open>int\<close> that is compared with the end as a 64-bit number\<close>
  "replicate_at w stop i pos buf =
     (if w \<noteq> [] \<and> word_of_int i < stop
      then let sizecpy = (if stop \<le> word_of_int (to_int (int (length w) + i)) then unat (stop - word_of_int i) else length w) in
        if length buf < pos + sizecpy \<or> length w < sizecpy then Inl Out_Of_Bounds
        else replicate_at w stop (to_int (i + int (length w))) (pos + sizecpy) (blit pos (take sizecpy w) buf)
      else Inr buf)"
  by pat_completeness auto

lemma blit_in_length: "pos + length xs \<le> length buf \<Longrightarrow> length (blit pos xs buf) = length buf"
  by (simp add: blit_def)

termination replicate_at
proof (relation "measure (\<lambda>(w, stop, i, pos, buf). length buf - pos)", goal_cases)
  case (2 w stop i pos buf sizecpy)
  have "unat (stop - word_of_int i) \<noteq> 0" using 2(1) by (auto simp: unat_eq_0)
  then have "0 < sizecpy" using 2(1,2) by auto
  moreover have "pos + sizecpy \<le> length buf" "length (take sizecpy w) = sizecpy" using 2(3) by auto
  ultimately show ?case by (simp add: blit_in_length)
qed simp

declare replicate_at.simps [simp del]

definition arg_with_offSets :: "string \<Rightarrow> string \<Rightarrow> u64 \<Rightarrow> (u32 \<times> string \<times> u64) res" where
  \<comment> \<open>the length, the buffer and the offset\<close>
  "arg_with_offSets arg buf default_offSet =
     (let r = sscanf [Lit (CHR ''(''), Dec, Lit (CHR '':''), ULong, Lit (CHR '')''), Str] arg in
      if scanned r = 3
      then let n = as_u32 (fst r ! 0); offSet = as_u64 (fst r ! 1); w = txt_of (fst r ! 2) in
        rbind (strcpy buf w) (\<lambda>buf1.
        rbind (replicate_at w (offSet + ucast n) (sint (ucast offSet :: u32)) 0 buf1) (\<lambda>buf2.
          Inr (n, buf2, offSet)))
      else rbind (strcpy buf arg) (\<lambda>buf1. Inr (word_of_nat (length arg), buf1, default_offSet)))"

definition arg_with_offSet_timeMS :: "string \<Rightarrow> (u32 \<times> u64 \<times> u64) option" where
  "arg_with_offSet_timeMS arg =
     (let r = sscanf [Lit (CHR ''(''), Dec, Lit (CHR '':''), ULong, Lit (CHR '')''), ULong] arg in
      if scanned r = 3 then Some (as_u32 (fst r ! 0), as_u64 (fst r ! 1), as_u64 (fst r ! 2)) else None)"

partial_function (option) replicate_from :: "string \<Rightarrow> int \<Rightarrow> int \<Rightarrow> nat \<Rightarrow> string \<Rightarrow> string res option" where
  \<comment> \<open>the loop of \<^verbatim>\<open>arg_replicate_content\<close>, which does not end for an empty text\<close>
  "replicate_from w n i pos buf =
     (if i < n
      then let cpylen = (if i + int (length w) \<ge> n then nat (n - i) else length w) in
        if length buf < pos + cpylen \<or> length w < cpylen then Some (Inl Out_Of_Bounds)
        else replicate_from w n (i + int (length w)) (pos + cpylen) (blit pos (take cpylen w) buf)
      else Some (Inr buf))"

definition arg_replicate_content :: "bool \<Rightarrow> string \<Rightarrow> string \<Rightarrow> (int \<times> u32 \<times> string) res option" where
  \<comment> \<open>the size, the time and the buffer; with a time any number of scanned items but 0 will do\<close>
  "arg_replicate_content timed arg buf =
     (let r = sscanf (if timed then [Dec, Lit (CHR ''(''), Dec, Lit (CHR '')''), Str] else [Lit (CHR ''(''), Dec, Lit (CHR '')''), Str]) arg;
          vals = (if timed then drop 1 (fst r) else fst r);
          time_ms = (if timed \<and> fst r \<noteq> [] then as_u32 (fst r ! 0) else 0);
          n = (if vals \<noteq> [] then sint (as_u32 (vals ! 0)) else 0)
      in if (if timed then scanned r \<noteq> 0 else scanned r = 2)
         then obind (Some (if length vals = 2 then strcpy buf (txt_of (vals ! 1)) else Inr buf)) (\<lambda>buf1.
              obind (Some (c_string buf1)) (\<lambda>w.
              obind (replicate_from w n 0 0 buf1) (\<lambda>buf2. Some (Inr (n, time_ms, buf2)))))
         else obind (Some (strcpy buf arg)) (\<lambda>buf1. Some (Inr (int (length arg), time_ms, buf1))))"

definition arg_true_or_false :: "string \<Rightarrow> bool \<Rightarrow> bool" where
  "arg_true_or_false arg default_bool = (if arg = ''true'' then True else if arg = ''false'' then False else default_bool)"

section \<open>Checking contents\<close>

fun strcmp_eq :: "string \<Rightarrow> string \<Rightarrow> bool res" where
  \<comment> \<open>whether \<^verbatim>\<open>strcmp\<close> of two pieces of memory is 0\<close>
  "strcmp_eq (a # as) (b # bs) = (if a \<noteq> b then Inr False else if a = NUL then Inr True else strcmp_eq as bs)"
| "strcmp_eq as bs = Inl Out_Of_Bounds"

definition fw_sweep_block ::
    "hash_lib \<Rightarrow> 'f file_io \<Rightarrow> int \<Rightarrow> string \<Rightarrow> u32 \<Rightarrow> u64 \<Rightarrow> string \<Rightarrow> 'f \<Rightarrow> (bool \<times> string \<times> 'f) res" where
  \<comment> \<open>the digest is computed and not used\<close>
  "fw_sweep_block lib io fd buf n offSet expected_content f =
     rbind (fsp_string_to_hash lib (bytes_of expected_content) n) (\<lambda>_.
     rbind (c_string expected_content) (\<lambda>e.
     rbind (strcpy buf e) (\<lambda>buf1.
     case io_pread io fd (ucast n) offSet f of (r, data, f') \<Rightarrow>
       if length buf1 < length data then Inl Out_Of_Bounds
       else let buf2 = blit 0 data buf1 in
         if r < 0 then Inr (False, buf2, f')
         else rbind (strcmp_eq expected_content buf2) (\<lambda>eq. Inr (eq, buf2, f')))))"

section \<open>Options\<close>

abbreviation BLOCK_SIZE :: nat where "BLOCK_SIZE \<equiv> 4096"
abbreviation MAX_BUF_SIZE :: nat where "MAX_BUF_SIZE \<equiv> 8192"

datatype console_msg =
    Response char int
  | Sending_Dedup u32 string
  | Read_Text int string
  | Read_Failed
  | Hash_Text bytes
  | Resilient u64 bool
  | As_Expected
  | Not_Expected bool
  | Wrong_Input

record ('f, 's) console =
  cs_dev :: f_device
  cs_buf :: string
  cs_hash :: bool
  cs_dedup :: bool
  cs_persistent :: bool
  cs_files :: 'f
  cs_sock :: 's
  cs_out :: "console_msg list"

definition say :: "console_msg \<Rightarrow> ('f, 's) console \<Rightarrow> ('f, 's) console" where
  "say m cs = cs\<lparr>cs_out := cs_out cs @ [m]\<rparr>"

definition answered :: "char \<Rightarrow> (int \<times> 's) res \<Rightarrow> ('f, 's) console \<Rightarrow> ('f, 's) console res" where
  "answered c r cs = rbind r (\<lambda>(res, s). Inr (say (Response c res) (cs\<lparr>cs_sock := s\<rparr>)))"

definition opt_write :: "'f file_io \<Rightarrow> string \<Rightarrow> ('f, 's) console \<Rightarrow> ('f, 's) console res" where
  "opt_write io arg cs =
     rbind (arg_with_offSets arg (cs_buf cs) (fd_offSet (cs_dev cs))) (\<lambda>(len, buf, offSet).
     rbind (f_write io ((cs_dev cs)\<lparr>fd_offSet := offSet\<rparr>) buf len (cs_files cs)) (\<lambda>(w, d, f).
       Inr (cs\<lparr>cs_dev := d, cs_buf := buf, cs_files := f\<rparr>)))"

definition read_some :: "'f file_io \<Rightarrow> string option \<Rightarrow> nat \<Rightarrow> ('f, 's) console \<Rightarrow> (int \<times> ('f, 's) console) res" where
  "read_some io arg dflt cs =
     rbind (case Option.bind arg offSets_from_arg of
              Some (n, offSet) \<Rightarrow> f_read_block io (cs_dev cs) (cs_buf cs) n offSet (cs_files cs)
            | None \<Rightarrow> f_read io (cs_dev cs) (cs_buf cs) (word_of_nat dflt) (cs_files cs)) (\<lambda>(n, d, buf, f).
       Inr (n, cs\<lparr>cs_dev := d, cs_buf := buf, cs_files := f\<rparr>))"

definition opt_read :: "'f file_io \<Rightarrow> string option \<Rightarrow> ('f, 's) console \<Rightarrow> ('f, 's) console res" where
  \<comment> \<open>without an argument \<^verbatim>\<open>MAX_BUF_SIZE\<close> bytes are asked for; the buffer is printed as a string\<close>
  "opt_read io arg cs =
     rbind (read_some io arg MAX_BUF_SIZE cs) (\<lambda>(n, cs1).
     if n < 0 then Inr (say Read_Failed cs1)
     else rbind (c_string (cs_buf cs1)) (\<lambda>t. Inr (say (Read_Text n t) cs1)))"

definition opt_read_hash :: "hash_lib \<Rightarrow> 'f file_io \<Rightarrow> string \<Rightarrow> ('f, 's) console \<Rightarrow> ('f, 's) console res" where
  "opt_read_hash lib io arg cs =
     rbind (read_some io (Some arg) BLOCK_SIZE cs) (\<lambda>(n, cs1).
     if n < 0 then Inr (say (Hash_Text (replicate 17 0)) (say Read_Failed cs1))
     else rbind (fsp_string_to_hash lib (bytes_of (cs_buf cs1)) (word_of_nat BLOCK_SIZE)) (\<lambda>h. Inr (say (Hash_Text h) cs1)))"

definition arg_check_content :: "hash_lib \<Rightarrow> 'f file_io \<Rightarrow> string \<Rightarrow> ('f, 's) console \<Rightarrow> ('f, 's) console res" where
  \<comment> \<open>the offset of the argument goes to \<^verbatim>\<open>lastWrite\<close>, the block at \<^verbatim>\<open>offSet\<close> is checked\<close>
  "arg_check_content lib io arg cs =
     rbind (arg_with_offSets arg (replicate MAX_BUF_SIZE NUL) (fd_lastWrite (cs_dev cs))) (\<lambda>(len, content, lw).
     let d = (cs_dev cs)\<lparr>fd_lastWrite := lw\<rparr> in
     rbind (fw_sweep_block lib io (fd_no d) (cs_buf cs) len (fd_offSet d) content (cs_files cs)) (\<lambda>(ok, buf, f).
       Inr (say (Resilient (fd_offSet d) ok) (cs\<lparr>cs_dev := d, cs_buf := buf, cs_files := f\<rparr>))))"

definition opt_error :: "string \<Rightarrow> ('f, 's) console \<Rightarrow> ('f, 's) console" where
  "opt_error arg cs =
     (let occurred = fd_lastOpFailed (cs_dev cs) in
      say (if arg_true_or_false arg True = occurred then As_Expected else Not_Expected occurred) cs)"

definition with_content ::
    "bool \<Rightarrow> string \<Rightarrow> ('f, 's) console \<Rightarrow> (u32 \<Rightarrow> u32 \<Rightarrow> bytes \<Rightarrow> ('f, 's) console \<Rightarrow> ('f, 's) console res) \<Rightarrow> ('f, 's) console res option" where
  \<comment> \<open>the size of the content, the time and the content for a request by hash or by deduplication\<close>
  "with_content timed arg cs send =
     obind (arg_replicate_content timed arg (cs_buf cs)) (\<lambda>(n, time_ms, buf).
       Some (send (word_of_int n) time_ms (bytes_of buf) (cs\<lparr>cs_buf := buf\<rparr>)))"

definition opt_bit_w :: "'s fault_env \<Rightarrow> string option \<Rightarrow> ('f, 's) console \<Rightarrow> ('f, 's) console res option" where
  \<comment> \<open>before a request by deduplication the buffer is printed as a string\<close>
  "opt_bit_w env arg cs =
     (let lib = env_lib env; stack = env_stack env; fresh = env_fresh env; sock = env_sock env; s = cs_sock cs; b = CHR ''b''; keep = cs_persistent cs in
      case arg of
        None \<Rightarrow> Some (answered b (fsp_add_bit_flip_device_write fresh sock s keep) cs)
      | Some a \<Rightarrow>
          (case if cs_hash cs then None else offSets_from_arg a of
             Some (n, offSet) \<Rightarrow> Some (answered b (fsp_add_bit_flip_block_write fresh sock s n offSet keep) cs)
           | None \<Rightarrow>
               if cs_hash cs
               then with_content False a cs (\<lambda>n _ content cs'.
                      if cs_dedup cs
                      then rbind (c_string (cs_buf cs')) (\<lambda>t.
                             answered b (fsp_add_bit_flip_dedup_write lib stack fresh sock s n content keep) (say (Sending_Dedup n t) cs'))
                      else answered b (fsp_add_bit_flip_hash_write lib stack fresh sock s n content keep) cs')
               else Some (Inr (say Wrong_Input cs))))"

definition opt_bit_r :: "'s fault_env \<Rightarrow> string option \<Rightarrow> ('f, 's) console \<Rightarrow> ('f, 's) console res option" where
  \<comment> \<open>an argument with an offset is a block, also in hash mode\<close>
  "opt_bit_r env arg cs =
     (let lib = env_lib env; stack = env_stack env; fresh = env_fresh env; sock = env_sock env; s = cs_sock cs; b = CHR ''B''; keep = cs_persistent cs in
      case arg of
        None \<Rightarrow> Some (answered b (fsp_add_bit_flip_device_read fresh sock s keep) cs)
      | Some a \<Rightarrow>
          (case offSets_from_arg a of
             Some (n, offSet) \<Rightarrow> Some (answered b (fsp_add_bit_flip_block_read fresh sock s n offSet keep) cs)
           | None \<Rightarrow>
               if cs_hash cs
               then with_content False a cs (\<lambda>n _ content cs'. answered b
                      (if cs_dedup cs then fsp_add_bit_flip_dedup_read lib stack fresh sock s n content keep
                       else fsp_add_bit_flip_hash_read lib stack fresh sock s n content keep) cs')
               else Some (Inr (say Wrong_Input cs))))"

definition scan_time :: "string \<Rightarrow> u64 option" where
  "scan_time a = (let r = sscanf [ULong] a in if scanned r = 1 then Some (as_u64 (fst r ! 0)) else None)"

definition opt_disk_w :: "'s fault_env \<Rightarrow> string \<Rightarrow> ('f, 's) console \<Rightarrow> ('f, 's) console res option" where
  "opt_disk_w env a cs =
     (let lib = env_lib env; stack = env_stack env; fresh = env_fresh env; sock = env_sock env; s = cs_sock cs; keep = cs_persistent cs in
      case if cs_hash cs then None else arg_with_offSet_timeMS a of
        Some (n, offSet, t) \<Rightarrow> Some (answered (CHR ''s'') (fsp_add_slow_disk_block_write fresh sock s n offSet keep t) cs)
      | None \<Rightarrow>
          if cs_hash cs
          then with_content True a cs (\<lambda>n t content cs'.
                 if t = 0 then Inr (say Wrong_Input cs')
                 else answered (CHR ''S'')
                   (if cs_dedup cs then fsp_add_slow_disk_dedup_write lib stack fresh sock s n content keep (ucast t)
                    else fsp_add_slow_disk_hash_write lib stack fresh sock s n content keep (ucast t)) cs')
          else (case scan_time a of
                  Some t \<Rightarrow> Some (answered (CHR ''s'') (fsp_add_slow_disk_device_write fresh sock s keep (ucast t)) cs)
                | None \<Rightarrow> Some (Inr (say Wrong_Input cs))))"

definition opt_disk_r :: "'s fault_env \<Rightarrow> string \<Rightarrow> ('f, 's) console \<Rightarrow> ('f, 's) console res option" where
  \<comment> \<open>an argument that starts with a number is a fault of the whole device, also in hash mode\<close>
  "opt_disk_r env a cs =
     (let lib = env_lib env; stack = env_stack env; fresh = env_fresh env; sock = env_sock env; s = cs_sock cs; keep = cs_persistent cs in
      case scan_time a of
        Some t \<Rightarrow> Some (answered (CHR ''S'') (fsp_add_slow_disk_device_read fresh sock s keep (ucast t)) cs)
      | None \<Rightarrow>
         (case if cs_hash cs then None else arg_with_offSet_timeMS a of
            Some (n, offSet, t) \<Rightarrow> Some (answered (CHR ''S'') (fsp_add_slow_disk_block_read fresh sock s n offSet keep t) cs)
          | None \<Rightarrow>
              if cs_hash cs
              then with_content True a cs (\<lambda>n t content cs'.
                     if t = 0 then Inr (say Wrong_Input cs')
                     else answered (CHR ''S'')
                       (if cs_dedup cs then fsp_add_slow_disk_dedup_read lib stack fresh sock s n content keep (ucast t)
                        else fsp_add_slow_disk_hash_read lib stack fresh sock s n content keep (ucast t)) cs')
              else Some (Inr (say Wrong_Input cs))))"

definition opt_medium_w :: "'s fault_env \<Rightarrow> string option \<Rightarrow> ('f, 's) console \<Rightarrow> ('f, 's) console res option" where
  "opt_medium_w env arg cs =
     (let lib = env_lib env; stack = env_stack env; fresh = env_fresh env; sock = env_sock env; s = cs_sock cs; b = CHR ''m''; keep = cs_persistent cs in
      case arg of
        None \<Rightarrow> Some (answered b (fsp_add_medium_error_device_write fresh sock s keep) cs)
      | Some a \<Rightarrow>
          (case if cs_hash cs then None else offSets_from_arg a of
             Some (n, offSet) \<Rightarrow> Some (answered b (fsp_add_medium_error_block_write fresh sock s n offSet keep) cs)
           | None \<Rightarrow>
               if cs_hash cs
               then with_content False a cs (\<lambda>n _ content cs'. answered b
                      (if cs_dedup cs then fsp_add_medium_error_dedup_write lib stack fresh sock s n content keep
                       else fsp_add_medium_error_hash_write lib stack fresh sock s n content keep) cs')
               else Some (Inr (say Wrong_Input cs))))"

definition opt_medium_r :: "'s fault_env \<Rightarrow> string option \<Rightarrow> ('f, 's) console \<Rightarrow> ('f, 's) console res option" where
  "opt_medium_r env arg cs =
     (let lib = env_lib env; stack = env_stack env; fresh = env_fresh env; sock = env_sock env; s = cs_sock cs; b = CHR ''M''; keep = cs_persistent cs in
      case arg of
        None \<Rightarrow> Some (answered b (fsp_add_medium_error_device_read fresh sock s keep) cs)
      | Some a \<Rightarrow>
          (case if cs_hash cs then None else offSets_from_arg a of
             Some (n, offSet) \<Rightarrow> Some (answered b (fsp_add_medium_error_block_read fresh sock s n offSet keep) cs)
           | None \<Rightarrow>
               if cs_hash cs
               then with_content False a cs (\<lambda>n _ content cs'. answered b
                      (if cs_dedup cs then fsp_add_medium_error_dedup_read lib stack fresh sock s n content keep
                       else fsp_add_medium_error_hash_read lib stack fresh sock s n content keep) cs')
               else Some (Inr (say Wrong_Input cs))))"

definition needs :: "string option \<Rightarrow> (string \<Rightarrow> 'a res option) \<Rightarrow> 'a res option" where
  \<comment> \<open>a null pointer is dereferenced\<close>
  "needs arg body = (case arg of None \<Rightarrow> Some (Inl Wild_Pointer) | Some a \<Rightarrow> body a)"

definition console_option :: "'s fault_env \<Rightarrow> 'f file_io \<Rightarrow> char \<Rightarrow> string option \<Rightarrow> ('f, 's) console \<Rightarrow> ('f, 's) console res option" where
  \<comment> \<open>the body of the loop over the options; the case of \<^verbatim>\<open>-f\<close> runs into that of \<^verbatim>\<open>-a\<close>\<close>
  "console_option env io opt arg cs =
     (let open_at = (\<lambda>a upd. rbind (f_open io a (cs_dev cs) (cs_files cs)) (\<lambda>(d, f). Inr (upd (cs\<lparr>cs_dev := d, cs_files := f\<rparr>))));
          dev = (\<lambda>g c. c\<lparr>cs_dev := g (cs_dev c)\<rparr>)
      in if opt = CHR ''w'' then needs arg (\<lambda>a. Some (opt_write io a cs))
      else if opt = CHR ''r'' then Some (opt_read io arg cs)
      else if opt = CHR ''l'' then needs arg (\<lambda>a. Some (opt_read_hash (env_lib env) io a cs))
      else if opt = CHR ''c'' then needs arg (\<lambda>a. Some (arg_check_content (env_lib env) io a cs))
      else if opt = CHR ''e'' then needs arg (\<lambda>a. Some (Inr (opt_error a cs)))
      else if opt = CHR ''d'' then needs arg (\<lambda>a. Some (open_at a (\<lambda>c. c\<lparr>cs_hash := False\<rparr>)))
      else if opt = CHR ''f'' then needs arg (\<lambda>a. Some (open_at a (\<lambda>c. dev (\<lambda>d. d\<lparr>fd_mode := MODE_APPEND\<rparr>) (c\<lparr>cs_hash := True\<rparr>))))
      else if opt = CHR ''a'' then Some (Inr (dev (\<lambda>d. d\<lparr>fd_mode := MODE_APPEND\<rparr>) cs))
      else if opt = CHR ''p'' then Some (Inr (dev (\<lambda>d. d\<lparr>fd_mode := MODE_PREFIX\<rparr>) cs))
      else if opt = CHR ''o'' then needs arg (\<lambda>a. Some (Inr (dev (\<lambda>d. d\<lparr>fd_offSet := word_of_int (atoi a)\<rparr>) cs)))
      else if opt = CHR ''i'' then needs arg (\<lambda>a. Some (Inr (dev (\<lambda>d. d\<lparr>fd_lastWrite := word_of_int (atoi a)\<rparr>) cs)))
      else if opt = CHR ''b'' then opt_bit_w env arg cs
      else if opt = CHR ''B'' then opt_bit_r env arg cs
      else if opt = CHR ''s'' then needs arg (\<lambda>a. opt_disk_w env a cs)
      else if opt = CHR ''S'' then needs arg (\<lambda>a. opt_disk_r env a cs)
      else if opt = CHR ''m'' then opt_medium_w env arg cs
      else if opt = CHR ''M'' then opt_medium_r env arg cs
      else if opt = CHR ''h'' then Some (Inr cs)
      else if opt = CHR ''K'' then Some (Inr (cs\<lparr>cs_hash := False, cs_dedup := False\<rparr>))
      else if opt = CHR ''H'' then Some (Inr (cs\<lparr>cs_hash := True, cs_dedup := False\<rparr>))
      else if opt = CHR ''D'' then Some (Inr (cs\<lparr>cs_hash := True, cs_dedup := True\<rparr>))
      else if opt = CHR ''t'' then Some (Inr (cs\<lparr>cs_persistent := False\<rparr>))
      else if opt = CHR ''T'' then Some (Inr (cs\<lparr>cs_persistent := True\<rparr>))
      else Some (Inl (Exit 0)))"

fun console_options :: "'s fault_env \<Rightarrow> 'f file_io \<Rightarrow> (char \<times> string option) list \<Rightarrow> ('f, 's) console \<Rightarrow> ('f, 's) console res option" where
  "console_options env io [] cs = Some (Inr cs)"
| "console_options env io ((opt, arg) # opts) cs = obind (console_option env io opt arg cs) (console_options env io opts)"

definition console_main ::
    "'s fault_env \<Rightarrow> 'f file_io \<Rightarrow> string \<Rightarrow> (char \<times> string option) list \<Rightarrow> 'f \<Rightarrow> 's \<Rightarrow> (console_msg list \<times> 'f \<times> 's) res option" where
  \<comment> \<open>\<open>buf\<close> is the memory of \<^verbatim>\<open>aligned_alloc\<close>; no options stand for a command line without arguments\<close>
  "console_main env io buf opts f s =
     (if opts = [] then Some (Inr ([], f, s))
      else obind (console_options env io opts \<lparr>cs_dev = f_new_device (-1), cs_buf = take BLOCK_SIZE buf, cs_hash = False, cs_dedup = False,
             cs_persistent = True, cs_files = f, cs_sock = s, cs_out = []\<rparr>) (\<lambda>cs.
           Some (Inr (cs_out cs, f_close io (cs_dev cs) (cs_files cs), cs_sock cs))))"


end
