(* ===== verification/Fbd_Console_Correct.thy ===== *)
theory Fbd_Console_Correct
  imports Fbd_Console Dedis_On_Device
begin

text \<open>
  What the options of the console do with well-formed arguments: an argument \<^verbatim>\<open>(size:offset)text\<close> is read
  back, the text is repeated up to the size, and a block that the console writes to a file of blocks is the
  block that it reads. The instance is the faulty device without faults.
\<close>

section \<open>Scanning well-formed arguments\<close>

definition at_arg :: "nat \<Rightarrow> nat \<Rightarrow> string" where
  "at_arg n off = ''('' @ show_nat n @ '':'' @ show_nat off @ '')''"

lemma takeWhile_show: "\<not> is_digit c \<Longrightarrow> takeWhile is_digit (show_nat n @ c # rest) = show_nat n"
  and dropWhile_show: "\<not> is_digit c \<Longrightarrow> dropWhile is_digit (show_nat n @ c # rest) = c # rest"
  using show_nat_digits [of n] by (simp_all add: takeWhile_append2 dropWhile_append2 takeWhile_append1 dropWhile_append1)

lemma show_nat_head: "show_nat n @ rest \<noteq> [] \<and> is_digit (hd (show_nat n @ rest))"
  using show_nat_digits [of n] by (cases "show_nat n") simp_all

lemma dropWhile_space_show: "dropWhile is_space (show_nat n @ rest) = show_nat n @ rest"
  using show_nat_head [of n rest] digit_not_special by (cases "show_nat n @ rest") simp_all

lemma scan_number_show:
  assumes "\<not> is_digit c"
  shows "scan_number (show_nat n @ c # rest) = Some (int n, c # rest)"
proof -
  have "hd (show_nat n @ c # rest) \<noteq> CHR ''-''" "hd (show_nat n @ c # rest) \<noteq> CHR ''+''"
    using show_nat_head [of n "c # rest"] digit_not_special by blast+
  moreover have "read_digits (show_nat n @ c # rest) = n"
    using assms by (simp add: read_digits_def takeWhile_show read_show_nat)
  ultimately show ?thesis
    using assms by (simp add: scan_number_def Let_def dropWhile_space_show takeWhile_show dropWhile_show)
qed

lemma not_digit [simp]: "\<not> is_digit (CHR '':'')" "\<not> is_digit (CHR '')'')"
  by (simp_all add: is_digit_def)

lemma scan_at_arg:
  "sscanf (Lit (CHR ''('') # Dec # Lit (CHR '':'') # ULong # Lit (CHR '')'') # fs) (at_arg n off @ rest) =
   map_prod (\<lambda>vs. Num (int n) # Num (int off) # vs) id (sscanf fs rest)"
  by (simp add: at_arg_def dropWhile_space_show scan_number_show prod.map_comp comp_def id_def)

lemma scan_word:
  assumes "w \<noteq> []" and "\<forall>c \<in> set w. \<not> is_space c"
  shows "sscanf [Str] w = ([Txt w], False)"
  using assms by (cases w) (simp_all add: Let_def takeWhile_eq_all_conv [THEN iffD2] dropWhile_eq_Nil_conv [THEN iffD2])

lemma as_u32_nat: "n < 2 ^ 63 \<Longrightarrow> as_u32 (Num (int n)) = word_of_nat n"
  by (simp add: as_u32_def num_of_def)

lemma as_u64_nat: "n < 2 ^ 64 \<Longrightarrow> as_u64 (Num (int n)) = word_of_nat n"
  by (simp add: as_u64_def num_of_def)

lemma offSets_of_at_arg:
  assumes "n < 2 ^ 63" and "off < 2 ^ 64"
  shows "offSets_from_arg (at_arg n off) = Some (word_of_nat n, word_of_nat off)"
  using scan_at_arg [of "[]" n off "[]"] assms
  by (simp add: offSets_from_arg_def scanned_def Let_def as_u32_nat as_u64_nat)

section \<open>Repeating the text\<close>

definition repeated :: "string \<Rightarrow> nat \<Rightarrow> nat \<Rightarrow> string" where
  \<comment> \<open>characters \<open>i\<close> to \<open>n - 1\<close> of the text repeated for ever\<close>
  "repeated w i n = map (\<lambda>j. w ! (j mod length w)) [i..<n]"

lemma length_repeated [simp]: "length (repeated w i n) = n - i"
  by (simp add: repeated_def)

lemma repeated_split: "i \<le> j \<Longrightarrow> j \<le> n \<Longrightarrow> repeated w i n = repeated w i j @ repeated w j n"
  using upt_add_eq_append [of i j "n - j"] by (simp add: repeated_def)

lemma repeated_start:
  assumes "m \<le> length w"
  shows "repeated w (k * length w) (k * length w + m) = take m w"
  using assms by (intro nth_equalityI) (auto simp: repeated_def)

lemma replicate_at_end: "\<not> word_of_int i < stop \<Longrightarrow> replicate_at w stop i pos buf = Inr buf"
  by (subst replicate_at.simps) simp

lemma small_word: "i < 2 ^ 31 \<Longrightarrow> word_of_int (int i) = (word_of_nat i :: u64) \<and> unat (word_of_nat i :: u64) = i \<and> to_int (int i) = int i"
  by (auto simp: to_int_small intro: unat_of_nat_small)

lemma replicate_at_repeats:
  assumes "w \<noteq> []" and "off + n + length w < 2 ^ 31" and "n \<le> length buf" and "k * length w < n"
  shows "replicate_at w (word_of_nat (off + n)) (int (off + k * length w)) (k * length w) buf =
    Inr (blit (k * length w) (repeated w (k * length w) n) buf)"
  using assms(3,4)
proof (induction "n - k * length w" arbitrary: k buf rule: less_induct)
  case less
  let ?p = "k * length w"
  have stop: "unat (word_of_nat (off + n) :: u64) = off + n" using small_word [of "off + n"] assms(2) by auto
  have i: "word_of_int (int (off + ?p)) = (word_of_nat (off + ?p) :: u64)" "unat (word_of_nat (off + ?p) :: u64) = off + ?p"
    using small_word [of "off + ?p"] assms(2) less(3) by auto
  have j: "to_int (int (length w) + int (off + ?p)) = int (off + Suc k * length w)"
      "to_int (int (off + ?p) + int (length w)) = int (off + Suc k * length w)"
      "word_of_int (int (off + Suc k * length w)) = (word_of_nat (off + Suc k * length w) :: u64)"
      "unat (word_of_nat (off + Suc k * length w) :: u64) = off + Suc k * length w"
    using small_word [of "off + Suc k * length w"] assms(2) less(3) by (auto simp: ac_simps)
  have run: "(word_of_nat (off + ?p) :: u64) < word_of_nat (off + n)" using i stop less(3) by (simp add: word_less_nat_alt del: of_nat_add of_nat_mult)
  have left: "unat (word_of_nat (off + n) - word_of_nat (off + ?p) :: u64) = n - ?p"
    using run i stop by (simp add: unat_sub less_imp_le del: of_nat_add of_nat_mult)
  show ?case
  proof (cases "n \<le> ?p + length w")
    case True
    have last: "(word_of_nat (off + n) :: u64) \<le> word_of_nat (off + Suc k * length w)"
      using True stop j by (simp add: word_le_nat_alt del: of_nat_add of_nat_mult)
    have "take (n - ?p) w = repeated w ?p n" using True less(3) repeated_start [of "n - ?p" w k] by simp
    with True last show ?thesis
      using assms(1) run left j i less(2,3)
      by (subst replicate_at.simps) (simp add: Let_def replicate_at_end not_less del: of_nat_add of_nat_mult of_int_add of_int_mult of_int_of_nat_eq)
  next
    case False
    then have more': "\<not> (word_of_nat (off + n) :: u64) \<le> word_of_nat (off + Suc k * length w)"
      using stop j by (simp add: word_le_nat_alt del: of_nat_add of_nat_mult)
    let ?buf = "blit ?p w buf"
    have "n - Suc k * length w < n - ?p" using False assms(1) by (cases w) auto
    then have "replicate_at w (word_of_nat (off + n)) (int (off + Suc k * length w)) (Suc k * length w) ?buf =
        Inr (blit (Suc k * length w) (repeated w (Suc k * length w) n) ?buf)"
      using less(1) [of "Suc k" ?buf] False less(2) by simp
    moreover have "blit (Suc k * length w) (repeated w (Suc k * length w) n) ?buf = blit ?p (repeated w ?p n) buf"
      using blit_append [of ?p w "repeated w (Suc k * length w) n" buf] False less(2)
        repeated_split [of ?p "Suc k * length w" n w] repeated_start [of "length w" w k] by (simp add: add.commute)
    ultimately show ?thesis
      using assms(1) run more' j i less(2) False
      by (subst replicate_at.simps) (simp add: Let_def add.commute del: of_nat_add of_nat_mult of_int_add of_int_mult of_int_of_nat_eq)
  qed
qed

lemma arg_repeats:
  assumes "w \<noteq> []" and "\<forall>c \<in> set w. \<not> is_space c" and "off + n + length w < 2 ^ 31"
    and "0 < n" and "n \<le> length buf" and "length w < length buf"
  shows "\<exists>buf'. arg_with_offSets (at_arg n off @ w) buf dflt = Inr (word_of_nat n, buf', word_of_nat off) \<and>
    length buf' = length buf \<and> take n buf' = repeated w 0 n"
proof -
  let ?b = "blit 0 (w @ [NUL]) buf"
  have len: "length ?b = length buf" using assms(6) by simp
  have "ucast (word_of_nat off :: u64) = (word_of_nat off :: u32)"
    using assms(3) by (simp add: unsigned_of_nat take_bit_nat_eq_self)
  then have "sint (ucast (word_of_nat off :: u64) :: u32) = int off"
    using assms(3) to_int_small [of "int off"] by (simp add: to_int_def)
  moreover have "ucast (word_of_nat n :: u32) = (word_of_nat n :: u64)"
    using assms(3) by (simp add: unsigned_of_nat take_bit_nat_eq_self)
  moreover have "replicate_at w (word_of_nat (off + n)) (int off) 0 ?b = Inr (blit 0 (repeated w 0 n) ?b)"
    using replicate_at_repeats [OF assms(1,3), of ?b 0] assms(4,5) len by simp
  ultimately have "arg_with_offSets (at_arg n off @ w) buf dflt = Inr (word_of_nat n, blit 0 (repeated w 0 n) ?b, word_of_nat off)"
    using assms(3,6) scan_at_arg [of "[Str]" n off w] scan_word [OF assms(1,2)]
    by (simp add: arg_with_offSets_def Let_def scanned_def as_u32_nat as_u64_nat txt_of_def strcpy_def)
  moreover have "length (blit 0 (repeated w 0 n) ?b) = length buf" using len assms(5) by simp
  moreover have "take n (blit 0 (repeated w 0 n) ?b) = repeated w 0 n" by (simp add: blit_def)
  ultimately show ?thesis by blast
qed

section \<open>Sessions on a file of blocks\<close>

lemma f_write_calls:
  \<comment> \<open>the flag of a failed operation is set exactly when the write succeeds\<close>
  assumes "0 \<le> fd_no d" and "unat n \<le> length buf" and "io_pwrite io (fd_no d) (take (unat n) buf) (fd_offSet d) f = (r, f')"
  shows "\<exists>d'. f_write io d buf n f = Inr (r, d', f') \<and> fd_no d' = fd_no d \<and> fd_lastOpFailed d' = (0 \<le> r)"
  using assms by (simp add: f_write_def checkfd_def updateOffSet_LastWrite_def Let_def)

context block_file
begin

lemma console_write:
  assumes "n = 4096" and "0 \<le> fd" and "ready (cs_files cs)" and "fd_no (cs_dev cs) = fd" and "length (cs_buf cs) = 4096"
    and "k < cap" and "w \<noteq> []" and "\<forall>c \<in> set w. \<not> is_space c" and "length w < 4096" and "Suc k * 4096 + length w < 2 ^ 31"
  shows "\<exists>d buf f'. console_option env io (CHR ''w'') (Some (at_arg 4096 (k * 4096) @ w)) cs = Some (Inr (cs\<lparr>cs_dev := d, cs_buf := buf, cs_files := f'\<rparr>)) \<and>
    fd_no d = fd \<and> length buf = 4096 \<and> ready f' \<and> blk f' = (blk (cs_files cs))(k := repeated w 0 4096)"
proof -
  obtain buf where buf: "arg_with_offSets (at_arg 4096 (k * 4096) @ w) (cs_buf cs) (fd_offSet (cs_dev cs)) = Inr (word_of_nat 4096, buf, word_of_nat (k * 4096))"
    "length buf = 4096" "take 4096 buf = repeated w 0 4096"
    using arg_repeats [OF assms(7,8), of "k * 4096" 4096 "cs_buf cs" "fd_offSet (cs_dev cs)"] assms(5,9,10)
    by (auto simp del: of_nat_mult)
  obtain r f' where w: "io_pwrite io fd (repeated w 0 4096) (word_of_nat (k * 4096)) (cs_files cs) = (r, f')" "ready f'"
    "blk f' = (blk (cs_files cs))(k := repeated w 0 4096)"
    using write_block [OF assms(3) _ assms(6), of "repeated w 0 4096"] assms(1) by auto
  obtain d where "f_write io ((cs_dev cs)\<lparr>fd_offSet := word_of_nat (k * 4096)\<rparr>) buf 4096 (cs_files cs) = Inr (r, d, f')" "fd_no d = fd"
    using f_write_calls [of "(cs_dev cs)\<lparr>fd_offSet := word_of_nat (k * 4096)\<rparr>" 4096 buf io "cs_files cs" r f'] buf w(1) assms(2,4) by auto
  then have "console_option env io (CHR ''w'') (Some (at_arg 4096 (k * 4096) @ w)) cs = Some (Inr (cs\<lparr>cs_dev := d, cs_buf := buf, cs_files := f'\<rparr>))"
    using buf by (simp add: console_option_def needs_def opt_write_def Let_def del: of_nat_mult)
  with \<open>fd_no d = fd\<close> buf(2) w(2,3) show ?thesis by blast
qed

lemma console_read_hash:
  assumes "n = 4096" and "0 \<le> fd" and "ready (cs_files cs)" and "fd_no (cs_dev cs) = fd" and "length (cs_buf cs) = 4096"
    and "k < cap" and "k * 4096 < 2 ^ 64"
  shows "\<exists>d buf f'. console_option env io (CHR ''l'') (Some (at_arg 4096 (k * 4096))) cs =
      Some (Inr (say (Hash_Text (md5_digest (env_lib env) (bytes_of (blk (cs_files cs) k)))) (cs\<lparr>cs_dev := d, cs_buf := buf, cs_files := f'\<rparr>))) \<and>
    fd_no d = fd \<and> ready f' \<and> blk f' = blk (cs_files cs)"
proof -
  obtain f' where r: "io_pread io fd 4096 (word_of_nat (k * 4096)) (cs_files cs) = (4096, blk (cs_files cs) k, f')" "ready f'" "blk f' = blk (cs_files cs)"
    using read_block [OF assms(3,6)] assms(1) by auto
  have len: "length (blk (cs_files cs) k) = 4096" using block_length [OF assms(3,6)] assms(1) by simp
  then have "blit 0 (blk (cs_files cs) k) (cs_buf cs) = blk (cs_files cs) k" using assms(5) by (simp add: blit_def)
  then have "console_option env io (CHR ''l'') (Some (at_arg 4096 (k * 4096))) cs =
      Some (Inr (say (Hash_Text (md5_digest (env_lib env) (bytes_of (blk (cs_files cs) k))))
        (cs\<lparr>cs_dev := (cs_dev cs)\<lparr>fd_lastWrite := word_of_nat (k * 4096), fd_lastOpFailed := False\<rparr>, cs_buf := blk (cs_files cs) k, cs_files := f'\<rparr>)))"
    using r len assms(2,4,5) offSets_of_at_arg [of 4096 "k * 4096"] assms(7)
    by (simp add: console_option_def needs_def opt_read_hash_def read_some_def f_read_block_def f_read_def checkfd_def Let_def
        fsp_string_to_hash_def del: of_nat_mult)
  then show ?thesis by (intro exI conjI) (assumption, use r assms(4) in simp_all)
qed

lemma console_session:
  assumes "n = 4096" and "0 \<le> fd" and "closed f" and "4096 \<le> length buf"
    and "k < cap" and "w \<noteq> []" and "\<forall>c \<in> set w. \<not> is_space c" and "length w < 4096" and "Suc k * 4096 + length w < 2 ^ 31"
  shows "\<exists>f'. console_main env io buf [(CHR ''d'', Some path), (CHR ''w'', Some (at_arg 4096 (k * 4096) @ w)), (CHR ''l'', Some (at_arg 4096 (k * 4096)))] f s =
      Some (Inr ([Hash_Text (md5_digest (env_lib env) (bytes_of (repeated w 0 4096)))], f', s)) \<and>
    closed f' \<and> blk f' = (blk f)(k := repeated w 0 4096)"
proof -
  let ?cs = "\<lparr>cs_dev = f_new_device (-1), cs_buf = take BLOCK_SIZE buf, cs_hash = False, cs_dedup = False,
             cs_persistent = True, cs_files = f, cs_sock = s, cs_out = []\<rparr>"
  obtain f1 where o: "io_open io True True path f = (fd, f1)" "ready f1" "blk f1 = blk f" using open_file [OF assms(3)] by blast
  obtain cs1 where c1: "console_option env io (CHR ''d'') (Some path) ?cs = Some (Inr cs1)" "ready (cs_files cs1)" "blk (cs_files cs1) = blk f"
    "fd_no (cs_dev cs1) = fd" "length (cs_buf cs1) = 4096" "cs_out cs1 = []" "cs_sock cs1 = s"
    using o fd_valid assms(4) by (auto simp: console_option_def needs_def f_open_def f_new_device_def Let_def)
  obtain d2 buf2 f2 where c2: "console_option env io (CHR ''w'') (Some (at_arg 4096 (k * 4096) @ w)) cs1 = Some (Inr (cs1\<lparr>cs_dev := d2, cs_buf := buf2, cs_files := f2\<rparr>))"
    "fd_no d2 = fd" "length buf2 = 4096" "ready f2" "blk f2 = (blk f)(k := repeated w 0 4096)"
    using console_write [OF assms(1,2) c1(2,4,5) assms(5-9), of env] c1(3) by auto
  let ?cs2 = "cs1\<lparr>cs_dev := d2, cs_buf := buf2, cs_files := f2\<rparr>"
  obtain d3 buf3 f3 where c3: "console_option env io (CHR ''l'') (Some (at_arg 4096 (k * 4096))) ?cs2 =
      Some (Inr (say (Hash_Text (md5_digest (env_lib env) (bytes_of (repeated w 0 4096)))) (?cs2\<lparr>cs_dev := d3, cs_buf := buf3, cs_files := f3\<rparr>)))"
    "fd_no d3 = fd" "ready f3" "blk f3 = blk f2"
    using console_read_hash [OF assms(1,2), of ?cs2 k env] c2 assms(5,9) by auto
  have "f_close io d3 f3 = io_close io fd f3" using assms(2) c3(2) by (simp add: f_close_def)
  with c1 c2(1,5) c3 close_file [OF c3(3)] show ?thesis by (simp add: console_main_def say_def)
qed

end



section \<open>Arguments that the console does not handle\<close>

lemma empty_text_never_ends:
  \<comment> \<open>the loop of \<^verbatim>\<open>arg_replicate_content\<close> with an empty text\<close>
  assumes "i < n" and "pos \<le> length buf"
  shows "replicate_from [] n i pos buf = None"
proof (rule ccontr)
  assume "replicate_from [] n i pos buf \<noteq> None"
  then obtain y where y: "replicate_from [] n i pos buf = Some y" by blast
  have "[] = ([] :: string) \<longrightarrow> i < n \<longrightarrow> pos \<le> length buf \<longrightarrow> False"
    by (rule replicate_from.raw_induct [where P = "\<lambda>w n i pos buf y. w = [] \<longrightarrow> i < n \<longrightarrow> pos \<le> length buf \<longrightarrow> False", OF _ y])
      (fastforce simp: Let_def split: if_splits)
  with assms show False by simp
qed

lemma slow_disk_without_text_hangs:
  \<comment> \<open>\<^verbatim>\<open>-H -s "5(3)"\<close> with a buffer that starts with a null character\<close>
  assumes "cs_hash cs" and "cs_buf cs = NUL # rest"
  shows "console_option env io (CHR ''s'') (Some ''5(3)'') cs = None"
proof -
  have "sscanf [Dec, Lit (CHR ''(''), Dec, Lit (CHR '')''), Str] ''5(3)'' = ([Num 5, Num 3], True)"
    by (simp add: scan_number_def is_space_def is_digit_def read_digits_def digit_val_def Let_def)
  then have "arg_replicate_content True ''5(3)'' (cs_buf cs) = None"
    using empty_text_never_ends [of 0 3 0 "NUL # rest"] assms(2)
    by (simp add: arg_replicate_content_def Let_def scanned_def as_u32_def num_of_def c_string_def)
  then show ?thesis using assms(1) by (simp add: console_option_def needs_def opt_disk_w_def with_content_def Let_def)
qed

lemma sweep_of_whole_block_overflows:
  \<comment> \<open>\<^verbatim>\<open>fw_sweep_block\<close> copies the expected block with its terminating null character into a buffer of one block\<close>
  assumes "length e = length buf" and "NUL \<notin> set e" and "unat n \<le> length e"
  shows "fw_sweep_block lib io fd buf n off (e @ replicate (Suc m) NUL) f = Inl Out_Of_Bounds"
  using assms by (simp add: fw_sweep_block_def fsp_string_to_hash_def bytes_of_def c_string_def strcpy_def takeWhile_append)

end
