(* ===== verification/Sfmt.thy ===== *)
theory Sfmt
  imports Dedis_Conf
begin

text \<open>
  \<^verbatim>\<open>dedisbench/utils/random/randomgen/SFMT.c\<close>, which \<^verbatim>\<open>random.c\<close> includes: the Mersenne Twister with the
  parameters of \<^verbatim>\<open>SFMT-params19937.h\<close>, in the variant for standard C and little-endian machines. The state
  array is a list of 624 words of 32 bits, of which 4 are one number of 128 bits. Functions that the
  benchmark does not call (filling of arrays, seeds that are arrays) are not modelled.

  The numbers that \<^verbatim>\<open>genrand\<close> draws after \<^verbatim>\<open>init_rand\<close> are those of a recurrence over an unbounded
  sequence, and the state array that \<^verbatim>\<open>init_rand\<close> leaves has the parity that certifies the period.
\<close>

section \<open>Parameters\<close>

abbreviation SFMT_N :: nat where "SFMT_N \<equiv> 156"
abbreviation N32 :: nat where "N32 \<equiv> 624"
abbreviation POS1 :: nat where "POS1 \<equiv> 122"
abbreviation SL1 :: nat where "SL1 \<equiv> 18"
abbreviation SL2 :: nat where "SL2 \<equiv> 1"
abbreviation SR1 :: nat where "SR1 \<equiv> 11"
abbreviation SR2 :: nat where "SR2 \<equiv> 1"
abbreviation MSK1 :: u32 where "MSK1 \<equiv> 0xdfffffef"
abbreviation MSK2 :: u32 where "MSK2 \<equiv> 0xddfecb7f"
abbreviation MSK3 :: u32 where "MSK3 \<equiv> 0xbffaffff"
abbreviation MSK4 :: u32 where "MSK4 \<equiv> 0xbffffff6"

definition parity :: "u32 list" where
  "parity = [0x00000001, 0x00000000, 0x00000000, 0x13c9e684]"

section \<open>Numbers of 128 bits\<close>

type_synonym w128 = "u32 \<times> u32 \<times> u32 \<times> u32"

definition rshift128 :: "w128 \<Rightarrow> nat \<Rightarrow> w128" where
  "rshift128 inp shift = (case inp of (u0, u1, u2, u3) \<Rightarrow>
     let th = push_bit 32 (ucast u3 :: u64) OR ucast u2;
         tl = push_bit 32 (ucast u1 :: u64) OR ucast u0;
         oh = drop_bit (shift * 8) th;
         ol = drop_bit (shift * 8) tl OR push_bit (64 - shift * 8) th
     in (ucast ol, ucast (drop_bit 32 ol), ucast oh, ucast (drop_bit 32 oh)))"

definition lshift128 :: "w128 \<Rightarrow> nat \<Rightarrow> w128" where
  "lshift128 inp shift = (case inp of (u0, u1, u2, u3) \<Rightarrow>
     let th = push_bit 32 (ucast u3 :: u64) OR ucast u2;
         tl = push_bit 32 (ucast u1 :: u64) OR ucast u0;
         ol = push_bit (shift * 8) tl;
         oh = push_bit (shift * 8) th OR drop_bit (64 - shift * 8) tl
     in (ucast ol, ucast (drop_bit 32 ol), ucast oh, ucast (drop_bit 32 oh)))"

definition do_recursion :: "w128 \<Rightarrow> w128 \<Rightarrow> w128 \<Rightarrow> w128 \<Rightarrow> w128" where
  "do_recursion a b c d =
     (case (a, lshift128 a SL2, b, rshift128 c SR2, d) of
        ((a0, a1, a2, a3), (x0, x1, x2, x3), (b0, b1, b2, b3), (y0, y1, y2, y3), (d0, d1, d2, d3)) \<Rightarrow>
          (a0 XOR x0 XOR (drop_bit SR1 b0 AND MSK1) XOR y0 XOR push_bit SL1 d0,
           a1 XOR x1 XOR (drop_bit SR1 b1 AND MSK2) XOR y1 XOR push_bit SL1 d1,
           a2 XOR x2 XOR (drop_bit SR1 b2 AND MSK3) XOR y2 XOR push_bit SL1 d2,
           a3 XOR x3 XOR (drop_bit SR1 b3 AND MSK4) XOR y3 XOR push_bit SL1 d3))"

section \<open>The state array\<close>

record sfmt =
  psfmt32 :: "u32 list"
  sfmt_idx :: nat
  sfmt_initialized :: bool

definition sfmt_at :: "u32 list \<Rightarrow> nat \<Rightarrow> w128" where
  \<comment> \<open>\<^verbatim>\<open>sfmt[i]\<close>\<close>
  "sfmt_at xs i = (xs ! (4 * i), xs ! (4 * i + 1), xs ! (4 * i + 2), xs ! (4 * i + 3))"

definition sfmt_put :: "nat \<Rightarrow> w128 \<Rightarrow> u32 list \<Rightarrow> u32 list" where
  "sfmt_put i w xs = (case w of (a, b, c, d) \<Rightarrow> xs[4 * i := a, 4 * i + 1 := b, 4 * i + 2 := c, 4 * i + 3 := d])"

function gen_rand_all_from :: "nat \<Rightarrow> nat \<Rightarrow> nat \<Rightarrow> u32 list \<Rightarrow> u32 list" where
  \<comment> \<open>both loops; \<open>r1\<close> and \<open>r2\<close> are the positions that the pointers point to\<close>
  "gen_rand_all_from i r1 r2 xs =
     (if i < SFMT_N
      then let b = (if i < SFMT_N - POS1 then i + POS1 else i + POS1 - SFMT_N) in
        gen_rand_all_from (Suc i) r2 i (sfmt_put i (do_recursion (sfmt_at xs i) (sfmt_at xs b) (sfmt_at xs r1) (sfmt_at xs r2)) xs)
      else xs)"
  by pat_completeness auto
termination
  by (relation "measure (\<lambda>(i, r1, r2, xs). SFMT_N - i)") auto

declare gen_rand_all_from.simps [simp del]

definition gen_rand_all :: "u32 list \<Rightarrow> u32 list" where
  "gen_rand_all xs = gen_rand_all_from 0 (SFMT_N - 2) (SFMT_N - 1) xs"

definition certification_inner :: "u32 list \<Rightarrow> u32" where
  \<comment> \<open>\<^verbatim>\<open>inner\<close> is an \<^verbatim>\<open>int\<close>, so that its shift is the arithmetic one\<close>
  "certification_inner xs =
     fold (\<lambda>i inner. inner XOR signed_drop_bit i inner) [16, 8, 4, 2, 1]
       (fold (\<lambda>i inner. inner XOR (xs ! i AND parity ! i)) [0, 1, 2, 3] 0) AND 1"

definition period_certification :: "u32 list \<Rightarrow> u32 list" where
  \<comment> \<open>inverts the lowest bit of the first word of \<^verbatim>\<open>parity\<close> that is not 0\<close>
  "period_certification xs =
     (if certification_inner xs = 1 then xs
      else case List.find (\<lambda>(i, j). push_bit j 1 AND parity ! i \<noteq> 0) (List.product [0..<4] [0..<32]) of
        None \<Rightarrow> xs
      | Some (i, j) \<Rightarrow> xs[i := xs ! i XOR push_bit j 1])"

section \<open>Drawing numbers\<close>

definition sfmt_gen_rand32 :: "sfmt \<Rightarrow> (u32 \<times> sfmt) res" where
  "sfmt_gen_rand32 s =
     (if \<not> sfmt_initialized s then Inl Abort
      else let s1 = (if sfmt_idx s \<ge> N32 then s\<lparr>psfmt32 := gen_rand_all (psfmt32 s), sfmt_idx := 0\<rparr> else s)
           in Inr (psfmt32 s1 ! sfmt_idx s1, s1\<lparr>sfmt_idx := sfmt_idx s1 + 1\<rparr>))"

definition sfmt_gen_rand64 :: "sfmt \<Rightarrow> (u64 \<times> sfmt) res" where
  "sfmt_gen_rand64 s =
     (if \<not> sfmt_initialized s \<or> sfmt_idx s mod 2 \<noteq> 0 then Inl Abort
      else let s1 = (if sfmt_idx s \<ge> N32 then s\<lparr>psfmt32 := gen_rand_all (psfmt32 s), sfmt_idx := 0\<rparr> else s)
           in Inr (push_bit 32 (ucast (psfmt32 s1 ! (sfmt_idx s1 + 1))) OR ucast (psfmt32 s1 ! sfmt_idx s1), s1\<lparr>sfmt_idx := sfmt_idx s1 + 2\<rparr>))"

function init_words_from :: "nat \<Rightarrow> u32 list \<Rightarrow> u32 list" where
  "init_words_from i xs =
     (if i < N32
      then init_words_from (Suc i) (xs[i := 1812433253 * (xs ! (i - 1) XOR drop_bit 30 (xs ! (i - 1))) + word_of_nat i])
      else xs)"
  by pat_completeness auto
termination
  by (relation "measure (\<lambda>(i, xs). N32 - i)") auto

declare init_words_from.simps [simp del]

definition init_gen_rand :: "u32 \<Rightarrow> sfmt \<Rightarrow> sfmt" where
  "init_gen_rand sd s =
     \<lparr>psfmt32 = period_certification (init_words_from 1 ((psfmt32 s)[0 := sd])), sfmt_idx = N32, sfmt_initialized = True\<rparr>"

definition init_rand :: "u64 \<Rightarrow> sfmt \<Rightarrow> sfmt" where
  \<comment> \<open>the seed loses its upper half\<close>
  "init_rand sd s = init_gen_rand (ucast sd) s"

definition sfmt_start :: sfmt where
  \<comment> \<open>the static variables when the program starts\<close>
  "sfmt_start = \<lparr>psfmt32 = replicate N32 0, sfmt_idx = 0, sfmt_initialized = False\<rparr>"

definition sfmt_rng :: "sfmt rng" where
  \<comment> \<open>the benchmark draws only after \<^verbatim>\<open>init_rand\<close>, see \<open>draw_at\<close>; before it the assertion fails\<close>
  "sfmt_rng = \<lparr>gen_rand32 = (\<lambda>s. case sfmt_gen_rand32 s of Inl _ \<Rightarrow> (0, s) | Inr r \<Rightarrow> r), gen_rand64 = sfmt_gen_rand64\<rparr>"

section \<open>Shifts\<close>

definition join128 :: "w128 \<Rightarrow> 128 word" where
  "join128 w = (case w of (u0, u1, u2, u3) \<Rightarrow> ucast u0 OR push_bit 32 (ucast u1) OR push_bit 64 (ucast u2) OR push_bit 96 (ucast u3))"

lemma bit_join128: "bit (join128 (u0, u1, u2, u3)) n \<longleftrightarrow>
   (if n < 32 then bit u0 n else if n < 64 then bit u1 (n - 32) else if n < 96 then bit u2 (n - 64) else if n < 128 then bit u3 (n - 96) else False)"
  by (auto simp: join128_def bit_simps dest: bit_imp_le_length)

lemma lshift128_push: "join128 (lshift128 w 1) = push_bit 8 (join128 w)"
proof (rule bit_word_eqI)
  fix n assume "n < LENGTH(128)"
  obtain u0 u1 u2 u3 where w: "w = (u0, u1, u2, u3)" by (cases w)
  show "bit (join128 (lshift128 w 1)) n = bit (push_bit 8 (join128 w)) n"
    using \<open>n < LENGTH(128)\<close> by (auto simp: w lshift128_def Let_def bit_join128 bit_simps dest: bit_imp_le_length)
qed

lemma rshift128_drop: "join128 (rshift128 w 1) = drop_bit 8 (join128 w)"
proof (rule bit_word_eqI)
  fix n assume "n < LENGTH(128)"
  obtain u0 u1 u2 u3 where w: "w = (u0, u1, u2, u3)" by (cases w)
  show "bit (join128 (rshift128 w 1)) n = bit (drop_bit 8 (join128 w)) n"
    using \<open>n < LENGTH(128)\<close> by (auto simp: w rshift128_def Let_def bit_join128 bit_simps dest: bit_imp_le_length)
qed

section \<open>The recurrence\<close>

function sfmt_seq :: "(nat \<Rightarrow> w128) \<Rightarrow> nat \<Rightarrow> w128" where
  "sfmt_seq x k =
     (if k < SFMT_N then x k
      else do_recursion (sfmt_seq x (k - SFMT_N)) (sfmt_seq x (k - SFMT_N + POS1)) (sfmt_seq x (k - 2)) (sfmt_seq x (k - 1)))"
  by pat_completeness auto
termination
  by (relation "measure (\<lambda>(x, k). k)") auto

declare sfmt_seq.simps [simp del]

definition w128_word :: "w128 \<Rightarrow> nat \<Rightarrow> u32" where
  "w128_word w j = (case w of (a, b, c, d) \<Rightarrow> [a, b, c, d] ! j)"

definition sfmt_stream :: "u32 list \<Rightarrow> nat \<Rightarrow> u32" where
  \<comment> \<open>the words of the sequence that starts with a state array\<close>
  "sfmt_stream xs k = w128_word (sfmt_seq (sfmt_at xs) (k div 4)) (k mod 4)"

definition window :: "(nat \<Rightarrow> w128) \<Rightarrow> nat \<Rightarrow> u32 list \<Rightarrow> bool" where
  \<comment> \<open>the state array holds the sequence from position \<open>b\<close>\<close>
  "window x b xs \<longleftrightarrow> length xs = N32 \<and> (\<forall>j < SFMT_N. sfmt_at xs j = sfmt_seq x (b + j))"

lemma length_sfmt_put [simp]: "length (sfmt_put i w xs) = length xs"
  by (simp add: sfmt_put_def split: prod.split)

lemma sfmt_at_put:
  assumes "length xs = N32" and "i < SFMT_N"
  shows "sfmt_at (sfmt_put i w xs) j = (if j = i then w else sfmt_at xs j)"
  using assms by (cases w) (auto simp: sfmt_at_def sfmt_put_def nth_list_update; presburger)

lemma w128_word_at: "k < 4 \<Longrightarrow> w128_word (sfmt_at xs i) k = xs ! (4 * i + k)"
  by (auto simp: w128_word_def sfmt_at_def numeral_eq_Suc less_Suc_eq)

lemma gen_rand_all_from_window:
  assumes "length xs = N32" and "i \<le> SFMT_N" and "r1 < SFMT_N" and "r2 < SFMT_N" and "r2 \<noteq> i"
    and "\<forall>j < SFMT_N. sfmt_at xs j = sfmt_seq x (if j < i then b + SFMT_N + j else b + j)"
    and "sfmt_at xs r1 = sfmt_seq x (b + SFMT_N + i - 2)" and "sfmt_at xs r2 = sfmt_seq x (b + SFMT_N + i - 1)"
  shows "window x (b + SFMT_N) (gen_rand_all_from i r1 r2 xs)"
  using assms
proof (induction i r1 r2 xs rule: gen_rand_all_from.induct)
  case (1 i r1 r2 xs)
  show ?case
  proof (cases "i < SFMT_N")
    case False
    then show ?thesis using 1(2,3,7) by (simp add: gen_rand_all_from.simps window_def)
  next
    case True
    define p where "p = (if i < SFMT_N - POS1 then i + POS1 else i + POS1 - SFMT_N)"
    let ?xs = "sfmt_put i (do_recursion (sfmt_at xs i) (sfmt_at xs p) (sfmt_at xs r1) (sfmt_at xs r2)) xs"
    have "sfmt_at xs i = sfmt_seq x (b + i)" "sfmt_at xs p = sfmt_seq x (b + i + POS1)"
      using 1(7) True by (auto simp: p_def ac_simps)
    then have new: "do_recursion (sfmt_at xs i) (sfmt_at xs p) (sfmt_at xs r1) (sfmt_at xs r2) = sfmt_seq x (b + SFMT_N + i)"
      using 1(8,9) by (subst sfmt_seq.simps) (simp add: add.commute add.left_commute)
    have "window x (b + SFMT_N) (gen_rand_all_from (Suc i) r2 i ?xs)"
      by (rule 1(1) [OF True p_def]) (use 1(2-) True new in \<open>auto simp: sfmt_at_put less_Suc_eq ac_simps\<close>)
    then show ?thesis using True by (subst gen_rand_all_from.simps) (simp add: p_def Let_def)
  qed
qed

lemma gen_rand_all_window: "window x b xs \<Longrightarrow> window x (b + SFMT_N) (gen_rand_all xs)"
  unfolding gen_rand_all_def by (rule gen_rand_all_from_window) (auto simp: window_def add.commute)

definition drawn :: "u32 list \<Rightarrow> nat \<Rightarrow> sfmt \<Rightarrow> bool" where
  \<comment> \<open>after \<open>p\<close> numbers of the stream of \<open>xs\<close>\<close>
  "drawn xs p s \<longleftrightarrow> sfmt_initialized s \<and> sfmt_idx s \<le> N32 \<and> (\<exists>b. window (sfmt_at xs) b (psfmt32 s) \<and> N32 + p = 4 * b + sfmt_idx s)"

lemma window_word: "window (sfmt_at xs) b ys \<Longrightarrow> k < N32 \<Longrightarrow> ys ! k = sfmt_stream xs (4 * b + k)"
  using w128_word_at [of "k mod 4" ys "k div 4"] by (simp add: window_def sfmt_stream_def)

lemma sfmt_gen_rand32_drawn:
  assumes "drawn xs p s"
  shows "\<exists>s'. sfmt_gen_rand32 s = Inr (sfmt_stream xs (N32 + p), s') \<and> drawn xs (Suc p) s'"
proof -
  obtain b where b: "sfmt_initialized s" "sfmt_idx s \<le> N32" "window (sfmt_at xs) b (psfmt32 s)" "N32 + p = 4 * b + sfmt_idx s"
    using assms by (auto simp: drawn_def)
  show ?thesis
  proof (cases "sfmt_idx s < N32")
    case True
    with b have "psfmt32 s ! sfmt_idx s = sfmt_stream xs (N32 + p)" using window_word by simp
    with True b show ?thesis by (auto simp: sfmt_gen_rand32_def drawn_def Let_def)
  next
    case False
    let ?ys = "gen_rand_all (psfmt32 s)"
    have w: "window (sfmt_at xs) (b + SFMT_N) ?ys" using b(3) by (rule gen_rand_all_window)
    have p: "N32 + p = 4 * (b + SFMT_N)" using b(2,4) False by simp
    have "?ys ! 0 = sfmt_stream xs (N32 + p)" unfolding p using window_word [OF w, of 0] by simp
    moreover have "N32 + Suc p = 4 * (b + SFMT_N) + 1" using p by simp
    ultimately show ?thesis using False b(1) w by (auto simp: sfmt_gen_rand32_def drawn_def Let_def)
  qed
qed

lemma draw_at:
  assumes "drawn xs p s" and "0 < mx" and "mx < 2 ^ 63"
  shows "\<exists>s'. genrand sfmt_rng s mx = Some (Inr (ucast (sfmt_stream xs (N32 + p)) mod mx, s')) \<and> drawn xs (Suc p) s'"
  using sfmt_gen_rand32_drawn [OF assms(1)] assms(2,3) by (auto simp: genrand_draw sfmt_rng_def word_gt_0)

fun genrands :: "'s rng \<Rightarrow> 's \<Rightarrow> u64 list \<Rightarrow> (u64 list \<times> 's) res option" where
  \<comment> \<open>one call of \<^verbatim>\<open>genrand\<close> per bound\<close>
  "genrands g s [] = Some (Inr ([], s))"
| "genrands g s (mx # ms) = obind (genrand g s mx) (\<lambda>(r, s'). obind (genrands g s' ms) (\<lambda>(rs, s''). Some (Inr (r # rs, s''))))"

lemma genrands_drawn:
  assumes "drawn xs p s" and "\<forall>mx \<in> set ms. 0 < mx \<and> mx < 2 ^ 63"
  shows "\<exists>s'. genrands sfmt_rng s ms = Some (Inr (map2 (\<lambda>k mx. ucast (sfmt_stream xs (N32 + k)) mod mx) [p..<p + length ms] ms, s')) \<and>
    drawn xs (p + length ms) s'"
  using assms
proof (induction ms arbitrary: p s)
  case (Cons mx ms)
  obtain s1 where s1: "genrand sfmt_rng s mx = Some (Inr (ucast (sfmt_stream xs (N32 + p)) mod mx, s1))" "drawn xs (Suc p) s1"
    using draw_at [OF Cons(2), of mx] Cons(3) by auto
  from Cons(1) [OF s1(2)] Cons(3) s1(1) show ?case by (auto simp: upt_conv_Cons simp del: upt_Suc)
qed simp

lemma big_bound_aborts:
  \<comment> \<open>the 64-bit number that the rejection loop asks for is refused at an odd position\<close>
  assumes "drawn xs p s" and "even p" and "2 ^ 63 \<le> mx"
  shows "genrand sfmt_rng s mx = Some (Inl Abort)"
proof -
  obtain b where b: "sfmt_initialized s" "sfmt_idx s \<le> N32" "N32 + p = 4 * b + sfmt_idx s" using assms(1) by (auto simp: drawn_def)
  have "even (4 * b + sfmt_idx s)" unfolding b(3) [symmetric] using assms(2) by simp
  then have idx: "even (sfmt_idx s)" by simp
  obtain r s' where r: "sfmt_gen_rand32 s = Inr (r, s')" using sfmt_gen_rand32_drawn [OF assms(1)] by blast
  then have "odd (sfmt_idx s')" using b(1) idx by (auto simp: sfmt_gen_rand32_def Let_def split: if_splits)
  then have "gen_rand64 sfmt_rng s' = Inl Abort" by (simp add: sfmt_rng_def sfmt_gen_rand64_def odd_iff_mod_2_eq_one)
  moreover have "(2 ^ 63 - 1) div mx = 0" using assms(3) by (simp add: div_word_less word_less_nat_alt word_le_nat_alt)
  moreover have "mx \<noteq> 0" using assms(3) by auto
  ultimately show ?thesis using r by (simp add: genrand_def sfmt_rng_def genrand_loop.simps)
qed

section \<open>The period\<close>

primrec odd_bits :: "nat \<Rightarrow> u32 \<Rightarrow> bool" where
  \<comment> \<open>an odd number of the lowest bits is set\<close>
  "odd_bits 0 w = False"
| "odd_bits (Suc n) w = (odd_bits n w \<noteq> bit w n)"

lemma odd_bits_xor: "odd_bits n (v XOR w) = (odd_bits n v \<noteq> odd_bits n w)"
  by (induction n) (auto simp: bit_xor_iff)

lemma odd_bits_add: "n + m \<le> 32 \<Longrightarrow> odd_bits (n + m) w = (odd_bits n w \<noteq> odd_bits m (signed_drop_bit n w))"
  by (induction m) (auto simp: bit_signed_drop_bit_iff min_def add.commute)

lemma odd_bits_fold: "2 * n \<le> 32 \<Longrightarrow> odd_bits n (w XOR signed_drop_bit n w) = odd_bits (2 * n) w"
  using odd_bits_add [of n n w] by (simp add: odd_bits_xor mult_2)

definition certified :: "u32 list \<Rightarrow> bool" where
  \<comment> \<open>the inner product of the first 128 bits and the parity vector is 1\<close>
  "certified xs = odd_bits 32 ((xs ! 0 AND parity ! 0) XOR (xs ! 1 AND parity ! 1) XOR (xs ! 2 AND parity ! 2) XOR (xs ! 3 AND parity ! 3))"

lemma certification_inner_iff: "certification_inner xs = 1 \<longleftrightarrow> certified xs"
proof -
  let ?w = "(xs ! 0 AND parity ! 0) XOR (xs ! 1 AND parity ! 1) XOR (xs ! 2 AND parity ! 2) XOR (xs ! 3 AND parity ! 3)"
  let ?v = "fold (\<lambda>i inner. inner XOR signed_drop_bit i inner) [16, 8, 4, 2, 1] ?w"
  have "odd_bits 1 ?v = odd_bits 32 ?w"
    using odd_bits_fold [of 16 ?w] odd_bits_fold [of 8] odd_bits_fold [of 4] odd_bits_fold [of 2] odd_bits_fold [of 1] by simp
  moreover have "odd_bits 1 ?v = bit ?v 0" by simp
  moreover have "certification_inner xs = ?v AND 1" by (simp add: certification_inner_def xor.assoc)
  moreover have "?v AND 1 = 1 \<longleftrightarrow> bit ?v 0" by (simp add: and_one_eq bit_0 odd_iff_mod_2_eq_one)
  ultimately show ?thesis by (simp add: certified_def)
qed

lemma certification_repairs:
  assumes "4 \<le> length xs"
  shows "certified (period_certification xs) \<and> length (period_certification xs) = length xs"
proof (cases "certified xs")
  case True
  then show ?thesis by (simp add: period_certification_def certification_inner_iff)
next
  case False
  have "List.find (\<lambda>(i, j). push_bit j 1 AND parity ! i \<noteq> (0 :: u32)) (List.product [0..<4] [0..<32]) = Some (0, 0)"
    by (simp add: parity_def upt_conv_Cons)
  then have p: "period_certification xs = xs[0 := xs ! 0 XOR 1]"
    using False by (simp add: period_certification_def certification_inner_iff)
  have "(xs ! 0 XOR 1) AND parity ! 0 = (xs ! 0 AND parity ! 0) XOR 1"
    by (rule bit_eqI) (auto simp: parity_def bit_simps)
  moreover have "odd_bits 32 1" by code_simp
  moreover have "xs \<noteq> []" using assms by auto
  ultimately show ?thesis using False assms by (simp add: p certified_def odd_bits_xor nth_list_update)
qed

lemma length_init_words [simp]: "length (init_words_from i xs) = length xs"
  by (induction i xs rule: init_words_from.induct) (simp add: init_words_from.simps)

lemma init_rand_drawn:
  assumes "length (psfmt32 s) = N32"
  shows "certified (psfmt32 (init_rand sd s)) \<and> drawn (psfmt32 (init_rand sd s)) 0 (init_rand sd s)"
proof -
  let ?xs = "psfmt32 (init_rand sd s)"
  have xs: "certified ?xs \<and> length ?xs = N32"
    using certification_repairs [of "init_words_from 1 ((psfmt32 s)[0 := ucast sd])"] assms by (simp add: init_rand_def init_gen_rand_def)
  then have "window (sfmt_at ?xs) 0 ?xs" by (simp add: window_def sfmt_seq.simps)
  with xs show ?thesis by (auto simp: drawn_def init_rand_def init_gen_rand_def)
qed

text \<open>
  (C40) The random numbers of a seed. After \<open>init_rand\<close> the first 128 bits of the state array have an odd
  number of bits in common with the parity vector, which is the condition for the full period. From then
  on the calls of \<open>genrand\<close> return, and the call number \<open>k\<close> gives word \<open>k\<close> of the recurrence of the
  Mersenne Twister modulo its bound: the array that is overwritten in place, its two loops, the two
  pointers to the last numbers and the refills every 624 draws compute one unbounded sequence.
\<close>

theorem random_numbers_of_seed:
  assumes "length (psfmt32 s) = N32" and "\<forall>mx \<in> set ms. 0 < mx \<and> mx < 2 ^ 63"
  shows "let xs = psfmt32 (init_rand sd s) in certified xs \<and>
    (\<exists>s'. genrands sfmt_rng (init_rand sd s) ms =
       Some (Inr (map2 (\<lambda>k mx. ucast (sfmt_stream xs (N32 + k)) mod mx) [0..<length ms] ms, s')))"
  using init_rand_drawn [OF assms(1), of sd] genrands_drawn [OF _ assms(2), of "psfmt32 (init_rand sd s)" 0 "init_rand sd s"]
  by (auto simp: Let_def)

theorem random_numbers_of_seed_witness:
  "let xs = psfmt32 (init_rand 42 sfmt_start) in certified xs \<and>
   (\<exists>s'. genrands sfmt_rng (init_rand 42 sfmt_start) [10, 7, 2 ^ 40] =
     Some (Inr ([ucast (sfmt_stream xs 624) mod 10, ucast (sfmt_stream xs 625) mod 7, ucast (sfmt_stream xs 626) mod 2 ^ 40], s')))"
  using random_numbers_of_seed [of sfmt_start "[10, 7, 2 ^ 40]" 42] by (auto simp: sfmt_start_def Let_def simp del: genrands.simps)

end
