(* ===== verification/Spec2Isabelle.thy ===== *)
theory Spec2Isabelle
  imports Dedis_Faultconf_Correct Dedis_On_Device Dedis_Rate Dedis_Gen_Correct Fbd_Console_Correct Sfmt
begin

text \<open>
  \<^bold>\<open>AchillesBench.\<close> A block device in user space that injects faults (\<^verbatim>\<open>src/fbdd\<close>), and a benchmark for
  storage systems with deduplication that writes to it, asks it for faults and checks what became of
  its data (\<^verbatim>\<open>src/dedisbench\<close>). This development models both programs with their tools, and the path
  of a fault through all of them.

  \<^bold>\<open>The parts and how they interact.\<close>

  \<^item> The \<^emph>\<open>driver\<close> \<^verbatim>\<open>fbdd\<close> is called by the library BDUS for every request to the device. It splits a
    request into blocks of 4096 bytes, looks every block up in the \<^emph>\<open>registry\<close> of faults, by offset, by
    digest or by content that is read back from the disk, and inverts a bit, sleeps, or answers with an error.
  \<^item> Registered faults come over a socket: the \<^emph>\<open>fault protocol\<close> has a client, linked into the benchmark
    and the console, and a server, a thread of the driver. A request is one C structure of 112 bytes.
  \<^item> The \<^emph>\<open>console\<close> \<^verbatim>\<open>fconsole\<close> writes, reads, checks and asks for faults from the command line.
  \<^item> The benchmark \<^verbatim>\<open>DEDISbench\<close> loads a \<^emph>\<open>distribution\<close> of duplicates, populates files or a raw device,
    and forks processes that draw positions and contents, write or read, count, and release the faults
    of a YAML file by time or by number of operations. A content tracker in shared memory says what
    every block should hold; checks during the run and at the end compare it with the device.
  \<^item> \<^verbatim>\<open>DEDISgen\<close> and \<^verbatim>\<open>DEDISgen-utils\<close> analyse the files of a folder or a device and write the
    distribution that the benchmark loads.

  \<^bold>\<open>How code is modelled.\<close> C integers are words of their width; \<^verbatim>\<open>int\<close> values are integers with \<open>to_int\<close>
  where the code can wrap around. A function that can leave defined behaviour or the program returns
  \<open>'a res\<close>, whose left values are \<open>Out_Of_Bounds\<close>, \<open>Wild_Pointer\<close>, \<open>Uninitialised\<close>, \<open>Div_By_Zero\<close>, \<open>Abort\<close> and
  \<open>Exit\<close> with its code. A function that can loop for ever returns \<open>'a res option\<close> and is a partial function:
  None means that it does not return, so a theorem that gives a value \<open>Some (Inr x)\<close> says that the code ends,
  and no fuel is needed. State is passed explicitly; loops over arrays keep their indices. Uninitialised
  memory is an argument, so that no theorem depends on what it holds.

  \<^bold>\<open>Theories of the device.\<close>

  \<^item> \<open>Fbd_Defines\<close>: codes and their names (\<^verbatim>\<open>fbd_defines.c\<close>). \<open>Fbd_Structs\<close>: data, constructors, getters and
    adders of the registry (\<^verbatim>\<open>fbd_structs.h\<close>, \<^verbatim>\<open>fbd_structs.c\<close>). \<open>Fbd_Registry\<close>: for well-formed registries
    the list of ranges implements an abstract table of faults; the locale \<open>fault_table\<close> proves it once and is
    interpreted for faults by block, by hash and by deduplication.
  \<^item> \<open>Fbd_Inject\<close>: the injectors (\<^verbatim>\<open>fault/fault.c\<close>, \<^verbatim>\<open>fbd_check_and_inject_fault\<close>). The index loop over a shrinking
    array equals a structural traversal; which range decides, what happens to status, buffer, delay, disk
    and registry; safety on well-formed registries.
  \<^item> \<open>Fbd_Driver\<close>: callbacks, options and \<^verbatim>\<open>main\<close> of \<^verbatim>\<open>fbdd.c\<close>, with \<^verbatim>\<open>pread\<close> and \<^verbatim>\<open>pwrite\<close> that transfer as
    much as the system likes. Writes are all or nothing, reads return the disk up to injected faults, and
    without faults the device is a disk.
  \<^item> \<open>Fsp_Protocol\<close>, \<open>Fsp_Correct\<close>: requests with their layout in memory, server and client (\<^verbatim>\<open>fsocket\<close>). The server
    implements the abstract table, and a call of the client is the registration at the driver: the locale
    \<open>fsp_transport\<close> states what a socket has to do and is interpreted on the loop to the server.
  \<^item> \<open>Fbd_Console\<close>, \<open>Fbd_Console_Correct\<close>: the console, its device and the sweeper (\<^verbatim>\<open>fconsole.c\<close>, \<^verbatim>\<open>fdevice.c\<close>,
    \<^verbatim>\<open>fsweeper.c\<close>) with \<^verbatim>\<open>sscanf\<close> for the formats that are used. A session that writes and reads a block.

  \<^bold>\<open>Theories of the benchmark.\<close>

  \<^item> \<open>C_Text\<close>: functions of the C library on text. \<open>Dedis_Conf\<close>: records of \<^verbatim>\<open>defines.h\<close>, \<^verbatim>\<open>genrand\<close> and numeric
    helpers. \<open>Sfmt\<close>: the Mersenne Twister behind \<^verbatim>\<open>genrand\<close>; drawing numbers from the array that is overwritten
    in place is reading one unbounded recurrence, and the seeding certifies the period.
  \<^item> \<open>Dedis_Access\<close>: positions (\<^verbatim>\<open>iodist.c\<close>), with their bounds. \<open>Dedis_Io\<close>: requests and shared memory (\<^verbatim>\<open>io.c\<close>,
    \<^verbatim>\<open>sharedmem.c\<close>), whose regions tile the mapping.
  \<^item> \<open>Dedis_Duplicates\<close>, \<open>Dedis_Dup_Correct\<close>: the distribution (\<^verbatim>\<open>duplicatedist.c\<close>). Loading, the share of every content
    among the random numbers, contents that never repeat, blocks that pass their own check, the output
    distribution.
  \<^item> \<open>Dedis_Degree\<close>, \<open>Dedis_Degree_Correct\<close>: the sorted array of counters (\<^verbatim>\<open>dedupDegree.c\<close>). The locale \<open>counting\<close> states
    that it counts, and is interpreted on the array as long as keys do not change.
  \<^item> \<open>Dedis_Faultconf\<close>, \<open>Dedis_Faultconf_Correct\<close>: the YAML parser as a step relation over tokens
    (\<^verbatim>\<open>configParserYaml.c\<close>) with invariants by rule induction (locale \<open>parser_invariant\<close>), and the schedule of \<^verbatim>\<open>fault.c\<close>.
    \<open>Dedis_Faults\<close>, \<open>Dedis_Faults_Correct\<close>: choice of the block and request to the driver (\<^verbatim>\<open>faults/fault.c\<close>).
  \<^item> \<open>Dedis_Populate\<close>, \<open>Dedis_Populate_Correct\<close>: initial contents and integrity check (\<^verbatim>\<open>populate.c\<close>). The locale \<open>block_file\<close>
    states what a file of blocks promises; populating, running, checking and the console are proved over it.
  \<^item> \<open>Dedis_Run\<close>, \<open>Dedis_Run_Correct\<close>, \<open>Dedis_Launch_Correct\<close>, \<open>Dedis_Rate\<close>: \<^verbatim>\<open>process_run\<close> and \<^verbatim>\<open>launch_benchmark\<close> of
    \<^verbatim>\<open>DEDISbench.c\<close>. The processes run under an arbitrary schedule of rounds; a schedule with enough rounds
    for every process lets all of them end. \<open>Dedis_Plot\<close>: files of results (\<^verbatim>\<open>plotio.c\<close>) and the histogram.
  \<^item> \<open>Ini_Parse\<close>: the parser of configuration files (\<^verbatim>\<open>inih/ini.c\<close>; locale \<open>ini_client\<close> for handlers). \<open>Dedis_Main\<close>: entries,
    options, checks and \<^verbatim>\<open>main\<close> of \<^verbatim>\<open>DEDISbench.c\<close>; every configuration that is accepted is legal.
  \<^item> \<open>Dedis_On_Device\<close>: the driver without faults is a \<open>block_file\<close> (interpretation \<open>dev\<close>), so that the benchmark
    on the device populates, runs and checks without an error, and a flipped block is reported.
  \<^item> \<open>Dedis_Berk\<close>, \<open>Dedis_Gen\<close>, \<open>Dedis_Gen_Correct\<close>: counters in Berkeley DB, the analysis and its utility (\<^verbatim>\<open>berk.c\<close>,
    \<^verbatim>\<open>DEDISgen.c\<close>, \<^verbatim>\<open>DEDISgen-utils.c\<close>). Over any library with the laws of \<open>hash_db\<close> the analysis counts the blocks
    of a device, and the benchmark loads the distribution that was counted.

  This theory has the path of a fault from the configuration of the benchmark to the bytes of a block.
  The shared vocabulary is in \<open>Achilles_Prelude\<close>.

  \<^bold>\<open>Parameters.\<close> Code that is not part of the repository is an argument: the digests MD5 and XXH3
  (\<open>hash_lib\<close>), the tokens of libyaml, sorting and hashing of GLib, the calls of libdb (\<open>libdb\<close>), \<^verbatim>\<open>atof\<close>, what
  \<^verbatim>\<open>getopt_long\<close> returns, the answers of system calls (\<open>file_io\<close> and the records of the operating system), the
  time of day (\<open>tick\<close>), and the generator in the definitions that draw numbers (\<open>rng\<close>, with the instance
  \<open>sfmt_rng\<close>). What is relied on is a hypothesis of the theorem or a law of a locale.

  \<^bold>\<open>Not modelled.\<close>

  \<^item> BDUS (\<^verbatim>\<open>src/bdus\<close>): a kernel module and library of others, kept in the repository with its examples and tests.
  \<^item> Texts that are only printed: progress, gnuplot scripts, averages of latency and throughput, which are
    quotients in floating point. Rates are compared exactly where the code compares rounded quotients.
  \<^item> Interleaving inside a round of a process: the code has no locks, and a round, from the choice of the
    request to its bookkeeping, is one step of the model. Registration of faults is not interleaved with the
    injection of one request.
  \<^item> System calls without a result that the code uses: set-up of sockets and threads, \<^verbatim>\<open>closemmap\<close>, and
    \<^verbatim>\<open>dedis_pidstat.c\<close>, which only starts two programs.
  \<^item> Code that is not called: \<^verbatim>\<open>f_tests\<close> of the console and its helpers, \<^verbatim>\<open>ram.c\<close>, the parts of SFMT that fill arrays,
    seed from arrays or convert to floating point, the variants of SFMT for other processors, the
    commented-out encoder and cache of the protocol, and the wrapper, examples and tests of inih.
  \<^item> Scripts in \<^verbatim>\<open>src/sh\<close> and \<^verbatim>\<open>src/gawk\<close>.
\<close>

text \<open>
  (C2) A fault of the benchmark hits the content it was asked for. The benchmark asks the driver, in
  hash mode, for a persistent bit flip on writes of the block it has chosen, whatever the rule of
  the choice. The driver accepts, the benchmark records the fault, and from then on every block
  that the benchmark generates is written with bit 0 of its first byte inverted when its digest is
  that of the chosen block, and unchanged otherwise.
\<close>

theorem benchmark_fault_hits_its_content:
  assumes "rq_ok (env_fresh env)" and "length img = 112" and "env_sock env = loop_sock junk"
    and "d_hash_type dev = FBD_HASH_XXH3_128" and "hash_mode (d_settings dev)" and "d_ranges dev = []"
    and "fc_mode fc = 1" and "fc_type fc = 1" and "fc_operation fc = 1" and "fc_persistent fc"
    and "select_block (env_ghash env) mem (fc_dist fc) dd fi fs p = Inr (bl, fi')"
    and "length (block_header (mem bl)) < 4096"
  shows "\<exists>dev' img' content fs'. get_block_content (mem bl) 4096 = Inr content \<and>
    inject_fault env (dev, img, []) mem fc dd 4096 fi fs p off = Inr (fs', fi', (dev', img', [])) \<and>
    tot_faults_injected fs' = tot_faults_injected fs + 1 \<and> injected_contains (env_ghash env) mem fs' (cont_id (mem bl)) \<and>
    (\<forall>b block w o' junk'. get_block_content b 4096 = Inr block \<longrightarrow>
      (\<exists>w'. fbd_check_and_inject_write_fault (env_lib env) junk' dev' w (bytes_of block) 4096 o' =
         Inr (FBD_STS_OK, dev', w',
              if xxh3_digest (env_lib env) (bytes_of block) = xxh3_digest (env_lib env) (bytes_of content)
              then flip_first (bytes_of block) else bytes_of block) \<and> disk w' = disk w))"
proof -
  obtain content where c: "next_failure (env_ghash env) mem (fc_dist fc) dd 4096 fi fs p = Inr (content, bl, fi')"
    "get_block_content (mem bl) 4096 = Inr content" "length content = 4096"
    by (rule next_failure_content [OF assms(11), of 4096]) (use assms(12) in auto)
  obtain lo hi where d: "xxh3_digest (env_lib env) (bytes_of content) = (lo, hi)" by fastforce
  define dev' where "dev' = dev\<lparr>d_ranges := [digest_range FBD_MODE_HASH (store_xxh3 lo hi junk) (bit_flip_on FBD_OP_WRITE True)]\<rparr>"
  let ?cmd = "Add_Hash (store_xxh3 lo hi junk) (bit_flip_on FBD_OP_WRITE True)"
  have "fault_command fc (store_xxh3 lo hi junk) = Some ?cmd"
    using assms(7-10) by (simp add: fault_command_def)
  moreover have "run_cmd dev ?cmd = Inr (FBD_STS_OK, dev')"
    unfolding dev'_def by (rule add_hash_empty [OF assms(6)]) simp
  ultimately obtain img' where "inject_fault env (dev, img, []) mem fc dd 4096 fi fs p off =
      Inr (recorded (env_ghash env) mem fs bl FBD_STS_OK, fi', (dev', img', []))"
    using inject_fault_by_content [OF assms(1-3) _ c(1) _ d] assms(5,7) c(3) by (fastforce simp: fault_mode_on_def)
  moreover have "injected_contains (env_ghash env) mem (recorded (env_ghash env) mem fs bl FBD_STS_OK) (cont_id (mem bl))"
    by (rule recorded_contains) simp_all
  moreover have "\<exists>w'. fbd_check_and_inject_write_fault (env_lib env) junk' dev' w (bytes_of block) 4096 o' =
         Inr (FBD_STS_OK, dev', w', if xxh3_digest (env_lib env) (bytes_of block) = (lo, hi)
              then flip_first (bytes_of block) else bytes_of block) \<and> disk w' = disk w"
    if "get_block_content b 4096 = Inr block" for b block w o' junk'
  proof -
    have "length (bytes_of block) = 4096" using that by (auto simp: get_block_content_def sprintf_at_def split: if_splits)
    with digest_bit_flip_writes [OF dev'_def assms(4,5), of "bytes_of block" "env_lib env" junk' w o'] show ?thesis by simp
  qed
  ultimately show ?thesis using c(2) d by (auto simp: recorded_def)
qed

theorem benchmark_fault_hits_its_content_witness:
  "\<exists>dev' img' fs' w'. inject_fault demo_env (xxh3_device, replicate 112 0, []) demo_mem
      (demo_fault\<lparr>fc_mode := 1, fc_type := 1\<rparr>) None 4096 (Some demo_runtime) no_faults 0 8192 =
      Inr (fs', Some demo_runtime, (dev', img', [])) \<and> tot_faults_injected fs' = 1 \<and>
    (\<exists>block. get_block_content (demo_mem (Last_Block 0)) 4096 = Inr block \<and>
       fbd_check_and_inject_write_fault demo_lib [] dev' (demo_world []) (bytes_of block) 4096 0 =
         Inr (FBD_STS_OK, dev', w', flip_first (bytes_of block)))"
proof -
  have "length (block_header (demo_mem (Last_Block 0))) < 4096" using demo_header by simp
  moreover have "rq_ok (env_fresh demo_env)" by (simp add: demo_env_def zero_request_def rq_ok_def)
  ultimately obtain dev' img' content fs' where r: "get_block_content (demo_mem (Last_Block 0)) 4096 = Inr content"
    "inject_fault demo_env (xxh3_device, replicate 112 0, []) demo_mem (demo_fault\<lparr>fc_mode := 1, fc_type := 1\<rparr>) None 4096
      (Some demo_runtime) no_faults 0 8192 = Inr (fs', Some demo_runtime, (dev', img', []))" "tot_faults_injected fs' = 1"
    and w: "\<And>b block w o' junk'. get_block_content b 4096 = Inr block \<Longrightarrow>
      (\<exists>w'. fbd_check_and_inject_write_fault demo_lib junk' dev' w (bytes_of block) 4096 o' =
         Inr (FBD_STS_OK, dev', w', if xxh3_digest demo_lib (bytes_of block) = xxh3_digest demo_lib (bytes_of content)
              then flip_first (bytes_of block) else bytes_of block) \<and> disk w' = disk w)"
    using benchmark_fault_hits_its_content [of demo_env "replicate 112 0" "[]" xxh3_device "demo_fault\<lparr>fc_mode := 1, fc_type := 1\<rparr>"
        demo_mem None "Some demo_runtime" no_faults 0 "Last_Block 0" "Some demo_runtime" 8192]
    by (auto simp: demo_env_def demo_fault_def select_block_def finfo_get_last_block_def no_faults_def)
  from w [OF r(1), of "[]" "demo_world []" 0] r show ?thesis by auto
qed

end
